(* ===== verification/Prelude.thy ===== *)
theory Prelude
  imports Main "HOL-Library.Word" "HOL-Library.AList" "HOL-Library.Multiset"
begin

text \<open>
  Shared vocabulary of the development: the Go run-time notions the program uses
  (errors, panics, machine integers, maps, pointers to \<open>int32\<close> cells) with the lemmas
  about them that every component theory relies on.

  \<^item> \<open>go_error\<close> is an \<open>error\<close> value; a Go result pair \<open>(v, err)\<close> is \<open>go_error + 'a\<close>.
  \<^item> \<open>'a go\<close> is the outcome of a call: it returns (\<open>Ret\<close>) or panics (\<open>Panic\<close>).
  \<^item> \<open>int32\<close> is a 32-bit word compared as two's complement (\<open><s\<close>, \<open>sint\<close>).
  \<^item> \<open>('k, 'v) gomap\<close> is the content of a non-nil Go map, as an association list with
    distinct keys; the list order stands for one iteration order of \<open>range\<close>. Results
    that must not depend on that order are proved for every list with the same content.
  \<^item> \<open>heap\<close> holds the \<open>int32\<close> cells that the code allocates with \<open>new(int32)\<close> or by
    taking the address of a variable.
\<close>

section \<open>Errors and panics\<close>

datatype go_error =
    Errorf string              \<comment> \<open>\<open>fmt.Errorf\<close> of a fixed text\<close>
  | Wrapf string go_error      \<comment> \<open>\<open>fmt.Errorf\<close> of a text around another error\<close>
  | NotFound string string     \<comment> \<open>\<open>errors.NewNotFound\<close> of a resource and a name\<close>
  | ExtError string            \<comment> \<open>an error made by code outside the repository\<close>

datatype go_panic =
    NilDeref | IndexOutOfRange | CloseOfClosedChannel
  | TypeAssertion             \<comment> \<open>\<open>x.(T)\<close> of another dynamic type\<close>
  | PanicError go_error       \<comment> \<open>\<open>panic(err)\<close>\<close>

datatype 'a go = Ret 'a | Panic go_panic

fun go_bind :: "'a go \<Rightarrow> ('a \<Rightarrow> 'b go) \<Rightarrow> 'b go" where
  "go_bind (Ret a) f = f a"
| "go_bind (Panic p) f = Panic p"

lemma go_bind_Ret_iff: "go_bind m f = Ret b \<longleftrightarrow> (\<exists>a. m = Ret a \<and> f a = Ret b)"
  by (cases m) auto

lemma go_bind_Ret_right [simp]: "go_bind m Ret = m"
  by (cases m) auto

lemma go_bind_assoc: "go_bind (go_bind m f) g = go_bind m (\<lambda>a. go_bind (f a) g)"
  by (cases m) auto

text \<open>A loop whose body may panic, over the elements of a list from left to right.\<close>

fun go_fold :: "('b \<Rightarrow> 's \<Rightarrow> 's go) \<Rightarrow> 'b list \<Rightarrow> 's \<Rightarrow> 's go" where
  "go_fold f [] s = Ret s"
| "go_fold f (x # xs) s = go_bind (f x s) (go_fold f xs)"

lemma go_fold_append: "go_fold f (xs @ ys) s = go_bind (go_fold f xs s) (go_fold f ys)"
proof (induction xs arbitrary: s)
  case Nil
  show ?case by simp
next
  case (Cons x xs)
  show ?case by (cases "f x s") (simp_all add: Cons.IH)
qed

lemma go_fold_Ret:
  "(\<And>x s. x \<in> set xs \<Longrightarrow> f x s = Ret (g x s)) \<Longrightarrow> go_fold f xs s = Ret (fold g xs s)"
  by (induction xs arbitrary: s) simp_all

section \<open>Machine integers\<close>

type_synonym int32 = "32 word"
type_synonym int64 = "64 word"

text \<open>Go's conversion \<open>int32(n)\<close> of an \<open>int\<close> keeps the low 32 bits.\<close>

definition int32_of :: "int \<Rightarrow> int32" where
  "int32_of n = word_of_int n"

definition int64_of :: "int \<Rightarrow> int64" where
  "int64_of n = word_of_int n"

lemma sint_int32_of: "- (2 ^ 31) \<le> n \<Longrightarrow> n < 2 ^ 31 \<Longrightarrow> sint (int32_of n) = n"
  by (simp add: int32_of_def signed_of_int signed_take_bit_int_eq_self)

lemma sint_int64_of: "- (2 ^ 63) \<le> n \<Longrightarrow> n < 2 ^ 63 \<Longrightarrow> sint (int64_of n) = n"
  by (simp add: int64_of_def signed_of_int signed_take_bit_int_eq_self)

lemma int32_of_sint [simp]: "int32_of (sint w) = w"
  by (simp add: int32_of_def)

lemma int32_of_add: "int32_of (a + b) = int32_of a + int32_of b"
  by (simp add: int32_of_def)

lemma int32_of_diff: "int32_of (a - b) = int32_of a - int32_of b"
  by (simp add: int32_of_def)

lemma int32_of_minus: "int32_of (- a) = - int32_of a"
  by (simp add: int32_of_def)

lemma int32_of_0 [simp]: "int32_of 0 = 0"
  by (simp add: int32_of_def)

lemma sint_int32_bounds: "- (2 ^ 31) \<le> sint (w :: int32)" "sint (w :: int32) < 2 ^ 31"
  using sint_range_size [of w] by (simp_all add: word_size)

section \<open>Go maps\<close>

type_synonym ('k, 'v) gomap = "('k \<times> 'v) list"

abbreviation gomake :: "('k, 'v) gomap" where "gomake \<equiv> []"

definition glookup :: "('k, 'v) gomap \<Rightarrow> 'k \<Rightarrow> 'v option" where
  "glookup m k = map_of m k"

definition ginsert :: "'k \<Rightarrow> 'v \<Rightarrow> ('k, 'v) gomap \<Rightarrow> ('k, 'v) gomap" where
  "ginsert k v m = AList.update k v m"

definition gkeys :: "('k, 'v) gomap \<Rightarrow> 'k list" where
  "gkeys m = map fst m"

definition gmap_ok :: "('k, 'v) gomap \<Rightarrow> bool" where
  "gmap_ok m \<longleftrightarrow> distinct (map fst m)"

text \<open>Two lists that hold the same map differ only in the iteration order.\<close>

definition gsame :: "('k, 'v) gomap \<Rightarrow> ('k, 'v) gomap \<Rightarrow> bool" where
  "gsame m m' \<longleftrightarrow> gmap_ok m \<and> gmap_ok m' \<and> set m = set m'"

lemma glookup_make [simp]: "glookup gomake k = None"
  by (simp add: glookup_def)

lemma dom_glookup_make [simp]: "dom (glookup gomake) = {}"
  by auto

lemma glookup_insert: "glookup (ginsert k v m) = (glookup m)(k \<mapsto> v)"
  by (simp add: glookup_def ginsert_def fun_eq_iff update_conv')

lemma glookup_insert_apply [simp]:
  "glookup (ginsert k v m) q = (if q = k then Some v else glookup m q)"
  by (simp add: glookup_insert)

lemma dom_upd_if [simp]: "dom (\<lambda>x. if x = k then Some v else f x) = insert k (dom f)"
  by auto

lemma gmap_ok_make [simp]: "gmap_ok gomake"
  by (simp add: gmap_ok_def)

lemma gmap_ok_insert [simp]: "gmap_ok m \<Longrightarrow> gmap_ok (ginsert k v m)"
  by (simp add: gmap_ok_def ginsert_def distinct_update)

lemma set_gkeys: "set (gkeys m) = dom (glookup m)"
  by (simp add: gkeys_def glookup_def [abs_def] dom_map_of_conv_image_fst)

lemma ginsert_new: "k \<notin> dom (glookup m) \<Longrightarrow> ginsert k v m = m @ [(k, v)]"
  by (induction m) (auto simp: ginsert_def glookup_def domIff split: if_splits)

lemma gmem_iff: "gmap_ok m \<Longrightarrow> (k, v) \<in> set m \<longleftrightarrow> glookup m k = Some v"
  by (simp add: gmap_ok_def glookup_def)

lemma gsame_lookup: "gsame m m' \<Longrightarrow> glookup m = glookup m'"
  unfolding gsame_def gmap_ok_def glookup_def
  by (metis map_of_inject_set)

lemma glookup_mem: "glookup m k = Some v \<Longrightarrow> (k, v) \<in> set m"
  by (simp add: glookup_def map_of_SomeD)

text \<open>
  What the code relies on when it fills a map in a loop: the last value stored for a key
  is the one found. Every loop of the program that builds a map is a \<open>fold\<close> of insertions.
\<close>

locale go_map =
  fixes lookup :: "'m \<Rightarrow> 'k \<Rightarrow> 'v option"
    and insert :: "'k \<Rightarrow> 'v \<Rightarrow> 'm \<Rightarrow> 'm"
    and empty :: 'm
  assumes lookup_empty: "lookup empty k = None"
    and lookup_insert: "lookup (insert k v m) = (lookup m)(k \<mapsto> v)"
begin

lemma fold_insert_lookup:
  "lookup (fold (\<lambda>x. insert (key x) (val x)) xs m)
     = lookup m ++ map_of (rev (map (\<lambda>x. (key x, val x)) xs))"
  by (induction xs arbitrary: m)
     (simp_all add: lookup_insert map_add_def fun_eq_iff split: option.split)

lemma fold_insert_empty:
  "lookup (fold (\<lambda>x. insert (key x) (val x)) xs empty)
     = map_of (rev (map (\<lambda>x. (key x, val x)) xs))"
  by (simp add: fold_insert_lookup map_add_def lookup_empty fun_eq_iff split: option.split)

lemma fold_insert_distinct:
  assumes "distinct (map key xs)"
  shows "lookup (fold (\<lambda>x. insert (key x) (val x)) xs empty) k = Some v
     \<longleftrightarrow> (\<exists>x \<in> set xs. key x = k \<and> val x = v)"
proof -
  have "distinct (map fst (rev (map (\<lambda>x. (key x, val x)) xs)))"
    using assms by (simp add: rev_map [symmetric] comp_def)
  then show ?thesis by (auto simp: fold_insert_empty)
qed

lemma dom_fold_insert:
  "dom (lookup (fold (\<lambda>x. insert (key x) (val x)) xs empty)) = key ` set xs"
  by (force simp: fold_insert_empty dom_map_of_conv_image_fst)

end

interpretation gm: go_map glookup ginsert gomake
  by unfold_locales (simp_all add: glookup_insert)

lemma gmap_ok_fold_insert [simp]:
  "gmap_ok m \<Longrightarrow> gmap_ok (fold (\<lambda>x. ginsert (key x) (val x)) xs m)"
  by (induction xs arbitrary: m) simp_all

text \<open>A map field of a Kubernetes object may be nil; a read of a nil map finds nothing.\<close>

type_synonym labels = "(string, string) gomap option"

definition mget :: "('k, 'v) gomap option \<Rightarrow> 'k \<Rightarrow> 'v option" where
  "mget m k = (case m of None \<Rightarrow> None | Some m' \<Rightarrow> glookup m' k)"

text \<open>The one-result form \<open>m[k]\<close> yields the zero value for a missing key.\<close>

definition mget_zero :: "(string, string) gomap option \<Rightarrow> string \<Rightarrow> string" where
  "mget_zero m k = (case mget m k of None \<Rightarrow> '''' | Some v \<Rightarrow> v)"

lemma mget_zero_Some [simp]: "mget m k = Some v \<Longrightarrow> mget_zero m k = v"
  by (simp add: mget_zero_def)

section \<open>Cells of type int32\<close>

type_synonym addr = nat

record heap =
  next_addr :: addr
  cells :: "addr \<rightharpoonup> int32"

definition new_int32 :: "int32 \<Rightarrow> heap \<Rightarrow> addr \<times> heap" where
  "new_int32 v h = (next_addr h,
     h\<lparr>next_addr := Suc (next_addr h), cells := (cells h)(next_addr h \<mapsto> v)\<rparr>)"

definition load :: "heap \<Rightarrow> addr \<Rightarrow> int32" where
  "load h a = (case cells h a of None \<Rightarrow> 0 | Some v \<Rightarrow> v)"

text \<open>\<open>*a += delta\<close> and \<open>atomic.AddInt32(a, delta)\<close>: both wrap at 32 bits.\<close>

definition add_int32 :: "addr \<Rightarrow> int32 \<Rightarrow> heap \<Rightarrow> heap" where
  "add_int32 a d h = h\<lparr>cells := (cells h)(a \<mapsto> load h a + d)\<rparr>"

definition heap_ok :: "heap \<Rightarrow> bool" where
  "heap_ok h \<longleftrightarrow> dom (cells h) \<subseteq> {..<next_addr h}"

definition empty_heap :: heap where
  "empty_heap = \<lparr>next_addr = 0, cells = Map.empty\<rparr>"

lemma load_add_int32 [simp]: "load (add_int32 a d h) b = (if a = b then load h b + d else load h b)"
  by (simp add: load_def add_int32_def)

lemma next_addr_add_int32 [simp]: "next_addr (add_int32 a d h) = next_addr h"
  by (simp add: add_int32_def)

lemma cells_add_int32 [simp]: "cells (add_int32 a d h) = (cells h)(a \<mapsto> load h a + d)"
  by (simp add: add_int32_def)

lemma add_int32_commute: "add_int32 a d (add_int32 b e h) = add_int32 b e (add_int32 a d h)"
  by (cases "a = b") (simp_all add: add_int32_def load_def fun_upd_twist algebra_simps)

lemma add_int32_add: "add_int32 a d (add_int32 a e h) = add_int32 a (e + d) h"
  by (simp add: add_int32_def load_def algebra_simps)

lemma add_int32_0: "a \<in> dom (cells h) \<Longrightarrow> add_int32 a 0 h = h"
  by (cases h) (auto simp: add_int32_def load_def)

lemma heap_ok_empty [simp]: "heap_ok empty_heap"
  by (simp add: heap_ok_def empty_heap_def)

lemma heap_ok_add: "heap_ok h \<Longrightarrow> a \<in> dom (cells h) \<Longrightarrow> heap_ok (add_int32 a d h)"
  by (auto simp: heap_ok_def)

lemma new_int32_props:
  assumes "new_int32 v h = (a, h')"
  shows "a = next_addr h" "next_addr h' = Suc (next_addr h)"
    "cells h' = (cells h)(next_addr h \<mapsto> v)"
    "load h' b = (if b = a then v else load h b)"
  using assms by (auto simp: new_int32_def load_def)

lemma heap_ok_new: "heap_ok h \<Longrightarrow> new_int32 v h = (a, h') \<Longrightarrow> heap_ok h'"
  by (auto simp: heap_ok_def new_int32_def less_Suc_eq subset_iff dom_def split: if_splits)

lemma heap_ok_fresh: "heap_ok h \<Longrightarrow> a \<in> dom (cells h) \<Longrightarrow> a < next_addr h"
  by (auto simp: heap_ok_def)

text \<open>
  What the scheduler state needs from its store of counters: an addition changes one
  counter, a new counter is distinct from the live ones. The order in which additions
  take effect is then invisible, which is what the atomic additions of the parallel
  count rely on.
\<close>

locale counter_store =
  fixes rd :: "'h \<Rightarrow> 'a \<Rightarrow> 'v :: ab_group_add"
    and inc :: "'a \<Rightarrow> 'v \<Rightarrow> 'h \<Rightarrow> 'h"
    and live :: "'h \<Rightarrow> 'a set"
  assumes rd_inc: "rd (inc a d h) b = (if a = b then rd h b + d else rd h b)"
    and live_inc: "a \<in> live h \<Longrightarrow> live (inc a d h) = live h"
begin

definition incs :: "('a \<times> 'v) list \<Rightarrow> 'h \<Rightarrow> 'h" where
  "incs xs = fold (\<lambda>(a, d). inc a d) xs"

lemma rd_incs: "rd (incs xs h) b = rd h b + (\<Sum>(a, d) \<leftarrow> xs. if a = b then d else 0)"
  by (induction xs arbitrary: h) (auto simp: incs_def rd_inc add.assoc)

lemma rd_incs_perm:
  assumes "mset xs = mset ys"
  shows "rd (incs xs h) = rd (incs ys h)"
proof -
  have "mset (map f xs) = mset (map f ys)" for f :: "'a \<times> 'v \<Rightarrow> 'v"
    using assms by simp
  then have "sum_list (map f xs) = sum_list (map f ys)" for f :: "'a \<times> 'v \<Rightarrow> 'v"
    by (metis sum_mset_sum_list)
  then show ?thesis by (simp add: rd_incs fun_eq_iff)
qed

lemma rd_undo: "rd (inc a (- d) (inc a d h)) = rd h"
  by (simp add: rd_inc fun_eq_iff)

lemma rd_frame: "b \<notin> fst ` set xs \<Longrightarrow> rd (incs xs h) b = rd h b"
  by (induction xs arbitrary: h) (auto simp: incs_def rd_inc)

lemma live_incs: "fst ` set xs \<subseteq> live h \<Longrightarrow> live (incs xs h) = live h"
  by (induction xs arbitrary: h) (auto simp: incs_def live_inc)

end

locale counter_alloc = counter_store rd inc live
  for rd :: "'h \<Rightarrow> 'a \<Rightarrow> 'v :: ab_group_add" and inc :: "'a \<Rightarrow> 'v \<Rightarrow> 'h \<Rightarrow> 'h" and live +
  fixes new :: "'v \<Rightarrow> 'h \<Rightarrow> 'a \<times> 'h"
    and ok :: "'h \<Rightarrow> bool"
  assumes new_fresh: "ok h \<Longrightarrow> new v h = (a, h') \<Longrightarrow> a \<notin> live h"
    and new_live: "new v h = (a, h') \<Longrightarrow> live h' = insert a (live h)"
    and rd_new: "new v h = (a, h') \<Longrightarrow> rd h' b = (if b = a then v else rd h b)"
    and ok_new: "ok h \<Longrightarrow> new v h = (a, h') \<Longrightarrow> ok h'"
    and ok_inc: "ok h \<Longrightarrow> a \<in> live h \<Longrightarrow> ok (inc a d h)"
begin

lemma ok_incs: "ok h \<Longrightarrow> fst ` set xs \<subseteq> live h \<Longrightarrow> ok (incs xs h)"
  by (induction xs arbitrary: h) (auto simp: incs_def ok_inc live_inc)

lemma new_keeps: "ok h \<Longrightarrow> new v h = (a, h') \<Longrightarrow> b \<in> live h \<Longrightarrow> rd h' b = rd h b"
  using new_fresh rd_new by fastforce

end

interpretation ct: counter_alloc load add_int32 "\<lambda>h. dom (cells h)" new_int32 heap_ok
proof unfold_locales
  show "heap_ok h \<Longrightarrow> new_int32 v h = (a, h') \<Longrightarrow> a \<notin> dom (cells h)" for h v a h'
    using heap_ok_fresh by (fastforce simp: new_int32_def)
  show "new_int32 v h = (a, h') \<Longrightarrow> dom (cells h') = insert a (dom (cells h))" for h v a h'
    by (auto simp: new_int32_def split: if_splits)
  show "new_int32 v h = (a, h') \<Longrightarrow> load h' b = (if b = a then v else load h b)" for h v a h' b
    by (simp add: new_int32_props)
qed (auto simp: insert_absorb intro: heap_ok_new heap_ok_add)

end
