(* ===== verification/Api_Types.thy ===== *)
theory Api_Types
  imports Prelude
begin

text \<open>
  The data of the program.

  \<^item> The custom resource of \<open>pkg/apis/scheduling/v1alpha1/types.go\<close> with the fields of the
    source (JSON tags and type metadata carry no behaviour and are left out).
  \<^item> The internal constraint of \<open>pkg/common/constraint.go\<close>.
  \<^item> The fields of the Kubernetes objects \<open>v1.Pod\<close>, \<open>v1.Node\<close> and of the scheduler
    framework's \<open>NodeInfo\<close> and \<open>Status\<close> that the program reads or writes. These types are
    declared outside the repository; only their documented data is used here, and every
    function over them that the program calls is a parameter of the model.
\<close>

section \<open>The TopologySchedulingPolicy resource\<close>

record SchedulePolicy =
  Name :: string
  Replicas :: int32

record UpdatePolicy =
  MaxSkew :: int32
  UpdateSequence :: "string list"

text \<open>The data of \<open>metav1.LabelSelector\<close>; its meaning is a parameter (\<open>LabelSelectorAsSelector\<close>).\<close>

record LabelSelectorRequirement =
  req_key :: string
  req_operator :: string
  req_values :: "string list"

record LabelSelector =
  MatchLabels :: labels
  MatchExpressions :: "LabelSelectorRequirement list"

record TopologySchedulingPolicySpec =
  TopologyKey :: string
  ScheduleStrategy :: string
  DeployPlacement :: "SchedulePolicy list"
  UpdatePlacement :: "UpdatePolicy list"
  spec_LabelSelector :: "LabelSelector option"

record TopologySchedulingPolicyStatus =
  Placement :: "SchedulePolicy list"

record TopologySchedulingPolicy =
  tsp_Name :: string
  tsp_Namespace :: string
  tsp_Labels :: labels
  Spec :: TopologySchedulingPolicySpec
  tsp_Status :: TopologySchedulingPolicyStatus

definition ScheduleStrategyFill :: string where
  "ScheduleStrategyFill = ''Fill''"

definition ScheduleStrategyBalance :: string where
  "ScheduleStrategyBalance = ''Balance''"

text \<open>\<open>UnsatisfiableConstraintAction\<close>, a named string type, and its two values.\<close>

type_synonym UnsatisfiableConstraintAction = string

definition DoNotSchedule :: UnsatisfiableConstraintAction where
  "DoNotSchedule = ''DoNotSchedule''"

definition ScheduleAnyway :: UnsatisfiableConstraintAction where
  "ScheduleAnyway = ''ScheduleAnyway''"

lemma strategies_distinct [simp]:
  "ScheduleStrategyFill \<noteq> ScheduleStrategyBalance" "ScheduleStrategyBalance \<noteq> ScheduleStrategyFill"
  by (simp_all add: ScheduleStrategyFill_def ScheduleStrategyBalance_def)

section \<open>Internal constraint\<close>

text \<open>
  \<open>labels.Selector\<close> is an interface of which the program calls one method, \<open>Matches\<close>; a
  selector is therefore its \<open>Matches\<close> function.
\<close>

type_synonym selector = "labels \<Rightarrow> bool"

record TopologySchedulingConstraint =
  c_TopologyKey :: string
  SchedulePolicyMap :: "(string, int32) gomap"
  Selector :: selector

record TopologyPair =
  Key :: string
  Value :: string

section \<open>Pods and nodes\<close>

datatype PodPhase = PodPending | PodRunning | PodSucceeded | PodFailed | PodUnknown

text \<open>Scheduling constraints that the program copies but never looks into.\<close>

datatype affinity = Affinity string

datatype toleration = Toleration string

record pod =
  pod_Name :: string
  pod_Namespace :: string
  pod_Labels :: labels
  Annotations :: labels
  DeletionTimestamp :: "nat option"
  NodeName :: string
  NodeSelector :: labels
  pod_Affinity :: "affinity option"
  Tolerations :: "toleration list"
  Phase :: PodPhase

record node =
  node_Name :: string
  node_Labels :: labels

text \<open>
  A \<open>NodeInfo\<close> of the scheduler's snapshot. \<open>NodeInfo.Node()\<close> may return nil; an entry of
  \<open>NodeInfo.Pods\<close> may be a nil \<open>PodInfo\<close> pointer, as the code checks.
\<close>

record node_info =
  Node :: "node option"
  Pods :: "pod option list"

section \<open>Framework status\<close>

datatype status_code = Success | Error | Unschedulable | UnschedulableAndUnresolvable

text \<open>The two constructors of \<open>*framework.Status\<close>; a nil status is \<open>None\<close>.\<close>

datatype status = NewStatus status_code string | AsStatus go_error

text \<open>
  Documented meaning of a status: nil and code \<open>Success\<close> let the scheduler go on, everything
  else stops it.
\<close>

fun is_success :: "status option \<Rightarrow> bool" where
  "is_success None = True"
| "is_success (Some (NewStatus c m)) = (c = Success)"
| "is_success (Some (AsStatus e)) = False"

end
