(* ===== verification/Util.thy ===== *)
theory Util
  imports Api_Types
begin

text \<open>
  The helpers of \<open>pkg/util\<close>: label keys, \<open>CovertPolicy\<close>, the virtual-node tests and
  \<open>ConvertAnnotations\<close>. \<open>json.Unmarshal\<close> into a \<open>ClustersNodeSelection\<close> is a parameter.
\<close>

section \<open>Constants\<close>

definition TopologySchedulingLabelKey :: string where
  "TopologySchedulingLabelKey = ''topology-scheduling-policy.scheduling.sigs.k8s.io''"

definition NodeType :: string where "NodeType = ''type''"
definition VirtualPodLabel :: string where "VirtualPodLabel = ''virtual-pod''"
definition VirtualKubeletLabel :: string where "VirtualKubeletLabel = ''virtual-kubelet''"
definition TrippedLabels :: string where "TrippedLabels = ''tripped-labels''"
definition ClusterID :: string where "ClusterID = ''clusterID''"
definition SelectorKey :: string where "SelectorKey = ''clusterSelector''"

text \<open>The error values of \<open>constants.go\<close>.\<close>

definition ErrorNotMatched :: go_error where "ErrorNotMatched = Errorf ''not match coscheduling''"
definition ErrorWaiting :: go_error where "ErrorWaiting = Errorf ''waiting''"
definition ErrorResourceNotEnough :: go_error where "ErrorResourceNotEnough = Errorf ''resource not enough''"

section \<open>CovertPolicy\<close>

definition CovertPolicy :: "SchedulePolicy list \<Rightarrow> (string, int32) gomap" where
  "CovertPolicy dp = fold (\<lambda>p policy. ginsert (Name p) (Replicas p) policy) dp gomake"

lemma CovertPolicy_ok [simp]: "gmap_ok (CovertPolicy dp)"
  by (simp add: CovertPolicy_def)

lemma CovertPolicy_lookup:
  "glookup (CovertPolicy dp) = map_of (rev (map (\<lambda>p. (Name p, Replicas p)) dp))"
  unfolding CovertPolicy_def by (rule gm.fold_insert_empty)

text \<open>When the names are distinct the order of the placements is irrelevant.\<close>

lemma CovertPolicy_distinct:
  "distinct (map Name dp) \<Longrightarrow>
     glookup (CovertPolicy dp) v = Some r \<longleftrightarrow> (\<exists>p \<in> set dp. Name p = v \<and> Replicas p = r)"
  unfolding CovertPolicy_def by (rule gm.fold_insert_distinct)

lemma dom_CovertPolicy: "dom (glookup (CovertPolicy dp)) = Name ` set dp"
  unfolding CovertPolicy_def by (rule gm.dom_fold_insert)

lemma CovertPolicy_range: "glookup (CovertPolicy dp) v = Some r \<Longrightarrow> r \<in> Replicas ` set dp"
  by (auto simp: CovertPolicy_lookup dest!: map_of_SomeD)

section \<open>Virtual nodes and pods\<close>

definition IsVirtualNode :: "node option \<Rightarrow> bool" where
  "IsVirtualNode nd = (case nd of
     None \<Rightarrow> False
   | Some n \<Rightarrow> (case mget (node_Labels n) NodeType of
       None \<Rightarrow> False
     | Some valStr \<Rightarrow> valStr = VirtualKubeletLabel))"

definition IsVirtualPod :: "pod \<Rightarrow> bool" where
  "IsVirtualPod p = (if pod_Labels p \<noteq> None \<and> mget_zero (pod_Labels p) VirtualPodLabel = ''true''
     then True else False)"

definition GetClusterID :: "node option \<Rightarrow> string" where
  "GetClusterID nd = (case nd of
     None \<Rightarrow> ''''
   | Some n \<Rightarrow> (case mget (node_Labels n) ClusterID of
       None \<Rightarrow> ''''
     | Some clusterName \<Rightarrow> clusterName))"

record ClustersNodeSelection =
  cns_NodeSelector :: labels
  cns_Affinity :: "affinity option"
  cns_Tolerations :: "toleration list"

definition ConvertAnnotations ::
    "(string \<Rightarrow> go_error + ClustersNodeSelection) \<Rightarrow> labels \<Rightarrow> ClustersNodeSelection option" where
  "ConvertAnnotations unmarshal annotation = (case annotation of
     None \<Rightarrow> None
   | Some _ \<Rightarrow>
       (let val = mget_zero annotation SelectorKey in
        if length val = 0 then None
        else (case unmarshal val of Inl err \<Rightarrow> None | Inr cns \<Rightarrow> Some cns)))"

lemma ConvertAnnotations_Some_iff:
  "ConvertAnnotations unmarshal a = Some cns \<longleftrightarrow>
     (\<exists>val. mget a SelectorKey = Some val \<and> val \<noteq> '''' \<and> unmarshal val = Inr cns)"
  by (auto simp: ConvertAnnotations_def mget_def mget_zero_def Let_def
      split: option.splits sum.splits)

end
