(* ===== verification/PreFilter_State.thy ===== *)
theory PreFilter_State
  imports Util
begin

text \<open>
  The scheduling-cycle state of the TopologyScheduling plugin (\<open>PreFilterState\<close> in
  \<open>pkg/topologyscheduling/topology_scheduling.go\<close>): the constraint taken from the policy and
  one pointer to an \<open>int32\<close> counter per topology pair, with \<open>updateWithPod\<close> and \<open>Clone\<close>.

  The counters live in the \<open>heap\<close>, the state holds their addresses. \<open>counts\<close> reads the state
  as the map from pairs to numbers that it stands for; \<open>state_ok\<close> says that the map has
  distinct keys and every pair a live counter of its own.
\<close>

section \<open>State and operations\<close>

record PreFilterState =
  Constraint :: TopologySchedulingConstraint
  TpPairToMatchNum :: "(TopologyPair, addr) gomap"
  st_ScheduleStrategy :: string

abbreviation topo_pair :: "string \<Rightarrow> string \<Rightarrow> TopologyPair" where
  "topo_pair k v \<equiv> \<lparr>Key = k, Value = v\<rparr>"

text \<open>The receiver is a pointer that may be nil, and so is the node.\<close>

definition updateWithPod ::
    "PreFilterState option \<Rightarrow> pod \<Rightarrow> pod \<Rightarrow> node option \<Rightarrow> int32 \<Rightarrow> heap \<Rightarrow> heap go" where
  "updateWithPod s updatedPod preemptorPod nd delta h = (case s of
     None \<Rightarrow> Ret h
   | Some st \<Rightarrow>
       if pod_Namespace updatedPod \<noteq> pod_Namespace preemptorPod then Ret h
       else (case nd of
         None \<Rightarrow> Ret h
       | Some n \<Rightarrow>
           (case mget (node_Labels n) (c_TopologyKey (Constraint st)) of
              None \<Rightarrow> Ret h
            | Some _ \<Rightarrow>
                if \<not> Selector (Constraint st) (pod_Labels updatedPod) then Ret h
                else
                  (let k = c_TopologyKey (Constraint st);
                       v = mget_zero (node_Labels n) (c_TopologyKey (Constraint st));
                       pair = topo_pair k v
                   in (case glookup (TpPairToMatchNum st) pair of
                         None \<Rightarrow> Panic NilDeref
                       | Some a \<Rightarrow> Ret (add_int32 a delta h))))))"

fun clone_counts ::
    "(TopologyPair, addr) gomap \<Rightarrow> (TopologyPair, addr) gomap \<Rightarrow> heap
       \<Rightarrow> (TopologyPair, addr) gomap \<times> heap" where
  "clone_counts [] m h = (m, h)"
| "clone_counts ((tpPair, matchNum) # rest) m h =
     (let copyPair = topo_pair (Key tpPair) (Value tpPair);
          (copyCount, h') = new_int32 (load h matchNum) h
      in clone_counts rest (ginsert copyPair copyCount m) h')"

definition Clone :: "PreFilterState option \<Rightarrow> heap \<Rightarrow> PreFilterState option \<times> heap" where
  "Clone s h = (case s of
     None \<Rightarrow> (None, h)
   | Some st \<Rightarrow>
       (let (m, h') = clone_counts (TpPairToMatchNum st) gomake h
        in (Some \<lparr>Constraint = Constraint st, TpPairToMatchNum = m,
                  st_ScheduleStrategy = st_ScheduleStrategy st\<rparr>, h')))"

section \<open>Abstraction and invariant\<close>

definition counts :: "heap \<Rightarrow> PreFilterState \<Rightarrow> TopologyPair \<Rightarrow> int32 option" where
  "counts h st p = map_option (load h) (glookup (TpPairToMatchNum st) p)"

definition counters :: "PreFilterState \<Rightarrow> addr set" where
  "counters st = snd ` set (TpPairToMatchNum st)"

definition own_counters :: "(TopologyPair, addr) gomap \<Rightarrow> bool" where
  "own_counters m \<longleftrightarrow> gmap_ok m \<and> distinct (map snd m)"

definition state_ok :: "heap \<Rightarrow> PreFilterState \<Rightarrow> bool" where
  "state_ok h st \<longleftrightarrow> heap_ok h \<and> own_counters (TpPairToMatchNum st) \<and> counters st \<subseteq> dom (cells h)"

lemma dom_counts [simp]: "dom (counts h st) = dom (glookup (TpPairToMatchNum st))"
  by (auto simp: counts_def dom_def)

lemma counter_in: "glookup (TpPairToMatchNum st) p = Some a \<Longrightarrow> a \<in> counters st"
  unfolding counters_def by (force dest: glookup_mem)

lemma own_counters_inj:
  assumes "own_counters m" "glookup m p = Some a" "glookup m q = Some a"
  shows "p = q"
proof -
  have "(p, a) \<in> set m" "(q, a) \<in> set m" using assms(2,3) by (simp_all add: glookup_mem)
  moreover have "inj_on snd (set m)" using assms(1) by (simp add: own_counters_def distinct_map)
  ultimately have "(p, a) = (q, a)" by (metis inj_onD snd_conv)
  then show ?thesis by simp
qed

lemma counts_add:
  assumes "own_counters (TpPairToMatchNum st)" "glookup (TpPairToMatchNum st) p = Some a"
  shows "counts (add_int32 a d h) st = (counts h st)(p \<mapsto> load h a + d)"
proof (rule ext)
  fix q
  show "counts (add_int32 a d h) st q = ((counts h st)(p \<mapsto> load h a + d)) q"
    by (cases "glookup (TpPairToMatchNum st) q")
       (auto simp: counts_def assms(2) dest: own_counters_inj [OF assms])
qed

lemma counts_frame: "a \<notin> counters st \<Longrightarrow> counts (add_int32 a d h) st = counts h st"
  by (auto simp: counts_def fun_eq_iff map_option_case split: option.split dest: counter_in)

lemma state_ok_add: "state_ok h st \<Longrightarrow> a \<in> dom (cells h) \<Longrightarrow> state_ok (add_int32 a d h) st"
  by (auto simp: state_ok_def intro: heap_ok_add)

section \<open>updateWithPod\<close>

text \<open>
  The pods that \<open>updateWithPod\<close> takes account of, and the topology pair it charges them to.
\<close>

definition relevant :: "PreFilterState \<Rightarrow> pod \<Rightarrow> pod \<Rightarrow> node option \<Rightarrow> TopologyPair option" where
  "relevant st updatedPod preemptorPod nd = (case nd of
     None \<Rightarrow> None
   | Some n \<Rightarrow> (case mget (node_Labels n) (c_TopologyKey (Constraint st)) of
       None \<Rightarrow> None
     | Some v \<Rightarrow>
         if pod_Namespace updatedPod = pod_Namespace preemptorPod
            \<and> Selector (Constraint st) (pod_Labels updatedPod)
         then Some (topo_pair (c_TopologyKey (Constraint st)) v) else None))"

lemma updateWithPod_nil [simp]: "updateWithPod None u p nd d h = Ret h"
  by (simp add: updateWithPod_def)

lemma updateWithPod_cases:
  "updateWithPod (Some st) u p nd d h = (case relevant st u p nd of
     None \<Rightarrow> Ret h
   | Some pair \<Rightarrow> (case glookup (TpPairToMatchNum st) pair of
       None \<Rightarrow> Panic NilDeref
     | Some a \<Rightarrow> Ret (add_int32 a d h)))"
  by (auto simp: updateWithPod_def relevant_def Let_def split: option.splits)

text \<open>The specification on the abstract counts.\<close>

definition bump :: "TopologyPair option \<Rightarrow> int32 \<Rightarrow> (TopologyPair \<rightharpoonup> int32) \<Rightarrow> (TopologyPair \<rightharpoonup> int32)" where
  "bump pr d c = (case pr of None \<Rightarrow> c
     | Some p \<Rightarrow> (case c p of None \<Rightarrow> c | Some n \<Rightarrow> c(p \<mapsto> n + d)))"

lemma bump_inverse: "bump pr (- d) (bump pr d c) = c"
  by (auto simp: bump_def fun_eq_iff split: option.splits)

lemma bump_commute: "bump pr d (bump qr e c) = bump qr e (bump pr d c)"
  by (auto simp: bump_def fun_eq_iff algebra_simps split: option.splits)

lemma updateWithPod_refines:
  assumes "state_ok h st" "updateWithPod (Some st) u p nd d h = Ret h'"
  shows "counts h' st = bump (relevant st u p nd) d (counts h st)" "state_ok h' st"
proof -
  have own: "own_counters (TpPairToMatchNum st)" using assms(1) by (simp add: state_ok_def)
  show "counts h' st = bump (relevant st u p nd) d (counts h st)"
    using assms(2) counts_add [OF own]
    by (auto simp: updateWithPod_cases bump_def counts_def split: option.splits)
  show "state_ok h' st"
    using assms counter_in [of st]
    by (auto simp: updateWithPod_cases state_ok_def split: option.splits
        intro!: heap_ok_add)
qed

lemma updateWithPod_panic_iff:
  "updateWithPod (Some st) u p nd d h = Panic e \<longleftrightarrow>
     e = NilDeref \<and> (\<exists>pair. relevant st u p nd = Some pair \<and> pair \<notin> dom (counts h st))"
  by (auto simp: updateWithPod_cases split: option.splits)

lemma updateWithPod_frame:
  assumes "updateWithPod (Some st) u p nd d h = Ret h'" "b \<notin> counters st"
  shows "load h' b = load h b" "(b \<in> dom (cells h')) = (b \<in> dom (cells h))"
  using assms
  by (auto simp: updateWithPod_cases split: option.splits if_splits dest: counter_in)

section \<open>Clone\<close>

lemma topo_pair_eta [simp]: "topo_pair (Key p) (Value p) = p"
  by (cases p) simp

text \<open>One copied counter: a new cell with the value of the old one.\<close>

lemma own_counters_insert:
  assumes "own_counters m" "p \<notin> dom (glookup m)" "b \<notin> snd ` set m"
  shows "own_counters (ginsert p b m)"
  using assms by (auto simp: own_counters_def gmap_ok_def ginsert_new glookup_def
      dom_map_of_conv_image_fst)

definition clone_inv :: "heap \<Rightarrow> heap \<Rightarrow> (TopologyPair, addr) gomap \<Rightarrow> bool" where
  "clone_inv h0 h m \<longleftrightarrow> heap_ok h \<and> own_counters m \<and> next_addr h0 \<le> next_addr h
     \<and> snd ` set m \<subseteq> dom (cells h) \<and> snd ` set m \<subseteq> {next_addr h0..}
     \<and> dom (cells h0) \<subseteq> dom (cells h) \<and> (\<forall>b \<in> dom (cells h0). load h b = load h0 b)"

lemma clone_inv_step:
  assumes inv: "clone_inv h0 h m" and new: "new_int32 v h = (b, h')" and p: "p \<notin> dom (glookup m)"
    and ok: "heap_ok h0"
  shows "clone_inv h0 h' (ginsert p b m)"
    and "map_option (load h') (glookup (ginsert p b m) q)
      = (if q = p then Some v else map_option (load h) (glookup m q))"
proof -
  have b: "b = next_addr h" "next_addr h' = Suc b" "cells h' = (cells h)(b \<mapsto> v)"
    using new_int32_props [OF new] by simp_all
  have ld: "load h' c = (if c = b then v else load h c)" for c
    using new_int32_props(4) [OF new] by simp
  have hok: "heap_ok h" using inv by (simp add: clone_inv_def)
  have fresh: "b \<notin> snd ` set m"
  proof
    assume "b \<in> snd ` set m"
    then have "b \<in> dom (cells h)" using inv by (auto simp: clone_inv_def)
    then show False using heap_ok_fresh [OF hok] b(1) by blast
  qed
  have old: "b \<notin> dom (cells h0)"
    using heap_ok_fresh [OF ok] inv b(1) by (force simp: clone_inv_def)
  have set_ins: "set (ginsert p b m) = insert (p, b) (set m)"
    using p by (simp add: ginsert_new)
  have own: "own_counters (ginsert p b m)"
    using inv p fresh by (simp add: clone_inv_def own_counters_insert)
  have le: "next_addr h0 \<le> b" using inv b(1) by (simp add: clone_inv_def)
  show "clone_inv h0 h' (ginsert p b m)"
    using inv own le old heap_ok_new [OF hok new] b(2,3) ld
    by (auto simp: clone_inv_def set_ins)
  show "map_option (load h') (glookup (ginsert p b m) q)
      = (if q = p then Some v else map_option (load h) (glookup m q))"
    using fresh by (force simp: ld map_option_case split: option.split dest!: glookup_mem)
qed

lemma clone_counts_inv:
  assumes "clone_counts xs m h = (m', h')" "clone_inv h0 h m" "heap_ok h0"
    and "distinct (map fst xs)" "fst ` set xs \<inter> dom (glookup m) = {}"
    and "snd ` set xs \<subseteq> dom (cells h0)"
  shows "clone_inv h0 h' m' \<and> map_option (load h') (glookup m' q)
      = (case map_of xs q of Some a \<Rightarrow> Some (load h0 a) | None \<Rightarrow> map_option (load h) (glookup m q))"
  using assms
proof (induction xs arbitrary: m h)
  case Nil
  then show ?case by simp
next
  case (Cons x xs)
  obtain p a where x: "x = (p, a)" by (cases x)
  obtain b h1 where new: "new_int32 (load h a) h = (b, h1)" by (cases "new_int32 (load h a) h")
  have p: "p \<notin> dom (glookup m)" using Cons.prems(5) x by auto
  have a: "load h a = load h0 a" using Cons.prems(2,6) x by (auto simp: clone_inv_def)
  have rec: "clone_counts xs (ginsert p b m) h1 = (m', h')"
    using Cons.prems(1) by (simp add: x new)
  note step = clone_inv_step [OF Cons.prems(2) new p Cons.prems(3)]
  have "clone_inv h0 h' m' \<and> map_option (load h') (glookup m' q)
      = (case map_of xs q of Some a \<Rightarrow> Some (load h0 a)
         | None \<Rightarrow> map_option (load h1) (glookup (ginsert p b m) q))"
  proof (rule Cons.IH [OF rec step(1) Cons.prems(3)])
    show "fst ` set xs \<inter> dom (glookup (ginsert p b m)) = {}"
      using Cons.prems(4,5) x by (simp add: glookup_insert)
  qed (use Cons.prems(4,6) x in auto)
  moreover have "map_of xs p = None"
    using Cons.prems(4) x by (simp add: map_of_eq_None_iff)
  ultimately show ?case
    using a by (auto simp: x step(2) simp del: glookup_insert_apply split: option.split)
qed

lemma Clone_nil [simp]: "Clone None h = (None, h)"
  by (simp add: Clone_def)

lemma Clone_Some:
  assumes "state_ok h st" "Clone (Some st) h = (s', h')"
  obtains st' where "s' = Some st'" "state_ok h' st'" "state_ok h' st"
    "counts h' st' = counts h st" "counts h' st = counts h st"
    "counters st \<inter> counters st' = {}"
    "Constraint st' = Constraint st" "st_ScheduleStrategy st' = st_ScheduleStrategy st"
    "\<And>b. b \<in> dom (cells h) \<Longrightarrow> load h' b = load h b"
proof -
  obtain m' where cl: "clone_counts (TpPairToMatchNum st) gomake h = (m', h')"
    and s': "s' = Some \<lparr>Constraint = Constraint st, TpPairToMatchNum = m',
      st_ScheduleStrategy = st_ScheduleStrategy st\<rparr>"
    using assms(2) by (auto simp: Clone_def split: prod.splits)
  have pre: "heap_ok h" "distinct (map fst (TpPairToMatchNum st))"
    "snd ` set (TpPairToMatchNum st) \<subseteq> dom (cells h)"
    using assms(1) by (auto simp: state_ok_def own_counters_def gmap_ok_def counters_def)
  have "clone_inv h h gomake" using pre(1) by (simp add: clone_inv_def own_counters_def)
  then have post: "clone_inv h h' m'"
    "\<And>q. map_option (load h') (glookup m' q)
      = (case map_of (TpPairToMatchNum st) q of Some a \<Rightarrow> Some (load h a) | None \<Rightarrow> None)"
    using clone_counts_inv [OF cl _ pre(1) pre(2) _ pre(3)]
    by (simp_all only: gm.lookup_empty dom_glookup_make Int_empty_right option.map)
  have keep: "load h' b = load h b" if "b \<in> dom (cells h)" for b
    using post(1) that by (simp add: clone_inv_def)
  have disj: "a < next_addr h" if "a \<in> counters st" for a
    using pre(1,3) that heap_ok_fresh by (auto simp: counters_def)
  let ?st' = "\<lparr>Constraint = Constraint st, TpPairToMatchNum = m',
      st_ScheduleStrategy = st_ScheduleStrategy st\<rparr>"
  show ?thesis
  proof
    show "state_ok h' ?st'" using post(1) by (simp add: state_ok_def clone_inv_def counters_def)
    show "state_ok h' st"
    proof -
      have "heap_ok h'" "dom (cells h) \<subseteq> dom (cells h')"
        using post(1) by (simp_all add: clone_inv_def)
      with assms(1) show ?thesis
        by (simp add: state_ok_def subset_trans [of "counters st" "dom (cells h)"])
    qed
    show "counts h' ?st' = counts h st"
      using post(2) by (auto simp: counts_def fun_eq_iff glookup_def split: option.split)
    show "counts h' st = counts h st"
    proof -
      have "load h' a = load h a" if "glookup (TpPairToMatchNum st) q = Some a" for q a
        using keep pre(3) counter_in [OF that] unfolding counters_def by blast
      then show ?thesis by (auto simp: counts_def fun_eq_iff map_option_case split: option.split)
    qed
    show "counters st \<inter> counters ?st' = {}"
      using post(1) disj by (force simp: clone_inv_def counters_def)
  qed (use s' keep in auto)
qed

end
