(* ===== verification/Policy_Lister.thy ===== *)
theory Policy_Lister
  imports Util
begin

text \<open>
  The generated lister \<open>pkg/generated/listers/scheduling/v1alpha1/topologyschedulingpolicy.go\<close>
  over the informer's indexer. The indexer (\<open>cache.Indexer\<close>) and the two iteration helpers
  \<open>cache.ListAll\<close> and \<open>cache.ListAllByNamespace\<close> belong to client-go: they are fields of the
  record \<open>indexer\<close>. \<open>GetByKey\<close> yields an error or \<open>None\<close> for \<open>exists = false\<close>; the
  iterations yield the objects handed to the callback and the error they end with.
\<close>

record indexer =
  GetByKey :: "string \<Rightarrow> go_error + TopologySchedulingPolicy option"
  ListAll :: "selector \<Rightarrow> TopologySchedulingPolicy list \<times> go_error option"
  ListAllByNamespace :: "string \<Rightarrow> selector \<Rightarrow> TopologySchedulingPolicy list \<times> go_error option"

record NamespaceLister =
  nl_indexer :: indexer
  nl_namespace :: string

text \<open>\<open>NamespaceAll\<close> is the empty string, \<open>labels.Everything()\<close> matches every label set.\<close>

definition NamespaceAll :: string where "NamespaceAll = ''''"

definition Everything :: selector where "Everything = (\<lambda>_. True)"

definition lister_List ::
    "indexer \<Rightarrow> selector \<Rightarrow> TopologySchedulingPolicy list \<times> go_error option" where
  "lister_List idx sel =
     (let (visited, err) = ListAll idx sel in (fold (\<lambda>m ret. ret @ [m]) visited [], err))"

definition TopologySchedulingPolicies :: "indexer \<Rightarrow> string \<Rightarrow> NamespaceLister" where
  "TopologySchedulingPolicies idx ns = \<lparr>nl_indexer = idx, nl_namespace = ns\<rparr>"

definition ns_List ::
    "NamespaceLister \<Rightarrow> selector \<Rightarrow> TopologySchedulingPolicy list \<times> go_error option" where
  "ns_List s sel =
     (let (visited, err) = ListAllByNamespace (nl_indexer s) (nl_namespace s) sel
      in (fold (\<lambda>m ret. ret @ [m]) visited [], err))"

definition ns_Get :: "NamespaceLister \<Rightarrow> string \<Rightarrow> go_error + TopologySchedulingPolicy" where
  "ns_Get s name = (case GetByKey (nl_indexer s) (nl_namespace s @ ''/'' @ name) of
     Inl err \<Rightarrow> Inl err
   | Inr None \<Rightarrow> Inl (NotFound ''topologyschedulingpolicy'' name)
   | Inr (Some obj) \<Rightarrow> Inr obj)"

abbreviation get_policy :: "indexer \<Rightarrow> string \<Rightarrow> string \<Rightarrow> go_error + TopologySchedulingPolicy" where
  "get_policy idx ns name \<equiv> ns_Get (TopologySchedulingPolicies idx ns) name"

lemma fold_append_list [simp]: "fold (\<lambda>m ret. ret @ [m]) xs acc = acc @ xs"
  by (induction xs arbitrary: acc) simp_all

lemma lister_List_eq [simp]: "lister_List idx sel = ListAll idx sel"
  by (simp add: lister_List_def split: prod.split)

lemma ns_List_eq [simp]:
  "ns_List (TopologySchedulingPolicies idx ns) sel = ListAllByNamespace idx ns sel"
  by (simp add: ns_List_def TopologySchedulingPolicies_def split: prod.split)

lemma get_policy_Inr_iff:
  "get_policy idx ns name = Inr p \<longleftrightarrow> GetByKey idx (ns @ ''/'' @ name) = Inr (Some p)"
  by (auto simp: ns_Get_def TopologySchedulingPolicies_def split: sum.splits option.splits)

text \<open>
  The documented contract of the informer's indexer with the key function
  \<open>MetaNamespaceKeyFunc\<close>: an object is filed under its namespace and its name.
\<close>

definition indexer_keyed :: "indexer \<Rightarrow> bool" where
  "indexer_keyed idx \<longleftrightarrow> (\<forall>key p. GetByKey idx key = Inr (Some p)
     \<longrightarrow> key = tsp_Namespace p @ ''/'' @ tsp_Name p)"

text \<open>A namespace name never contains a slash, so a key determines both parts.\<close>

lemma split_at_slash:
  assumes "CHR ''/'' \<notin> set a" "CHR ''/'' \<notin> set b" "a @ ''/'' @ x = b @ ''/'' @ y"
  shows "a = b \<and> x = y"
  using assms
proof (induction a arbitrary: b)
  case Nil
  then show ?case by (cases b) auto
next
  case (Cons c a)
  then show ?case by (cases b) auto
qed

lemma get_policy_identity:
  assumes "indexer_keyed idx" "get_policy idx ns name = Inr p"
    and "CHR ''/'' \<notin> set ns" "CHR ''/'' \<notin> set (tsp_Namespace p)"
  shows "tsp_Namespace p = ns \<and> tsp_Name p = name"
proof -
  have "ns @ ''/'' @ name = tsp_Namespace p @ ''/'' @ tsp_Name p"
    using assms(1,2) unfolding indexer_keyed_def get_policy_Inr_iff by blast
  then show ?thesis using split_at_slash assms(3,4) by blast
qed

end
