(* ===== verification/Float64.thy ===== *)
theory Float64
  imports Complex_Main Prelude "HOL-Library.Log_Nat"
begin

text \<open>
  Go's \<open>float64\<close> (IEEE binary64, round to nearest, ties to even) as an executable model
  over the rationals: a finite value is the rational it denotes. Subnormal spacing
  (exponent \<open>- 1074\<close>) and overflow to infinity at \<open>2 ^ 1024\<close> are part of the rounding, so
  the operations are total as the hardware's are. The two zeros are one value here: no
  operation of the program tells them apart.

  The lemmas are those a client needs instead of the definition: rounding is monotone,
  exact on small integers, and off by at most one part in \<open>2 ^ 53\<close> in the normal range.
\<close>

section \<open>Rounding\<close>

definition ilog2 :: "rat \<Rightarrow> int" where
  "ilog2 x = (if 1 \<le> x then int (floorlog 2 (nat \<lfloor>x\<rfloor>)) - 1
              else - int (floorlog 2 (nat (\<lceil>1 / x\<rceil> - 1))))"

definition ulp :: "rat \<Rightarrow> rat" where
  "ulp x = 2 powi (max (ilog2 \<bar>x\<bar> - 52) (- 1074))"

definition rne :: "rat \<Rightarrow> int" where
  "rne x = (let f = \<lfloor>x\<rfloor>; d = x - of_int f in
     if d < 1 / 2 then f else if 1 / 2 < d then f + 1 else if even f then f else f + 1)"

definition f64_round :: "rat \<Rightarrow> rat" where
  "f64_round x = (if x = 0 then 0 else of_int (rne (x / ulp x)) * ulp x)"

lemma nat_floorlog_bounds:
  assumes "0 < n"
  shows "2 ^ (floorlog 2 n - 1) \<le> n" "n < 2 ^ floorlog 2 n"
  using floorlog_bounds [of n 2] assms by simp_all

lemma ilog2_bounds:
  assumes "0 < x"
  shows "2 powi (ilog2 x) \<le> x" "x < 2 powi (ilog2 x + 1)"
proof -
  have "2 powi (ilog2 x) \<le> x \<and> x < 2 powi (ilog2 x + 1)"
  proof (cases "1 \<le> x")
    case True
    define n where "n = nat \<lfloor>x\<rfloor>"
    define k where "k = floorlog 2 n"
    from True have n: "0 < n" "of_nat n \<le> x" "x < of_nat n + 1"
      by (simp_all add: n_def) linarith
    have k: "2 ^ (k - 1) \<le> n" "n < 2 ^ k"
      using nat_floorlog_bounds [OF n(1)] by (simp_all add: k_def)
    have "0 < k" using k(2) n(1) by (cases k) auto
    have il: "ilog2 x = int k - 1" using True by (simp add: ilog2_def n_def k_def)
    have "(2::rat) powi (int k - 1) = 2 ^ (k - 1)"
      using \<open>0 < k\<close> by (simp flip: power_int_of_nat add: of_nat_diff)
    moreover have "(2::rat) ^ (k - 1) \<le> of_nat n"
      using k(1) by (metis of_nat_le_iff of_nat_numeral of_nat_power)
    moreover have "of_nat n + 1 \<le> (2::rat) ^ k"
      using k(2) by (metis Suc_leI of_nat_Suc of_nat_le_iff of_nat_numeral of_nat_power add.commute)
    ultimately have "2 powi (int k - 1) \<le> x" "x < 2 ^ k" using n by linarith+
    then show ?thesis by (simp add: il)
  next
    case False
    define n where "n = nat (\<lceil>1 / x\<rceil> - 1)"
    define k where "k = floorlog 2 n"
    have "1 < 1 / x" using False assms by simp
    then have n: "0 < n" "of_nat n < 1 / x" "1 / x \<le> of_nat n + 1"
      by (simp_all add: n_def) linarith+
    have k: "2 ^ (k - 1) \<le> n" "n < 2 ^ k"
      using nat_floorlog_bounds [OF n(1)] by (simp_all add: k_def)
    have "0 < k" using k(2) n(1) by (cases k) auto
    have il: "ilog2 x = - int k" using False by (simp add: ilog2_def n_def k_def)
    have "of_nat n + 1 \<le> (2::rat) ^ k"
      using k(2) by (metis Suc_leI of_nat_Suc of_nat_le_iff of_nat_numeral of_nat_power add.commute)
    with n(3) have "1 / x \<le> 2 ^ k" by linarith
    then have lo: "1 / 2 ^ k \<le> x" using assms by (simp add: field_simps)
    have "(2::rat) ^ (k - 1) \<le> of_nat n"
      using k(1) by (metis of_nat_le_iff of_nat_numeral of_nat_power)
    with n(2) have "2 ^ (k - 1) < 1 / x" by linarith
    then have hi: "x < 1 / 2 ^ (k - 1)" using assms by (simp add: field_simps)
    have a: "(2::rat) powi (- int k) = 1 / 2 ^ k" by (simp add: power_int_minus divide_inverse)
    have e: "- int k + 1 = - int (k - 1)" using \<open>0 < k\<close> by simp
    have b: "(2::rat) powi (- int k + 1) = 1 / 2 ^ (k - 1)"
      unfolding e by (simp only: power_int_minus power_int_of_nat divide_inverse mult_1)
    show ?thesis unfolding il a b using lo hi by (rule conjI)
  qed
  then show "2 powi (ilog2 x) \<le> x" "x < 2 powi (ilog2 x + 1)" by simp_all
qed

lemma powi2_le_iff [simp]: "(2::rat) powi a \<le> 2 powi b \<longleftrightarrow> a \<le> b"
  by (metis linorder_not_le one_less_numeral_iff order.strict_iff_not power_int_increasing
      power_int_strict_increasing semiring_norm(76) less_imp_le)

lemma powi2_less_iff [simp]: "(2::rat) powi a < 2 powi b \<longleftrightarrow> a < b"
  by (simp flip: linorder_not_le)

lemma ilog2_mono: "0 < x \<Longrightarrow> x \<le> y \<Longrightarrow> ilog2 x \<le> ilog2 y"
proof -
  assume "0 < x" "x \<le> y"
  then have "(2::rat) powi (ilog2 x) < 2 powi (ilog2 y + 1)"
    using ilog2_bounds(1) [of x] ilog2_bounds(2) [of y] by linarith
  then show ?thesis by simp
qed

lemma ilog2_unique:
  assumes "0 < x" "2 powi e \<le> x" "x < 2 powi (e + 1)"
  shows "ilog2 x = e"
proof -
  have "(2::rat) powi e < 2 powi (ilog2 x + 1)" "(2::rat) powi (ilog2 x) < 2 powi (e + 1)"
    using assms ilog2_bounds [of x] by linarith+
  then show ?thesis by simp
qed

lemma ulp_pos [simp]: "0 < ulp x"
  by (simp add: ulp_def)

lemma ulp_nonneg [simp]: "0 \<le> ulp x"
  by (rule less_imp_le [OF ulp_pos])

lemma ulp_neq_0 [simp]: "ulp x \<noteq> 0"
  using ulp_pos [of x] by linarith

lemma ulp_minus [simp]: "ulp (- x) = ulp x"
  by (simp add: ulp_def)

lemma ulp_mono: "0 < x \<Longrightarrow> x \<le> y \<Longrightarrow> ulp x \<le> ulp y"
  using ilog2_mono [of x y] by (simp add: ulp_def)

section \<open>Rounding to an integer\<close>

lemma rne_error: "\<bar>of_int (rne x) - x\<bar> \<le> 1 / 2"
proof -
  define d where "d = x - of_int \<lfloor>x\<rfloor>"
  have "0 \<le> d" "d < 1" "x = of_int \<lfloor>x\<rfloor> + d" unfolding d_def by linarith+
  then show ?thesis
    unfolding rne_def Let_def d_def [symmetric] by (auto simp: abs_if)
qed

lemma rne_of_int [simp]: "rne (of_int n) = n"
  by (simp add: rne_def)

lemma rne_mono: "x \<le> y \<Longrightarrow> rne x \<le> rne y"
proof -
  assume le: "x \<le> y"
  then have "\<lfloor>x\<rfloor> \<le> \<lfloor>y\<rfloor>" by (rule floor_mono)
  then consider "\<lfloor>x\<rfloor> = \<lfloor>y\<rfloor>" | "\<lfloor>x\<rfloor> + 1 \<le> \<lfloor>y\<rfloor>" by linarith
  then show ?thesis
    using le by cases (auto simp: rne_def Let_def)
qed

lemma rne_minus: "rne (- x) = - rne x"
proof (cases "x \<in> \<int>")
  case True
  then obtain n where "x = of_int n" by (auto elim: Ints_cases)
  then show ?thesis by (simp flip: of_int_minus)
next
  case False
  define f where "f = \<lfloor>x\<rfloor>"
  define d where "d = x - of_int f"
  have "x \<noteq> of_int f" using False by auto
  then have d: "0 < d" "d < 1" unfolding d_def f_def by linarith+
  have x: "x = of_int f + d" by (simp add: d_def)
  have fl: "\<lfloor>- x\<rfloor> = - f - 1" using d by (simp add: x) linarith
  have "- x - of_int (- f - 1) = 1 - d" by (simp add: x)
  then show ?thesis
    unfolding rne_def Let_def fl f_def [symmetric] d_def [symmetric]
    by (auto simp: fl)
qed

lemma rne_nonneg: "0 \<le> x \<Longrightarrow> 0 \<le> rne x"
  using rne_mono [of 0 x] rne_of_int [of 0] by simp

lemma rne_le: "x \<le> of_int n \<Longrightarrow> rne x \<le> n"
  using rne_mono [of x "of_int n"] by simp

lemma rne_ge: "of_int n \<le> x \<Longrightarrow> n \<le> rne x"
  using rne_mono [of "of_int n" x] by simp

section \<open>Rounding to a float64\<close>

lemma f64_round_0 [simp]: "f64_round 0 = 0"
  by (simp add: f64_round_def)

lemma f64_round_minus: "f64_round (- x) = - f64_round x"
  by (simp add: f64_round_def rne_minus)

lemma f64_round_nonneg: "0 \<le> x \<Longrightarrow> 0 \<le> f64_round x"
  using ulp_pos [of x] by (simp add: f64_round_def rne_nonneg less_imp_le)

lemma powi2_of_int: "0 \<le> k \<Longrightarrow> (2::rat) powi k = of_int (2 ^ nat k)"
  by (simp add: power_int_def)

lemma f64_round_exact:
  assumes "x / ulp x = of_int n"
  shows "f64_round x = x"
proof (cases "x = 0")
  case False
  have "of_int n * ulp x = x"
    using ulp_pos [of x] unfolding assms [symmetric] by (metis less_irrefl nonzero_eq_divide_eq)
  with False show ?thesis
    by (simp add: f64_round_def assms)
qed simp

lemma f64_round_mono_pos:
  assumes "0 < x" "x \<le> y"
  shows "f64_round x \<le> f64_round y"
proof (cases "ulp x = ulp y")
  case True
  have "rne (x / ulp y) \<le> rne (y / ulp y)"
    using assms ulp_pos [of y] by (intro rne_mono divide_right_mono) auto
  then show ?thesis
    using assms ulp_pos [of y] by (auto simp: f64_round_def True less_imp_le intro!: mult_right_mono)
next
  case False
  define a where "a = max (ilog2 x - 52) (- 1074)"
  define e where "e = ilog2 y"
  have u: "ulp x = 2 powi a" using assms by (simp add: ulp_def a_def)
  have "ulp x < ulp y" using False ulp_mono [OF assms] by simp
  then have ea: "a < e - 52" "ulp y = 2 powi (e - 52)" "ilog2 x + 1 \<le> e"
    using assms by (auto simp: u ulp_def e_def a_def max_def split: if_splits)
  have "(2::rat) powi (ilog2 x + 1) \<le> 2 powi e" using ea by simp
  then have xe: "x \<le> 2 powi e" using ilog2_bounds(2) [of x] assms by linarith
  have "x / ulp x \<le> 2 powi e / 2 powi a"
    unfolding u by (rule divide_right_mono [OF xe]) simp
  also have "\<dots> = of_int (2 ^ nat (e - a))"
    using ea by (subst powi2_of_int [symmetric]) (simp_all add: power_int_diff)
  finally have "of_int (rne (x / ulp x)) \<le> (of_int (2 ^ nat (e - a)) :: rat)"
    using rne_le by (simp only: of_int_le_iff)
  then have "f64_round x \<le> of_int (2 ^ nat (e - a)) * 2 powi a"
    using assms by (simp add: f64_round_def u)
  also have "\<dots> = 2 powi e"
    using ea by (subst powi2_of_int [symmetric]) (simp_all flip: power_int_add)
  finally have left: "f64_round x \<le> 2 powi e" .
  have ye: "2 powi e \<le> y" using ilog2_bounds(1) [of y] assms by (simp add: e_def)
  have "of_int (2 ^ 52) = (2 powi e / 2 powi (e - 52) :: rat)"
    by (simp add: power_int_diff)
  also have "\<dots> \<le> y / ulp y"
    unfolding ea(2) by (rule divide_right_mono [OF ye]) simp
  finally have "(of_int (2 ^ 52) :: rat) \<le> of_int (rne (y / ulp y))"
    using rne_ge by (simp only: of_int_le_iff)
  then have "of_int (2 ^ 52) * 2 powi (e - 52) \<le> f64_round y"
    using assms by (simp add: f64_round_def ea(2))
  moreover have "of_int (2 ^ 52) * 2 powi (e - 52) = (2 powi e :: rat)"
    by (simp add: power_int_diff)
  ultimately show ?thesis using left by linarith
qed

lemma f64_round_mono: "x \<le> y \<Longrightarrow> f64_round x \<le> f64_round y"
proof -
  assume le: "x \<le> y"
  consider "0 < x" | "x \<le> 0" "0 \<le> y" | "y < 0" by linarith
  then show ?thesis
  proof cases
    case 1
    then show ?thesis using le by (rule f64_round_mono_pos)
  next
    case 2
    then show ?thesis
      using f64_round_nonneg [of "- x"] f64_round_nonneg [of y] by (simp add: f64_round_minus)
  next
    case 3
    then show ?thesis
      using f64_round_mono_pos [of "- y" "- x"] le by (simp add: f64_round_minus)
  qed
qed

text \<open>Relative error in the normal range.\<close>

lemma f64_round_error_pos:
  assumes "1 / 2 ^ 100 \<le> x"
  shows "\<bar>f64_round x - x\<bar> \<le> x / 2 ^ 53"
proof -
  have "0 < (1 / 2 ^ 100 :: rat)" by simp
  then have pos: "0 < x" using assms by (rule less_le_trans)
  have "(2::rat) powi (- 100) = 1 / 2 ^ 100" by (simp add: power_int_def power_one_over)
  then have "(2::rat) powi (- 100) < 2 powi (ilog2 x + 1)"
    using assms ilog2_bounds(2) [OF pos] by linarith
  then have "- 100 < ilog2 x + 1" by (simp only: powi2_less_iff)
  then have u: "ulp x = 2 powi (ilog2 x - 52)"
    using pos by (simp add: ulp_def max_def)
  have "f64_round x - x = (of_int (rne (x / ulp x)) - x / ulp x) * ulp x"
    using pos ulp_pos [of x] by (simp add: f64_round_def algebra_simps)
  then have "\<bar>f64_round x - x\<bar> = \<bar>of_int (rne (x / ulp x)) - x / ulp x\<bar> * ulp x"
    using ulp_pos [of x] by (simp add: abs_mult)
  also have "\<dots> \<le> 1 / 2 * ulp x"
    using rne_error [of "x / ulp x"] ulp_pos [of x] by (intro mult_right_mono) auto
  also have "\<dots> = 2 powi (ilog2 x) / 2 ^ 53"
    by (simp add: u power_int_diff)
  also have "\<dots> \<le> x / 2 ^ 53"
    using ilog2_bounds(1) [OF pos] by (intro divide_right_mono) auto
  finally show ?thesis .
qed

lemma f64_round_of_int:
  assumes "\<bar>n\<bar> < 2 ^ 53"
  shows "f64_round (of_int n) = of_int n"
proof (cases "n = 0")
  case False
  define x :: rat where "x = \<bar>of_int n\<bar>"
  have x: "0 < x" "1 \<le> x" "x < 2 ^ 53"
  proof -
    show "0 < x" using False by (simp add: x_def)
    have "1 \<le> \<bar>n\<bar>" using False by linarith
    then have "(1::rat) \<le> of_int \<bar>n\<bar>" by (simp only: of_int_1_le_iff)
    then show "1 \<le> x" by (simp add: x_def)
    have "(of_int \<bar>n\<bar> :: rat) < of_int (2 ^ 53)" using assms by (simp only: of_int_less_iff)
    then show "x < 2 ^ 53" by (simp add: x_def)
  qed
  have "(2::rat) powi (ilog2 x) < 2 powi 53"
    using ilog2_bounds(1) [OF x(1)] x(3) by (simp add: power_int_def)
  then have "ilog2 x < 53" by (simp only: powi2_less_iff)
  then have hi: "ilog2 x \<le> 52" by simp
  have "(2::rat) powi 0 < 2 powi (ilog2 x + 1)"
    using ilog2_bounds(2) [OF x(1)] x(2) by simp
  then have "0 < ilog2 x + 1" by (simp only: powi2_less_iff)
  then have lo: "0 \<le> ilog2 x" by simp
  have "ulp (of_int n) = 2 powi (ilog2 x - 52)"
    using lo by (simp add: ulp_def x_def)
  then have "of_int n / ulp (of_int n) = (of_int n * 2 powi (52 - ilog2 x) :: rat)"
    using power_int_minus [of "2::rat" "ilog2 x - 52"] by (simp add: divide_inverse)
  also have "\<dots> = of_int (n * 2 ^ nat (52 - ilog2 x))"
    using hi by (simp add: powi2_of_int)
  finally show ?thesis by (rule f64_round_exact)
qed simp

section \<open>Values and operations\<close>

datatype f64 = Fin rat | PosInf | NegInf | NaN

definition f64_of :: "rat \<Rightarrow> f64" where
  "f64_of x = (let r = f64_round x in
     if 2 ^ 1024 \<le> r then PosInf else if r \<le> - (2 ^ 1024) then NegInf else Fin r)"

definition f64_of_int32 :: "int32 \<Rightarrow> f64" where
  "f64_of_int32 w = f64_of (of_int (sint w))"

fun f64_div :: "f64 \<Rightarrow> f64 \<Rightarrow> f64" where
  "f64_div (Fin a) (Fin b) =
     (if b = 0 then (if a = 0 then NaN else if 0 < a then PosInf else NegInf) else f64_of (a / b))"
| "f64_div (Fin a) PosInf = Fin 0"
| "f64_div (Fin a) NegInf = Fin 0"
| "f64_div PosInf (Fin b) = (if 0 \<le> b then PosInf else NegInf)"
| "f64_div NegInf (Fin b) = (if 0 \<le> b then NegInf else PosInf)"
| "f64_div _ _ = NaN"

fun f64_mul :: "f64 \<Rightarrow> f64 \<Rightarrow> f64" where
  "f64_mul (Fin a) (Fin b) = f64_of (a * b)"
| "f64_mul (Fin a) PosInf = (if a = 0 then NaN else if 0 < a then PosInf else NegInf)"
| "f64_mul (Fin a) NegInf = (if a = 0 then NaN else if 0 < a then NegInf else PosInf)"
| "f64_mul PosInf (Fin b) = (if b = 0 then NaN else if 0 < b then PosInf else NegInf)"
| "f64_mul NegInf (Fin b) = (if b = 0 then NaN else if 0 < b then NegInf else PosInf)"
| "f64_mul PosInf PosInf = PosInf"
| "f64_mul PosInf NegInf = NegInf"
| "f64_mul NegInf PosInf = NegInf"
| "f64_mul NegInf NegInf = PosInf"
| "f64_mul _ _ = NaN"

fun f64_sub :: "f64 \<Rightarrow> f64 \<Rightarrow> f64" where
  "f64_sub (Fin a) (Fin b) = f64_of (a - b)"
| "f64_sub (Fin a) PosInf = NegInf"
| "f64_sub (Fin a) NegInf = PosInf"
| "f64_sub PosInf (Fin b) = PosInf"
| "f64_sub NegInf (Fin b) = NegInf"
| "f64_sub PosInf NegInf = PosInf"
| "f64_sub NegInf PosInf = NegInf"
| "f64_sub _ _ = NaN"

text \<open>
  The Go specification lets a compiler fuse \<open>c - a * b\<close> into one operation that rounds
  once (it does on arm64, one of the two build targets of the Makefile, and does not on
  amd64).
\<close>

fun f64_fnma :: "f64 \<Rightarrow> f64 \<Rightarrow> f64 \<Rightarrow> f64" where
  "f64_fnma (Fin c) (Fin a) (Fin b) = f64_of (c - a * b)"
| "f64_fnma c a b = f64_sub c (f64_mul a b)"

text \<open>
  Conversion to \<open>int64\<close> truncates towards zero. Where the value does not fit, the result
  is implementation-dependent: it is the parameter \<open>oob\<close>.
\<close>

definition f64_trunc :: "rat \<Rightarrow> int" where
  "f64_trunc x = (if 0 \<le> x then \<lfloor>x\<rfloor> else \<lceil>x\<rceil>)"

definition int64_of_f64 :: "(f64 \<Rightarrow> int64) \<Rightarrow> f64 \<Rightarrow> int64" where
  "int64_of_f64 oob x = (case x of
     Fin r \<Rightarrow> if - (2 ^ 63) \<le> f64_trunc r \<and> f64_trunc r < 2 ^ 63 then int64_of (f64_trunc r) else oob x
   | _ \<Rightarrow> oob x)"

lemma f64_of_small: "\<bar>x\<bar> \<le> 2 ^ 52 \<Longrightarrow> f64_of x = Fin (f64_round x)"
proof -
  assume "\<bar>x\<bar> \<le> 2 ^ 52"
  then have "x \<le> of_int (2 ^ 52)" "of_int (- (2 ^ 52)) \<le> x" by (simp_all add: abs_le_iff)
  then have "f64_round x \<le> of_int (2 ^ 52)" "of_int (- (2 ^ 52)) \<le> f64_round x"
    using f64_round_mono [of x "of_int (2 ^ 52)"] f64_round_mono [of "of_int (- (2 ^ 52))" x]
      f64_round_of_int [of "2 ^ 52"] f64_round_of_int [of "- (2 ^ 52)"] by simp_all
  moreover have "(2::rat) ^ 52 < 2 ^ 1024" by (rule power_strict_increasing) simp_all
  ultimately show ?thesis by (simp add: f64_of_def Let_def)
qed

lemma f64_of_int32_eq: "f64_of_int32 w = Fin (of_int (sint w))"
proof -
  have b: "\<bar>sint w\<bar> < 2 ^ 52" using sint_int32_bounds [of w] by simp
  then have "\<bar>of_int (sint w) :: rat\<bar> \<le> 2 ^ 52"
    by (metis less_imp_le of_int_abs of_int_le_iff of_int_numeral of_int_power)
  moreover have "f64_round (of_int (sint w)) = of_int (sint w)"
    using b by (intro f64_round_of_int) simp
  ultimately show ?thesis
    unfolding f64_of_int32_def by (simp add: f64_of_small)
qed

lemma sint_int64_of_f64:
  assumes "\<bar>r\<bar> \<le> 2 ^ 52"
  shows "sint (int64_of_f64 oob (Fin r)) = f64_trunc r"
proof -
  have "r \<le> of_int (2 ^ 52)" "of_int (- (2 ^ 52)) \<le> r" using assms by (simp_all add: abs_le_iff)
  then have "- (2 ^ 52) \<le> f64_trunc r" "f64_trunc r \<le> 2 ^ 52"
    unfolding f64_trunc_def by (auto simp: le_floor_iff floor_le_iff ceiling_le_iff le_ceiling_iff)
  then show ?thesis
    by (simp add: int64_of_f64_def sint_int64_of)
qed

section \<open>Evaluating closed terms\<close>

named_theorems f64_eval \<open>rewrite rules that evaluate a float64 computation on numerals\<close>

lemma rat_floor_div [f64_eval]: "\<lfloor>numeral a / numeral b :: rat\<rfloor> = numeral a div numeral b"
  by (metis floor_divide_of_int_eq of_int_numeral)

lemma rat_floor_div_one [f64_eval]: "\<lfloor>1 / numeral b :: rat\<rfloor> = 1 div numeral b"
  by (metis floor_divide_of_int_eq of_int_numeral of_int_1)

lemma rat_floor_minus_div [f64_eval]:
  "\<lfloor>- (numeral a / numeral b) :: rat\<rfloor> = - numeral a div numeral b"
  by (metis divide_minus_left floor_divide_of_int_eq of_int_neg_numeral of_int_numeral)

lemma rat_ceiling_div [f64_eval]:
  "\<lceil>numeral a / numeral b :: rat\<rceil> = - (- numeral a div numeral b)"
  unfolding ceiling_def by (simp only: rat_floor_minus_div)

declare compute_floorlog [f64_eval] power_int_def [f64_eval] power_one_over [f64_eval]
  Let_def [f64_eval] f64_of_def [f64_eval] f64_round_def [f64_eval] ulp_def [f64_eval]
  ilog2_def [f64_eval] rne_def [f64_eval] f64_trunc_def [f64_eval]

text \<open>The usual surprise: 29 percent of 100 is below 29.\<close>

lemma f64_29_percent: "f64_trunc (f64_round (f64_round (29 / 100) * 100)) = 28"
  by (simp add: f64_eval)

end
