(* ===== verification/Topology_Scheduling.thy ===== *)
theory Topology_Scheduling
  imports PreFilter_State Policy_Lister Float64
begin

text \<open>
  The scheduler plugin TopologyScheduling
  (\<open>pkg/topologyscheduling/topology_scheduling.go\<close>): one definition per function of the
  file, from \<open>New\<close>'s plugin record to the extension points PreFilter, AddPod, RemovePod,
  Filter, Score, Reserve and Unreserve.

  The record \<open>framework\<close> collects what belongs to Kubernetes and is a parameter: reading and
  writing the \<open>CycleState\<close>, the meaning of label selectors and of node affinity, the order
  in which \<open>workqueue.ParallelizeUntil\<close> lets the pieces take effect, and the two freedoms
  that the Go specification leaves to the compiler in \<open>score\<close> (fusing a multiplication with
  a subtraction; converting a value outside \<open>int64\<close>). Assumptions about them are the named
  predicates \<open>cycle_state_ok\<close> and \<open>pieces_ok\<close>.
\<close>

section \<open>Parameters\<close>

datatype state_data = PreFilterData "PreFilterState option" | OtherData

record 'cs framework =
  cs_read :: "'cs \<Rightarrow> string \<Rightarrow> go_error + state_data"
  cs_write :: "'cs \<Rightarrow> string \<Rightarrow> state_data \<Rightarrow> 'cs"
  LabelSelectorAsSelector :: "LabelSelector option \<Rightarrow> go_error + selector"
  PodMatchesNodeSelectorAndAffinityTerms :: "pod \<Rightarrow> node \<Rightarrow> bool"
  piece_order :: "nat \<Rightarrow> nat list"
  fuses :: bool
  int64_oob :: "f64 \<Rightarrow> int64"

text \<open>\<open>CycleState\<close>: a value written under a key is what a read of that key returns.\<close>

definition cycle_state_ok :: "'cs framework \<Rightarrow> bool" where
  "cycle_state_ok fw \<longleftrightarrow>
     (\<forall>cs k v. cs_read fw (cs_write fw cs k v) k = Inr v)
     \<and> (\<forall>cs k v k'. k' \<noteq> k \<longrightarrow> cs_read fw (cs_write fw cs k v) k' = cs_read fw cs k')"

text \<open>\<open>ParallelizeUntil\<close> runs every piece once, in an order of its choice.\<close>

definition pieces_ok :: "'cs framework \<Rightarrow> bool" where
  "pieces_ok fw \<longleftrightarrow> (\<forall>n. mset (piece_order fw n) = mset [0..<n])"

section \<open>The plugin\<close>

record TopologyScheduling =
  snapshot_List :: "go_error + node_info list"
  snapshot_Get :: "string \<Rightarrow> go_error + node_info option"
  topologyPolicyLister :: indexer

definition PluginName :: string where
  "PluginName = ''TopologyScheduling''"

definition preFilterStateKey :: string where
  "preFilterStateKey = ''PreFilter'' @ PluginName"

definition ErrReasonConstraintsNotMatch :: string where
  "ErrReasonConstraintsNotMatch = ''node(s) didn't match pod topology spread constraints''"

definition ErrReasonNodeLabelNotMatch :: string where
  "ErrReasonNodeLabelNotMatch = ErrReasonConstraintsNotMatch @ '' (missing required label)''"

definition podRequireTopologyScheduling :: "pod \<Rightarrow> bool" where
  "podRequireTopologyScheduling p = (case mget (pod_Labels p) TopologySchedulingLabelKey of
     None \<Rightarrow> False
   | Some _ \<Rightarrow> True)"

definition getPreFilterState ::
    "'cs framework \<Rightarrow> 'cs \<Rightarrow> go_error + PreFilterState option" where
  "getPreFilterState fw cycleState = (case cs_read fw cycleState preFilterStateKey of
     Inl err \<Rightarrow> Inl (Wrapf ''reading PreFilterTopologyScheduling from cycleState: '' err)
   | Inr (PreFilterData s) \<Rightarrow> Inr s
   | Inr OtherData \<Rightarrow> Inl (Errorf ''convert to podtopologyspread.preFilterState error''))"

definition countPodsMatchSelector :: "pod option list \<Rightarrow> selector \<Rightarrow> string \<Rightarrow> int" where
  "countPodsMatchSelector podInfos sel ns = fold (\<lambda>p cnt. case p of
       None \<Rightarrow> cnt
     | Some pod \<Rightarrow>
         if DeletionTimestamp pod \<noteq> None \<or> pod_Namespace pod \<noteq> ns then cnt
         else if sel (pod_Labels pod) then cnt + 1 else cnt) podInfos 0"

text \<open>The loop that gives every topology pair of an eligible node a fresh zero counter.\<close>

fun init_pairs ::
    "'cs framework \<Rightarrow> pod \<Rightarrow> string \<Rightarrow> node_info list \<Rightarrow> (TopologyPair, addr) gomap \<Rightarrow> heap
       \<Rightarrow> (TopologyPair, addr) gomap \<times> heap" where
  "init_pairs fw p key [] m h = (m, h)"
| "init_pairs fw p key (n # allNodes) m h = (case Node n of
     None \<Rightarrow> init_pairs fw p key allNodes m h
   | Some nd \<Rightarrow>
       if \<not> PodMatchesNodeSelectorAndAffinityTerms fw p nd then init_pairs fw p key allNodes m h
       else (case mget (node_Labels nd) key of
         None \<Rightarrow> init_pairs fw p key allNodes m h
       | Some tpval \<Rightarrow>
           (let (a, h') = new_int32 0 h
            in init_pairs fw p key allNodes (ginsert (topo_pair key tpval) a m) h')))"

definition processNode ::
    "string \<Rightarrow> selector \<Rightarrow> string \<Rightarrow> (TopologyPair, addr) gomap \<Rightarrow> node_info list \<Rightarrow> nat
       \<Rightarrow> heap \<Rightarrow> heap go" where
  "processNode key sel ns m allNodes i h = (case Node (allNodes ! i) of
     None \<Rightarrow> Panic NilDeref
   | Some nd \<Rightarrow>
       (case glookup m (topo_pair key (mget_zero (node_Labels nd) key)) of
          None \<Rightarrow> Ret h
        | Some tpCount \<Rightarrow>
            (let cnt = countPodsMatchSelector (Pods (allNodes ! i)) sel ns
             in Ret (add_int32 tpCount (int32_of cnt) h))))"

definition calculatePreFilterStateCache ::
    "'cs framework \<Rightarrow> TopologyScheduling \<Rightarrow> pod \<Rightarrow> heap
       \<Rightarrow> (heap \<times> (go_error + PreFilterState option)) go" where
  "calculatePreFilterStateCache fw ts p h =
     (case mget (pod_Labels p) TopologySchedulingLabelKey of
        None \<Rightarrow> Ret (h, Inr None)
      | Some policyName \<Rightarrow>
     (case get_policy (topologyPolicyLister ts) (pod_Namespace p) policyName of
        Inl err \<Rightarrow> Ret (h, Inl (Wrapf ''obtaining pod's topology policy: '' err))
      | Inr tsp \<Rightarrow>
     (case snapshot_List ts of
        Inl err \<Rightarrow> Ret (h, Inl (Wrapf ''listing NodeInfos: '' err))
      | Inr allNodes \<Rightarrow>
     (case LabelSelectorAsSelector fw (spec_LabelSelector (Spec tsp)) of
        Inl err \<Rightarrow> Ret (h, Inl err)
      | Inr sel \<Rightarrow>
          (let constraint = \<lparr>c_TopologyKey = TopologyKey (Spec tsp),
                 SchedulePolicyMap = CovertPolicy (DeployPlacement (Spec tsp)),
                 Selector = sel\<rparr>;
               (m, h1) = init_pairs fw p (TopologyKey (Spec tsp)) allNodes gomake h;
               s = \<lparr>Constraint = constraint, TpPairToMatchNum = m,
                    st_ScheduleStrategy = ScheduleStrategy (Spec tsp)\<rparr>
           in go_bind
                (go_fold (processNode (TopologyKey (Spec tsp)) sel (pod_Namespace p) m allNodes)
                   (piece_order fw (length allNodes)) h1)
                (\<lambda>h2. Ret (h2, Inr (Some s))))))))"

definition PreFilter ::
    "'cs framework \<Rightarrow> TopologyScheduling \<Rightarrow> 'cs \<Rightarrow> pod \<Rightarrow> heap \<Rightarrow> (heap \<times> 'cs \<times> status option) go" where
  "PreFilter fw ts state p h =
     (if \<not> podRequireTopologyScheduling p then Ret (h, state, None)
      else go_bind (calculatePreFilterStateCache fw ts p h) (\<lambda>(h', r). case r of
          Inl err \<Rightarrow> Ret (h', state, Some (AsStatus err))
        | Inr s \<Rightarrow> Ret (h', cs_write fw state preFilterStateKey (PreFilterData s), None)))"

fun checkPolicyRequirementReached ::
    "heap \<Rightarrow> string \<Rightarrow> (string, int32) gomap \<Rightarrow> (TopologyPair, addr) gomap \<Rightarrow> bool" where
  "checkPolicyRequirementReached h topoKey [] m = True"
| "checkPolicyRequirementReached h topoKey ((value, replicas) # rest) m =
     (case glookup m (topo_pair topoKey value) of
        None \<Rightarrow> False
      | Some cnt \<Rightarrow>
          if load h cnt <s replicas then False
          else checkPolicyRequirementReached h topoKey rest m)"

definition checkTopoValueReached ::
    "heap \<Rightarrow> string \<Rightarrow> string \<Rightarrow> (string, int32) gomap \<Rightarrow> (TopologyPair, addr) gomap \<Rightarrow> bool" where
  "checkTopoValueReached h topoKey topoValue policy m = (case glookup policy topoValue of
     None \<Rightarrow> True
   | Some desired \<Rightarrow> (case glookup m (topo_pair topoKey topoValue) of
       None \<Rightarrow> False
     | Some cnt \<Rightarrow> if load h cnt <s desired then False else True))"

definition Filter ::
    "'cs framework \<Rightarrow> TopologyScheduling \<Rightarrow> heap \<Rightarrow> 'cs \<Rightarrow> pod \<Rightarrow> node_info \<Rightarrow> status option go" where
  "Filter fw ts h state p nodeInfo =
     (if \<not> podRequireTopologyScheduling p then Ret None
      else (case Node nodeInfo of
        None \<Rightarrow> Ret (Some (AsStatus (Errorf ''node not found'')))
      | Some nd \<Rightarrow>
     (case getPreFilterState fw state of
        Inl err \<Rightarrow> Ret (Some (AsStatus err))
      | Inr s \<Rightarrow>
     (case mget (pod_Labels p) TopologySchedulingLabelKey of
        None \<Rightarrow> Ret None
      | Some policyName \<Rightarrow>
     (case get_policy (topologyPolicyLister ts) (pod_Namespace p) policyName of
        Inl err \<Rightarrow> Ret (Some (AsStatus (Wrapf ''obtaining pod's topology policy: '' err)))
      | Inr tsp \<Rightarrow>
     (case s of
        None \<Rightarrow> Panic NilDeref
      | Some st \<Rightarrow>
          if \<not> Selector (Constraint st) (pod_Labels p)
          then Ret (Some (NewStatus Unschedulable ErrReasonConstraintsNotMatch))
          else (let tpKey = TopologyKey (Spec tsp) in
            (case mget (node_Labels nd) tpKey of
               None \<Rightarrow> Ret (Some (NewStatus UnschedulableAndUnresolvable ErrReasonNodeLabelNotMatch))
             | Some tpVal \<Rightarrow>
                 if checkPolicyRequirementReached h tpKey (SchedulePolicyMap (Constraint st))
                      (TpPairToMatchNum st) then Ret None
                 else if \<not> checkTopoValueReached h tpKey tpVal (SchedulePolicyMap (Constraint st))
                      (TpPairToMatchNum st) then Ret None
                 else Ret (Some (NewStatus Unschedulable ErrReasonConstraintsNotMatch))))))))))"

text \<open>The plugin is its own extension of PreFilter.\<close>

definition PreFilterExtensions :: "TopologyScheduling \<Rightarrow> TopologyScheduling" where
  "PreFilterExtensions ts = ts"

definition ts_Name :: "TopologyScheduling \<Rightarrow> string" where
  "ts_Name ts = PluginName"

definition AddPod ::
    "'cs framework \<Rightarrow> 'cs \<Rightarrow> pod \<Rightarrow> pod \<Rightarrow> node_info \<Rightarrow> heap \<Rightarrow> (heap \<times> status) go" where
  "AddPod fw cycleState podToSchedule podToAdd nodeInfo h =
     (if \<not> podRequireTopologyScheduling podToSchedule then Ret (h, NewStatus Success '''')
      else (case getPreFilterState fw cycleState of
        Inl err \<Rightarrow> Ret (h, AsStatus err)
      | Inr s \<Rightarrow> go_bind (updateWithPod s podToAdd podToSchedule (Node nodeInfo) 1 h)
          (\<lambda>h'. Ret (h', NewStatus Success ''''))))"

definition RemovePod ::
    "'cs framework \<Rightarrow> 'cs \<Rightarrow> pod \<Rightarrow> pod \<Rightarrow> node_info \<Rightarrow> heap \<Rightarrow> (heap \<times> status) go" where
  "RemovePod fw cycleState podToSchedule podToRemove nodeInfo h =
     (if \<not> podRequireTopologyScheduling podToSchedule then Ret (h, NewStatus Success '''')
      else (case getPreFilterState fw cycleState of
        Inl err \<Rightarrow> Ret (h, AsStatus err)
      | Inr s \<Rightarrow> go_bind (updateWithPod s podToRemove podToSchedule (Node nodeInfo) (- 1) h)
          (\<lambda>h'. Ret (h', NewStatus Success ''''))))"

definition score :: "bool \<Rightarrow> (f64 \<Rightarrow> int64) \<Rightarrow> f64 \<Rightarrow> f64 \<Rightarrow> string \<Rightarrow> int64" where
  "score fuse oob cnt desired policy =
     (if policy = ScheduleStrategyBalance then
        int64_of_f64 oob
          (if fuse then f64_fnma (Fin 1) (f64_div cnt desired) (Fin 100)
           else f64_sub (Fin 1) (f64_mul (f64_div cnt desired) (Fin 100)))
      else if policy = ScheduleStrategyFill then
        int64_of_f64 oob (f64_mul (f64_div cnt desired) (Fin 100))
      else 0)"

definition Score ::
    "'cs framework \<Rightarrow> TopologyScheduling \<Rightarrow> heap \<Rightarrow> 'cs \<Rightarrow> pod \<Rightarrow> string \<Rightarrow> int64 \<times> status" where
  "Score fw ts h state p nodeName =
     (if \<not> podRequireTopologyScheduling p then (0, NewStatus Success '''')
      else (case getPreFilterState fw state of
        Inl err \<Rightarrow> (0, NewStatus Success '''')
      | Inr None \<Rightarrow> (0, NewStatus Success '''')
      | Inr (Some s) \<Rightarrow>
     (case snapshot_Get ts nodeName of
        Inl err \<Rightarrow> (0, NewStatus Error ''node not exist'')
      | Inr None \<Rightarrow> (0, NewStatus Error ''node not exist'')
      | Inr (Some nodeInfo) \<Rightarrow>
     (case Node nodeInfo of
        None \<Rightarrow> (0, NewStatus Error ''node not exist'')
      | Some nd \<Rightarrow>
     (case mget (node_Labels nd) (c_TopologyKey (Constraint s)) of
        None \<Rightarrow> (0, NewStatus Success '''')
      | Some tpval \<Rightarrow>
     (case glookup (SchedulePolicyMap (Constraint s)) tpval of
        None \<Rightarrow> (0, NewStatus Success '''')
      | Some desired \<Rightarrow>
     (case glookup (TpPairToMatchNum s) (topo_pair (c_TopologyKey (Constraint s)) tpval) of
        None \<Rightarrow> (0, NewStatus Success '''')
      | Some cnt \<Rightarrow>
          if desired \<le>s load h cnt then (0, NewStatus Success '''')
          else (score (fuses fw) (int64_oob fw) (f64_of_int32 (load h cnt))
                  (f64_of_int32 desired) (st_ScheduleStrategy s),
                NewStatus Success ''''))))))))"

text \<open>The plugin is its own extension of Score; \<open>NormalizeScore\<close> leaves the scores as they are.\<close>

definition ScoreExtensions :: "TopologyScheduling \<Rightarrow> TopologyScheduling" where
  "ScoreExtensions ts = ts"

definition NormalizeScore :: "(string \<times> int64) list \<Rightarrow> (string \<times> int64) list \<times> status" where
  "NormalizeScore scores = (scores, NewStatus Success '''')"

text \<open>\<open>Node()\<close> of the looked-up \<open>NodeInfo\<close>, which is nil for a nil \<open>NodeInfo\<close>.\<close>

definition node_of :: "node_info option \<Rightarrow> node option" where
  "node_of ni = (case ni of None \<Rightarrow> None | Some n \<Rightarrow> Node n)"

definition Reserve ::
    "'cs framework \<Rightarrow> TopologyScheduling \<Rightarrow> 'cs \<Rightarrow> pod \<Rightarrow> string \<Rightarrow> heap \<Rightarrow> (heap \<times> status) go" where
  "Reserve fw ts state p nodeName h =
     (if \<not> podRequireTopologyScheduling p then Ret (h, NewStatus Success '''')
      else (case getPreFilterState fw state of
        Inl err \<Rightarrow> Ret (h, AsStatus err)
      | Inr s \<Rightarrow>
     (case snapshot_Get ts nodeName of
        Inl err \<Rightarrow> Ret (h, AsStatus err)
      | Inr nodeInfo \<Rightarrow> go_bind (updateWithPod s p p (node_of nodeInfo) 1 h)
          (\<lambda>h'. Ret (h', NewStatus Success '''')))))"

definition Unreserve ::
    "'cs framework \<Rightarrow> TopologyScheduling \<Rightarrow> 'cs \<Rightarrow> pod \<Rightarrow> string \<Rightarrow> heap \<Rightarrow> heap go" where
  "Unreserve fw ts state p nodeName h =
     (if \<not> podRequireTopologyScheduling p then Ret h
      else (case getPreFilterState fw state of
        Inl err \<Rightarrow> Ret h
      | Inr s \<Rightarrow>
     (case snapshot_Get ts nodeName of
        Inl err \<Rightarrow> Ret h
      | Inr nodeInfo \<Rightarrow> updateWithPod s p p (node_of nodeInfo) (- 1) h)))"

end
