(* ===== verification/PreFilter_Counts.thy ===== *)
theory PreFilter_Counts
  imports Topology_Scheduling
begin

text \<open>
  What \<open>calculatePreFilterStateCache\<close> computes. The tracked topology values are those of the
  nodes that pass the pod's node selector and affinity; the counter of a value ends up with
  the number of matching pods on all nodes of that value, in whatever order the parallel
  pieces take effect; the call panics exactly when the snapshot holds a nil node.
\<close>

section \<open>Counting pods\<close>

definition counted :: "selector \<Rightarrow> string \<Rightarrow> pod option \<Rightarrow> bool" where
  "counted sel ns p = (case p of None \<Rightarrow> False
     | Some pod \<Rightarrow> DeletionTimestamp pod = None \<and> pod_Namespace pod = ns \<and> sel (pod_Labels pod))"

lemma countPodsMatchSelector_eq:
  "countPodsMatchSelector ps sel ns = int (length (filter (counted sel ns) ps))"
proof -
  have "fold (\<lambda>p cnt. case p of None \<Rightarrow> cnt
     | Some pod \<Rightarrow>
         if DeletionTimestamp pod \<noteq> None \<or> pod_Namespace pod \<noteq> ns then cnt
         else if sel (pod_Labels pod) then cnt + 1 else cnt) ps c
     = c + int (length (filter (counted sel ns) ps))" for c
    by (induction ps arbitrary: c) (auto simp: counted_def split: option.splits)
  then show ?thesis by (simp add: countPodsMatchSelector_def)
qed

lemma countPodsMatchSelector_append [simp]:
  "countPodsMatchSelector (ps @ qs) sel ns
     = countPodsMatchSelector ps sel ns + countPodsMatchSelector qs sel ns"
  by (simp add: countPodsMatchSelector_eq)

lemma countPodsMatchSelector_Nil [simp]: "countPodsMatchSelector [] sel ns = 0"
  by (simp add: countPodsMatchSelector_eq)

lemma countPodsMatchSelector_single [simp]:
  "countPodsMatchSelector [p] sel ns = (if counted sel ns p then 1 else 0)"
  by (simp add: countPodsMatchSelector_eq)

lemma countPodsMatchSelector_nonneg [simp]: "0 \<le> countPodsMatchSelector ps sel ns"
  by (simp add: countPodsMatchSelector_eq)

section \<open>Abstract result\<close>

text \<open>The value under which a node is counted: the label, or the empty string without one.\<close>

definition zone_of :: "string \<Rightarrow> node_info \<Rightarrow> string" where
  "zone_of key n = (case Node n of None \<Rightarrow> '''' | Some nd \<Rightarrow> mget_zero (node_Labels nd) key)"

text \<open>Matching pods on the nodes of a topology value.\<close>

definition zone_count :: "string \<Rightarrow> selector \<Rightarrow> string \<Rightarrow> node_info list \<Rightarrow> string \<Rightarrow> int" where
  "zone_count key sel ns nodes v =
     (\<Sum>n \<leftarrow> nodes. if zone_of key n = v then countPodsMatchSelector (Pods n) sel ns else 0)"

text \<open>Topology values with a node that the pod's selector and affinity admit.\<close>

definition admits :: "'cs framework \<Rightarrow> pod \<Rightarrow> string \<Rightarrow> string \<Rightarrow> node_info \<Rightarrow> bool" where
  "admits fw p key v n \<longleftrightarrow> (\<exists>nd. Node n = Some nd
     \<and> PodMatchesNodeSelectorAndAffinityTerms fw p nd \<and> mget (node_Labels nd) key = Some v)"

definition tracked :: "'cs framework \<Rightarrow> pod \<Rightarrow> string \<Rightarrow> node_info list \<Rightarrow> string \<Rightarrow> bool" where
  "tracked fw p key nodes v \<longleftrightarrow> (\<exists>n \<in> set nodes. admits fw p key v n)"

lemma zone_count_nonneg [simp]: "0 \<le> zone_count key sel ns nodes v"
  unfolding zone_count_def by (rule sum_list_nonneg) auto

lemma zone_count_Nil [simp]: "zone_count key sel ns [] v = 0"
  by (simp add: zone_count_def)

lemma zone_count_Cons [simp]:
  "zone_count key sel ns (n # nodes) v =
     (if zone_of key n = v then countPodsMatchSelector (Pods n) sel ns else 0)
       + zone_count key sel ns nodes v"
  by (simp add: zone_count_def)

section \<open>The counters start at zero, one per tracked value\<close>

lemma own_counters_ginsert:
  assumes "own_counters m" "b \<notin> snd ` set m"
  shows "own_counters (ginsert p b m)"
proof -
  have "distinct (map snd (AList.update p b m)) \<and> snd ` set (AList.update p b m) \<subseteq> insert b (snd ` set m)"
    if "distinct (map snd m)" "b \<notin> snd ` set m"
    using that by (induction m) auto
  then show ?thesis
    using assms by (simp add: own_counters_def) (simp add: ginsert_def)
qed

lemma snd_ginsert: "snd ` set (ginsert p b m) \<subseteq> insert b (snd ` set m)"
  unfolding ginsert_def by (induction m) auto

definition init_ok :: "(TopologyPair, addr) gomap \<Rightarrow> heap \<Rightarrow> bool" where
  "init_ok m h \<longleftrightarrow> heap_ok h \<and> own_counters m \<and> snd ` set m \<subseteq> dom (cells h)
     \<and> (\<forall>p a. glookup m p = Some a \<longrightarrow> load h a = 0)"

lemma init_ok_live: "init_ok m h \<Longrightarrow> glookup m p = Some a \<Longrightarrow> a \<in> dom (cells h)"
  unfolding init_ok_def by (metis glookup_mem image_eqI snd_conv subsetD)

lemma init_ok_step:
  assumes "init_ok m h" "new_int32 0 h = (a, h')"
  shows "init_ok (ginsert p a m) h'"
proof -
  have fresh: "a \<notin> snd ` set m"
    using assms ct.new_fresh [OF _ assms(2)] by (auto simp: init_ok_def)
  have "heap_ok h'" using assms(1) heap_ok_new [OF _ assms(2)] by (simp add: init_ok_def)
  moreover have "own_counters (ginsert p a m)"
    using assms(1) fresh by (simp add: init_ok_def own_counters_ginsert)
  moreover have "snd ` set (ginsert p a m) \<subseteq> dom (cells h')"
  proof -
    have "insert a (snd ` set m) \<subseteq> dom (cells h')"
      using assms(1) unfolding ct.new_live [OF assms(2)] init_ok_def by blast
    with snd_ginsert [of p a m] show ?thesis by (rule subset_trans)
  qed
  moreover have "load h' b = 0" if "glookup (ginsert p a m) q = Some b" for q b
    using that assms(1) ct.rd_new [OF assms(2)] by (auto simp: init_ok_def split: if_splits)
  ultimately show ?thesis by (simp add: init_ok_def)
qed

lemma init_pairs_ok:
  "init_pairs fw p key nodes m h = (m', h') \<Longrightarrow> init_ok m h \<Longrightarrow>
     init_ok m' h' \<and> dom (glookup m') = dom (glookup m) \<union> {topo_pair key v | v. tracked fw p key nodes v}"
proof (induction nodes arbitrary: m h)
  case Nil
  then show ?case by (simp add: tracked_def)
next
  case (Cons n nodes)
  have skip: ?case if "init_pairs fw p key nodes m h = (m', h')" "\<And>v. \<not> admits fw p key v n"
    using Cons.IH [OF that(1) Cons.prems(2)] that(2) by (simp add: tracked_def)
  show ?case
  proof (cases "Node n")
    case None
    then show ?thesis using Cons.prems(1) by (intro skip) (auto simp: admits_def)
  next
    case (Some nd)
    show ?thesis
    proof (cases "PodMatchesNodeSelectorAndAffinityTerms fw p nd \<and> mget (node_Labels nd) key \<noteq> None")
      case False
      then show ?thesis using Cons.prems(1) Some
        by (intro skip) (auto simp: admits_def split: if_splits)
    next
      case True
      then obtain tpval where lab: "mget (node_Labels nd) key = Some tpval" by blast
      obtain a h1 where new: "new_int32 0 h = (a, h1)" by (cases "new_int32 0 h")
      have rec: "init_pairs fw p key nodes (ginsert (topo_pair key tpval) a m) h1 = (m', h')"
        using Cons.prems(1) Some True lab new by simp
      have "admits fw p key v n \<longleftrightarrow> v = tpval" for v
        using Some True lab by (auto simp: admits_def)
      then have tr: "tracked fw p key (n # nodes) v \<longleftrightarrow> v = tpval \<or> tracked fw p key nodes v" for v
        by (simp add: tracked_def)
      from Cons.IH [OF rec init_ok_step [OF Cons.prems(2) new]]
      show ?thesis by (auto simp: tr)
    qed
  qed
qed

section \<open>The parallel count\<close>

text \<open>The atomic additions that one piece performs.\<close>

definition piece_incs ::
    "string \<Rightarrow> selector \<Rightarrow> string \<Rightarrow> (TopologyPair, addr) gomap \<Rightarrow> node_info list \<Rightarrow> nat
       \<Rightarrow> (addr \<times> int32) list" where
  "piece_incs key sel ns m nodes i =
     (case glookup m (topo_pair key (zone_of key (nodes ! i))) of
        None \<Rightarrow> []
      | Some a \<Rightarrow> [(a, int32_of (countPodsMatchSelector (Pods (nodes ! i)) sel ns))])"

lemma processNode_Ret:
  assumes "Node (nodes ! i) \<noteq> None"
  shows "processNode key sel ns m nodes i h = Ret (ct.incs (piece_incs key sel ns m nodes i) h)"
  using assms by (auto simp: processNode_def piece_incs_def zone_of_def ct.incs_def split: option.splits)

lemma processNode_fold:
  assumes "\<forall>i \<in> set order. Node (nodes ! i) \<noteq> None"
  shows "go_fold (processNode key sel ns m nodes) order h
     = Ret (ct.incs (concat (map (piece_incs key sel ns m nodes) order)) h)"
  using assms
  by (induction order arbitrary: h) (simp_all add: processNode_Ret ct.incs_def fold_append)

lemma processNode_panic:
  assumes "i \<in> set order" "Node (nodes ! i) = None"
  shows "go_fold (processNode key sel ns m nodes) order h = Panic NilDeref"
  using assms
proof (induction order arbitrary: h)
  case (Cons j order)
  show ?case
  proof (cases "Node (nodes ! j) = None")
    case True
    then show ?thesis by (simp add: processNode_def)
  next
    case False
    with Cons show ?thesis by (auto simp: processNode_Ret)
  qed
qed simp

lemma sum_piece_incs:
  assumes "own_counters m" "glookup m q = Some a"
  shows "(\<Sum>(b, d) \<leftarrow> piece_incs key sel ns m nodes i. if b = a then d else 0)
     = (if topo_pair key (zone_of key (nodes ! i)) = q
        then int32_of (countPodsMatchSelector (Pods (nodes ! i)) sel ns) else 0)"
proof -
  let ?r = "topo_pair key (zone_of key (nodes ! i))"
  show ?thesis
  proof (cases "?r = q")
    case True
    then show ?thesis by (simp add: piece_incs_def assms(2))
  next
    case False
    then have "glookup m ?r \<noteq> Some a" using own_counters_inj [OF assms(1) _ assms(2)] by blast
    then show ?thesis using False by (simp add: piece_incs_def split: option.split)
  qed
qed

lemma int32_of_sum_list: "int32_of (sum_list xs) = sum_list (map int32_of xs)"
  by (induction xs) (simp_all add: int32_of_add)

lemma sum_pieces:
  assumes "own_counters m" "glookup m (topo_pair key v) = Some a" "mset order = mset [0..<length nodes]"
  shows "(\<Sum>(b, d) \<leftarrow> concat (map (piece_incs key sel ns m nodes) order). if b = a then d else 0)
     = int32_of (zone_count key sel ns nodes v)"
proof -
  let ?f = "\<lambda>i. if zone_of key (nodes ! i) = v
        then int32_of (countPodsMatchSelector (Pods (nodes ! i)) sel ns) else 0"
  let ?g = "\<lambda>n. if zone_of key n = v then countPodsMatchSelector (Pods n) sel ns else 0"
  have "(\<Sum>(b, d) \<leftarrow> concat (map (piece_incs key sel ns m nodes) order). if b = a then d else 0)
      = sum_list (map ?f order)"
    by (induction order) (simp_all add: sum_piece_incs [OF assms(1,2)])
  also have "\<dots> = sum_list (map ?f [0..<length nodes])"
  proof -
    have "sum_mset (mset (map ?f order)) = sum_mset (mset (map ?f [0..<length nodes]))"
      by (simp only: mset_map assms(3))
    then show ?thesis by (simp only: sum_mset_sum_list)
  qed
  also have "map ?f [0..<length nodes] = map int32_of (map ?g nodes)"
    by (rule nth_equalityI) simp_all
  also have "sum_list (map int32_of (map ?g nodes)) = int32_of (zone_count key sel ns nodes v)"
    by (simp only: zone_count_def int32_of_sum_list)
  finally show ?thesis .
qed

section \<open>calculatePreFilterStateCache\<close>

text \<open>The abstract value of the computed state.\<close>

definition expected_counts ::
    "'cs framework \<Rightarrow> pod \<Rightarrow> string \<Rightarrow> selector \<Rightarrow> node_info list \<Rightarrow> TopologyPair \<Rightarrow> int32 option" where
  "expected_counts fw p key sel nodes q =
     (if Key q = key \<and> tracked fw p key nodes (Value q)
      then Some (int32_of (zone_count key sel (pod_Namespace p) nodes (Value q))) else None)"

text \<open>The inputs on which the calculation gets past its error returns.\<close>

definition inputs_of ::
    "'cs framework \<Rightarrow> TopologyScheduling \<Rightarrow> pod \<Rightarrow> TopologySchedulingPolicy \<Rightarrow> node_info list
       \<Rightarrow> selector \<Rightarrow> bool" where
  "inputs_of fw ts p tsp nodes sel \<longleftrightarrow>
     (\<exists>name. mget (pod_Labels p) TopologySchedulingLabelKey = Some name
        \<and> get_policy (topologyPolicyLister ts) (pod_Namespace p) name = Inr tsp)
     \<and> snapshot_List ts = Inr nodes
     \<and> LabelSelectorAsSelector fw (spec_LabelSelector (Spec tsp)) = Inr sel"

lemma inputs_of_require: "inputs_of fw ts p tsp nodes sel \<Longrightarrow> podRequireTopologyScheduling p"
  by (auto simp: inputs_of_def podRequireTopologyScheduling_def)

definition nodes_live :: "node_info list \<Rightarrow> bool" where
  "nodes_live nodes \<longleftrightarrow> (\<forall>n \<in> set nodes. Node n \<noteq> None)"

lemma pieces_set: "pieces_ok fw \<Longrightarrow> set (piece_order fw n) = {0..<n}"
  unfolding pieces_ok_def by (metis atLeastLessThan_upt set_mset_mset)

lemma calculate_Ret:
  assumes inp: "inputs_of fw ts p tsp nodes sel" and live: "nodes_live nodes"
    and pieces: "pieces_ok fw" and hok: "heap_ok h"
  obtains st h' where "calculatePreFilterStateCache fw ts p h = Ret (h', Inr (Some st))"
    "state_ok h' st" "counts h' st = expected_counts fw p (TopologyKey (Spec tsp)) sel nodes"
    "Constraint st = \<lparr>c_TopologyKey = TopologyKey (Spec tsp),
       SchedulePolicyMap = CovertPolicy (DeployPlacement (Spec tsp)), Selector = sel\<rparr>"
    "st_ScheduleStrategy st = ScheduleStrategy (Spec tsp)"
proof -
  let ?key = "TopologyKey (Spec tsp)" and ?ns = "pod_Namespace p"
  let ?c = "\<lparr>c_TopologyKey = ?key,
       SchedulePolicyMap = CovertPolicy (DeployPlacement (Spec tsp)), Selector = sel\<rparr>"
  obtain m h1 where ip: "init_pairs fw p ?key nodes gomake h = (m, h1)"
    by (cases "init_pairs fw p ?key nodes gomake h")
  have "init_ok gomake h" using hok by (simp add: init_ok_def own_counters_def)
  from init_pairs_ok [OF ip this]
  have i1: "init_ok m h1" and d: "dom (glookup m) = {topo_pair ?key v | v. tracked fw p ?key nodes v}"
    by simp_all
  let ?order = "piece_order fw (length nodes)"
  let ?incs = "concat (map (piece_incs ?key sel ?ns m nodes) ?order)"
  let ?h2 = "ct.incs ?incs h1"
  let ?st = "\<lparr>Constraint = ?c, TpPairToMatchNum = m, st_ScheduleStrategy = ScheduleStrategy (Spec tsp)\<rparr>"
  have set_order: "set ?order = {0..<length nodes}" using pieces by (rule pieces_set)
  have f: "go_fold (processNode ?key sel ?ns m nodes) ?order h1 = Ret ?h2"
    using live by (intro processNode_fold) (auto simp: set_order nodes_live_def)
  have ret: "calculatePreFilterStateCache fw ts p h = Ret (?h2, Inr (Some ?st))"
    using inp by (auto simp: calculatePreFilterStateCache_def inputs_of_def ip f)
  have "fst ` set (piece_incs ?key sel ?ns m nodes i) \<subseteq> dom (cells h1)" for i
    by (cases "glookup m (topo_pair ?key (zone_of ?key (nodes ! i)))")
       (simp_all add: piece_incs_def init_ok_live [OF i1])
  then have incs_dom: "fst ` set ?incs \<subseteq> dom (cells h1)" by fastforce
  have "heap_ok ?h2" using i1 incs_dom by (simp add: init_ok_def ct.ok_incs)
  moreover have "dom (cells ?h2) = dom (cells h1)" using incs_dom by (rule ct.live_incs)
  ultimately have sok: "state_ok ?h2 ?st"
    using i1 by (simp add: state_ok_def init_ok_def counters_def)
  have "counts ?h2 ?st q = expected_counts fw p ?key sel nodes q" for q
  proof (cases "q \<in> dom (glookup m)")
    case True
    then obtain a where a: "glookup m q = Some a" by blast
    obtain v where q: "q = topo_pair ?key v" "tracked fw p ?key nodes v" using True unfolding d by blast
    have "load ?h2 a = load h1 a + int32_of (zone_count ?key sel ?ns nodes v)"
      using sum_pieces [of m ?key v a ?order nodes sel ?ns] i1 a q(1) pieces
      by (simp add: ct.rd_incs init_ok_def pieces_ok_def)
    moreover have "load h1 a = 0" using i1 a by (auto simp: init_ok_def)
    ultimately show ?thesis using a q by (simp add: counts_def expected_counts_def)
  next
    case False
    then have "\<not> (Key q = ?key \<and> tracked fw p ?key nodes (Value q))"
      unfolding d by (metis (mono_tags, lifting) mem_Collect_eq topo_pair_eta)
    with False show ?thesis by (auto simp: counts_def expected_counts_def domIff)
  qed
  then show ?thesis using that [OF ret sok] by auto
qed

lemma calculate_panic:
  assumes inp: "inputs_of fw ts p tsp nodes sel" and dead: "\<not> nodes_live nodes"
    and pieces: "pieces_ok fw"
  shows "calculatePreFilterStateCache fw ts p h = Panic NilDeref"
proof -
  from dead obtain i where i: "i < length nodes" "Node (nodes ! i) = None"
    by (auto simp: nodes_live_def in_set_conv_nth)
  have "i \<in> set (piece_order fw (length nodes))" using pieces i(1) by (simp add: pieces_set)
  from processNode_panic [OF this i(2)] show ?thesis
    using inp by (auto simp: calculatePreFilterStateCache_def inputs_of_def split: prod.split)
qed

end
