(* ===== verification/Plugin_Laws.thy ===== *)
theory Plugin_Laws
  imports PreFilter_Counts
begin

text \<open>
  The decisions of the TopologyScheduling plugin as functions of the abstract counts, and
  the laws that relate its state-changing extension points.
\<close>

section \<open>The two checks of Filter\<close>

definition reached :: "(TopologyPair \<Rightarrow> int32 option) \<Rightarrow> string \<Rightarrow> string \<Rightarrow> int32 \<Rightarrow> bool" where
  "reached c key v r \<longleftrightarrow> (\<exists>n. c (topo_pair key v) = Some n \<and> sint r \<le> sint n)"

definition policy_reached ::
    "(TopologyPair \<Rightarrow> int32 option) \<Rightarrow> string \<Rightarrow> (string, int32) gomap \<Rightarrow> bool" where
  "policy_reached c key pol \<longleftrightarrow> (\<forall>(v, r) \<in> set pol. reached c key v r)"

definition value_open ::
    "(TopologyPair \<Rightarrow> int32 option) \<Rightarrow> string \<Rightarrow> (string, int32) gomap \<Rightarrow> string \<Rightarrow> bool" where
  "value_open c key pol v \<longleftrightarrow> (\<exists>r. glookup pol v = Some r \<and> \<not> reached c key v r)"

lemma policy_reached_Nil [simp]: "policy_reached c key []"
  by (simp add: policy_reached_def)

lemma policy_reached_Cons [simp]:
  "policy_reached c key ((v, r) # pol) \<longleftrightarrow> reached c key v r \<and> policy_reached c key pol"
  by (simp add: policy_reached_def)

lemma reached_counts:
  "reached (counts h st) key v r \<longleftrightarrow>
     (case glookup (TpPairToMatchNum st) (topo_pair key v) of
        None \<Rightarrow> False | Some a \<Rightarrow> \<not> load h a <s r)"
  by (auto simp: reached_def counts_def word_sless_alt split: option.split)

lemma checkPolicyRequirementReached_iff:
  "checkPolicyRequirementReached h key pol (TpPairToMatchNum st) \<longleftrightarrow>
     policy_reached (counts h st) key pol"
  by (induction pol) (auto simp: reached_counts split: option.splits if_splits)

lemma checkTopoValueReached_iff:
  "checkTopoValueReached h key v pol (TpPairToMatchNum st) \<longleftrightarrow> \<not> value_open (counts h st) key pol v"
  by (simp add: checkTopoValueReached_def value_open_def reached_counts split: option.split)

lemma policy_reached_lookup:
  "gmap_ok pol \<Longrightarrow> policy_reached c key pol \<longleftrightarrow> (\<forall>v r. glookup pol v = Some r \<longrightarrow> reached c key v r)"
  by (auto simp: policy_reached_def gmem_iff)

section \<open>Filter\<close>

text \<open>The data that \<open>Filter\<close> works on once it has passed its early returns.\<close>

definition filter_inputs ::
    "'cs framework \<Rightarrow> TopologyScheduling \<Rightarrow> 'cs \<Rightarrow> pod \<Rightarrow> node_info \<Rightarrow> PreFilterState \<Rightarrow> node
       \<Rightarrow> TopologySchedulingPolicy \<Rightarrow> bool" where
  "filter_inputs fw ts cs p ni st nd tsp \<longleftrightarrow>
     getPreFilterState fw cs = Inr (Some st) \<and> Node ni = Some nd
     \<and> (\<exists>name. mget (pod_Labels p) TopologySchedulingLabelKey = Some name
          \<and> get_policy (topologyPolicyLister ts) (pod_Namespace p) name = Inr tsp)"

definition filter_verdict ::
    "(TopologyPair \<Rightarrow> int32 option) \<Rightarrow> PreFilterState \<Rightarrow> pod \<Rightarrow> node \<Rightarrow> string \<Rightarrow> status option" where
  "filter_verdict c st p nd key =
     (if \<not> Selector (Constraint st) (pod_Labels p)
      then Some (NewStatus Unschedulable ErrReasonConstraintsNotMatch)
      else (case mget (node_Labels nd) key of
        None \<Rightarrow> Some (NewStatus UnschedulableAndUnresolvable ErrReasonNodeLabelNotMatch)
      | Some v \<Rightarrow>
          if policy_reached c key (SchedulePolicyMap (Constraint st))
             \<or> value_open c key (SchedulePolicyMap (Constraint st)) v
          then None else Some (NewStatus Unschedulable ErrReasonConstraintsNotMatch)))"

lemma Filter_eq:
  "filter_inputs fw ts cs p ni st nd tsp \<Longrightarrow>
     Filter fw ts h cs p ni = Ret (filter_verdict (counts h st) st p nd (TopologyKey (Spec tsp)))"
  by (auto simp: Filter_def filter_inputs_def podRequireTopologyScheduling_def filter_verdict_def
      Let_def checkPolicyRequirementReached_iff checkTopoValueReached_iff split: option.split)

lemma filter_verdict_success:
  "is_success (filter_verdict c st p nd key) \<longleftrightarrow>
     Selector (Constraint st) (pod_Labels p)
     \<and> (\<exists>v. mget (node_Labels nd) key = Some v
          \<and> (policy_reached c key (SchedulePolicyMap (Constraint st))
             \<or> value_open c key (SchedulePolicyMap (Constraint st)) v))"
  by (auto simp: filter_verdict_def split: option.split)

lemma Filter_unlabelled: "\<not> podRequireTopologyScheduling p \<Longrightarrow> Filter fw ts h cs p ni = Ret None"
  by (simp add: Filter_def)

section \<open>PreFilter followed by a read of the cycle state\<close>

lemma getPreFilterState_write:
  "cycle_state_ok fw \<Longrightarrow>
     getPreFilterState fw (cs_write fw cs preFilterStateKey (PreFilterData s)) = Inr s"
  by (simp add: getPreFilterState_def cycle_state_ok_def)

lemma PreFilter_Ret:
  assumes "inputs_of fw ts p tsp nodes sel" "nodes_live nodes" "pieces_ok fw" "heap_ok h"
    and "cycle_state_ok fw"
  obtains st h' cs' where "PreFilter fw ts cs p h = Ret (h', cs', None)"
    "getPreFilterState fw cs' = Inr (Some st)"
    "state_ok h' st" "counts h' st = expected_counts fw p (TopologyKey (Spec tsp)) sel nodes"
    "Constraint st = \<lparr>c_TopologyKey = TopologyKey (Spec tsp),
       SchedulePolicyMap = CovertPolicy (DeployPlacement (Spec tsp)), Selector = sel\<rparr>"
    "st_ScheduleStrategy st = ScheduleStrategy (Spec tsp)"
proof -
  obtain st h' where c: "calculatePreFilterStateCache fw ts p h = Ret (h', Inr (Some st))"
    "state_ok h' st" "counts h' st = expected_counts fw p (TopologyKey (Spec tsp)) sel nodes"
    "Constraint st = \<lparr>c_TopologyKey = TopologyKey (Spec tsp),
       SchedulePolicyMap = CovertPolicy (DeployPlacement (Spec tsp)), Selector = sel\<rparr>"
    "st_ScheduleStrategy st = ScheduleStrategy (Spec tsp)"
    using calculate_Ret [OF assms(1-4)] by blast
  have "PreFilter fw ts cs p h
      = Ret (h', cs_write fw cs preFilterStateKey (PreFilterData (Some st)), None)"
    using inputs_of_require [OF assms(1)] by (simp add: PreFilter_def c(1))
  then show ?thesis using that getPreFilterState_write [OF assms(5)] c(2-5) by blast
qed

lemma PreFilter_panic:
  assumes "inputs_of fw ts p tsp nodes sel" "\<not> nodes_live nodes" "pieces_ok fw"
  shows "PreFilter fw ts cs p h = Panic NilDeref"
  using inputs_of_require [OF assms(1)] calculate_panic [OF assms]
  by (simp add: PreFilter_def)

section \<open>Undoing an update\<close>

definition state_ptr_ok :: "heap \<Rightarrow> PreFilterState option \<Rightarrow> bool" where
  "state_ptr_ok h s \<longleftrightarrow> (case s of None \<Rightarrow> True | Some st \<Rightarrow> state_ok h st)"

lemma updateWithPod_undo:
  assumes "state_ptr_ok h s" "updateWithPod s u p nd d h = Ret h'"
  shows "updateWithPod s u p nd (- d) h' = Ret h"
proof (cases s)
  case (Some st)
  have "a \<in> dom (cells h)" if "glookup (TpPairToMatchNum st) q = Some a" for q a
    using assms(1) counter_in [OF that] by (auto simp: Some state_ptr_ok_def state_ok_def)
  then show ?thesis
    using assms(2) add_int32_0 [of _ h]
    by (auto simp: Some updateWithPod_cases add_int32_add split: option.splits)
qed (use assms in simp)

text \<open>All four state-changing extension points end in \<open>updateWithPod\<close> on the stored state.\<close>

lemma Reserve_cases:
  "Reserve fw ts cs p name h = Ret (h', r) \<longleftrightarrow>
     (\<not> podRequireTopologyScheduling p \<and> h' = h \<and> r = NewStatus Success '''')
     \<or> (podRequireTopologyScheduling p \<and>
         ((\<exists>e. getPreFilterState fw cs = Inl e \<and> h' = h \<and> r = AsStatus e)
          \<or> (\<exists>s e. getPreFilterState fw cs = Inr s \<and> snapshot_Get ts name = Inl e
               \<and> h' = h \<and> r = AsStatus e)
          \<or> (\<exists>s ni. getPreFilterState fw cs = Inr s \<and> snapshot_Get ts name = Inr ni
               \<and> updateWithPod s p p (node_of ni) 1 h = Ret h' \<and> r = NewStatus Success '''')))"
  by (auto simp: Reserve_def go_bind_Ret_iff split: sum.splits)

lemma Unreserve_eq:
  "Unreserve fw ts cs p name h =
     (case getPreFilterState fw cs of Inl _ \<Rightarrow> Ret h | Inr s \<Rightarrow>
       (case snapshot_Get ts name of Inl _ \<Rightarrow> Ret h | Inr ni \<Rightarrow>
          if podRequireTopologyScheduling p then updateWithPod s p p (node_of ni) (- 1) h else Ret h))"
  by (simp add: Unreserve_def split: sum.split)

lemma Unreserve_Reserve:
  assumes "\<forall>s. getPreFilterState fw cs = Inr s \<longrightarrow> state_ptr_ok h s"
    and "Reserve fw ts cs p name h = Ret (h', r)"
  shows "Unreserve fw ts cs p name h' = Ret h"
  using assms by (auto simp: Reserve_cases Unreserve_eq dest: updateWithPod_undo split: sum.splits)

lemma RemovePod_AddPod:
  assumes "\<forall>s. getPreFilterState fw cs = Inr s \<longrightarrow> state_ptr_ok h s"
    and "AddPod fw cs p q ni h = Ret (h', r)"
  shows "RemovePod fw cs p q ni h' = Ret (h, r)"
  using assms
  by (auto simp: AddPod_def RemovePod_def go_bind_Ret_iff dest!: updateWithPod_undo split: sum.splits if_splits)

end
