(* ===== verification/Scheduling_Cycle.thy ===== *)
theory Scheduling_Cycle
  imports Plugin_Laws
begin

text \<open>
  The cluster as a state machine whose steps are scheduling cycles of the plugin: PreFilter
  on a snapshot of the current nodes, Filter on a chosen node, and the binding of the pod to
  that node. The policy, the lister and the framework stay fixed along a run. The component
  lemma is the quota invariant: as long as the policy is not fully reached no topology value
  exceeds its replicas.
\<close>

section \<open>Steps\<close>

definition plugin_at :: "indexer \<Rightarrow> node_info list \<Rightarrow> TopologyScheduling" where
  "plugin_at idx nodes = \<lparr>snapshot_List = Inr nodes,
     snapshot_Get = (\<lambda>name. case find (\<lambda>n. map_option node_Name (Node n) = Some name) nodes of
        None \<Rightarrow> Inl (ExtError ''nodeinfo not found'')
      | Some n \<Rightarrow> Inr (Some n)),
     topologyPolicyLister = idx\<rparr>"

text \<open>Binding a pod appends it to the pods of the node.\<close>

definition bind_pod :: "node_info list \<Rightarrow> nat \<Rightarrow> pod \<Rightarrow> node_info list" where
  "bind_pod nodes i p = nodes[i := (nodes ! i)\<lparr>Pods := Pods (nodes ! i) @ [Some p]\<rparr>]"

text \<open>
  \<open>governed\<close>: the pod carries the name of the policy \<open>tsp\<close> in the namespace \<open>ns\<close>.
  The two rules: a governed pod that PreFilter and Filter let through (the node also passes
  the pod's own selector and affinity, as the scheduler's NodeAffinity filter requires), and
  any pod that the policy does not count.
\<close>

definition governed :: "indexer \<Rightarrow> TopologySchedulingPolicy \<Rightarrow> string \<Rightarrow> pod \<Rightarrow> bool" where
  "governed idx tsp ns p \<longleftrightarrow> pod_Namespace p = ns \<and> DeletionTimestamp p = None
     \<and> (\<exists>name. mget (pod_Labels p) TopologySchedulingLabelKey = Some name
          \<and> get_policy idx ns name = Inr tsp)"

inductive sched_step ::
    "'cs framework \<Rightarrow> indexer \<Rightarrow> TopologySchedulingPolicy \<Rightarrow> selector \<Rightarrow> string
       \<Rightarrow> node_info list \<Rightarrow> node_info list \<Rightarrow> bool"
  for fw idx tsp sel ns where
  schedule: "\<lbrakk>governed idx tsp ns p; heap_ok h;
     PreFilter fw (plugin_at idx nodes) cs p h = Ret (h', cs', None);
     i < length nodes; Node (nodes ! i) = Some nd;
     PodMatchesNodeSelectorAndAffinityTerms fw p nd;
     Filter fw (plugin_at idx nodes) h' cs' p (nodes ! i) = Ret r; is_success r\<rbrakk>
     \<Longrightarrow> sched_step fw idx tsp sel ns nodes (bind_pod nodes i p)"
| other: "\<lbrakk>\<not> counted sel ns (Some p); i < length nodes\<rbrakk>
     \<Longrightarrow> sched_step fw idx tsp sel ns nodes (bind_pod nodes i p)"

inductive_cases sched_stepE: "sched_step fw idx tsp sel ns nodes nodes'"

inductive sched_run ::
    "'cs framework \<Rightarrow> indexer \<Rightarrow> TopologySchedulingPolicy \<Rightarrow> selector \<Rightarrow> string
       \<Rightarrow> node_info list \<Rightarrow> node_info list \<Rightarrow> bool"
  for fw idx tsp sel ns where
  start: "sched_run fw idx tsp sel ns nodes nodes"
| step: "sched_run fw idx tsp sel ns nodes nodes' \<Longrightarrow> sched_step fw idx tsp sel ns nodes' nodes''
     \<Longrightarrow> sched_run fw idx tsp sel ns nodes nodes''"

section \<open>Counting along a run\<close>

definition pods_total :: "selector \<Rightarrow> string \<Rightarrow> node_info list \<Rightarrow> int" where
  "pods_total sel ns nodes = (\<Sum>n \<leftarrow> nodes. countPodsMatchSelector (Pods n) sel ns)"

lemma zone_of_bind [simp]: "zone_of key (n\<lparr>Pods := ps\<rparr>) = zone_of key n"
  by (simp add: zone_of_def)

lemma sum_list_update_int:
  fixes xs :: "int list"
  shows "i < length xs \<Longrightarrow> sum_list (xs[i := y]) = sum_list xs - xs ! i + y"
  by (induction xs arbitrary: i) (auto split: nat.split)

lemma zone_count_bind:
  assumes "i < length nodes"
  shows "zone_count key sel ns (bind_pod nodes i p) v = zone_count key sel ns nodes v
     + (if zone_of key (nodes ! i) = v \<and> counted sel ns (Some p) then 1 else 0)"
  using assms by (simp add: zone_count_def bind_pod_def map_update sum_list_update_int)

lemma pods_total_bind:
  assumes "i < length nodes"
  shows "pods_total sel ns (bind_pod nodes i p)
     = pods_total sel ns nodes + (if counted sel ns (Some p) then 1 else 0)"
  using assms by (simp add: pods_total_def bind_pod_def map_update sum_list_update_int)

lemma zone_count_le_total: "zone_count key sel ns nodes v \<le> pods_total sel ns nodes"
  unfolding zone_count_def pods_total_def by (rule sum_list_mono) simp

lemma pods_total_zones:
  assumes "finite Z" "zone_of key ` set nodes \<subseteq> Z"
  shows "pods_total sel ns nodes = (\<Sum>v \<in> Z. zone_count key sel ns nodes v)"
  using assms(2)
  by (induction nodes) (simp_all add: pods_total_def sum.distrib assms(1))

section \<open>The quota invariant\<close>

definition desired :: "TopologySchedulingPolicy \<Rightarrow> string \<Rightarrow> int" where
  "desired tsp v = (case glookup (CovertPolicy (DeployPlacement (Spec tsp))) v of
     None \<Rightarrow> 0 | Some r \<Rightarrow> sint r)"

definition quota_inv :: "TopologySchedulingPolicy \<Rightarrow> selector \<Rightarrow> string \<Rightarrow> node_info list \<Rightarrow> bool" where
  "quota_inv tsp sel ns nodes \<longleftrightarrow>
     (\<forall>v. zone_count (TopologyKey (Spec tsp)) sel ns nodes v \<le> desired tsp v)
     \<or> (\<forall>v r. glookup (CovertPolicy (DeployPlacement (Spec tsp))) v = Some r
          \<longrightarrow> sint r \<le> zone_count (TopologyKey (Spec tsp)) sel ns nodes v)"

lemma PreFilter_success_live:
  assumes "PreFilter fw ts cs p h = Ret (h', cs', None)" "inputs_of fw ts p tsp nodes sel"
    and "pieces_ok fw"
  shows "nodes_live nodes"
  using assms PreFilter_panic by fastforce

text \<open>What a successful cycle tells about the numbers before it.\<close>

lemma accepted_open_or_full:
  assumes gov: "governed idx tsp ns p" and hok: "heap_ok h"
    and pre: "PreFilter fw (plugin_at idx nodes) cs p h = Ret (h', cs', None)"
    and i: "i < length nodes" "Node (nodes ! i) = Some nd"
    and adm: "PodMatchesNodeSelectorAndAffinityTerms fw p nd"
    and fil: "Filter fw (plugin_at idx nodes) h' cs' p (nodes ! i) = Ret r" "is_success r"
    and sel: "LabelSelectorAsSelector fw (spec_LabelSelector (Spec tsp)) = Inr sel"
    and env: "cycle_state_ok fw" "pieces_ok fw"
    and small: "pods_total sel ns nodes < 2 ^ 31"
  defines "pol \<equiv> CovertPolicy (DeployPlacement (Spec tsp))"
  defines "cnt \<equiv> zone_count (TopologyKey (Spec tsp)) sel ns nodes"
  obtains v where "zone_of (TopologyKey (Spec tsp)) (nodes ! i) = v" "counted sel ns (Some p)"
    "(\<forall>w q. glookup pol w = Some q \<longrightarrow> sint q \<le> cnt w)
     \<or> (\<exists>q. glookup pol v = Some q \<and> cnt v < sint q)"
proof -
  let ?key = "TopologyKey (Spec tsp)" and ?ts = "plugin_at idx nodes"
  let ?c = "expected_counts fw p ?key sel nodes"
  have inp: "inputs_of fw ?ts p tsp nodes sel"
    using gov sel by (auto simp: inputs_of_def plugin_at_def governed_def)
  have live: "nodes_live nodes" using PreFilter_success_live [OF pre inp env(2)] .
  obtain st where st: "getPreFilterState fw cs' = Inr (Some st)" "counts h' st = ?c"
    "Constraint st = \<lparr>c_TopologyKey = ?key, SchedulePolicyMap = pol, Selector = sel\<rparr>"
    using PreFilter_Ret [OF inp live env(2) hok env(1), of cs] pre by (auto simp: pol_def)
  have "filter_inputs fw ?ts cs' p (nodes ! i) st nd tsp"
    using st(1) i(2) gov by (auto simp: filter_inputs_def governed_def plugin_at_def)
  from Filter_eq [OF this, of h'] fil have "is_success (filter_verdict ?c st p nd ?key)"
    by (simp add: st(2))
  then obtain v where v: "sel (pod_Labels p)" "mget (node_Labels nd) ?key = Some v"
    "policy_reached ?c ?key pol \<or> value_open ?c ?key pol v"
    by (auto simp: filter_verdict_success st(3))
  have val: "sint (int32_of (cnt w)) = cnt w" for w
    using zone_count_le_total [of ?key sel ns nodes w] small zone_count_nonneg [of ?key sel ns nodes w]
    unfolding cnt_def by (intro sint_int32_of) linarith+
  have ns: "pod_Namespace p = ns" using gov by (simp add: governed_def)
  have rch: "reached ?c ?key w q \<longleftrightarrow> tracked fw p ?key nodes w \<and> sint q \<le> cnt w" for w q
    using val [of w] by (auto simp: reached_def expected_counts_def cnt_def ns)
  have "admits fw p ?key v (nodes ! i)" using i(2) adm v(2) by (simp add: admits_def)
  then have tr: "tracked fw p ?key nodes v" using i(1) by (auto simp: tracked_def)
  show ?thesis
  proof (rule that)
    show "zone_of ?key (nodes ! i) = v" using i(2) v(2) by (simp add: zone_of_def)
    show "counted sel ns (Some p)" using gov v(1) by (simp add: counted_def governed_def)
    show "(\<forall>w q. glookup pol w = Some q \<longrightarrow> sint q \<le> cnt w)
     \<or> (\<exists>q. glookup pol v = Some q \<and> cnt v < sint q)"
      using v(3) tr by (auto simp: policy_reached_lookup pol_def value_open_def rch)
  qed
qed

lemma sched_step_mono:
  "sched_step fw idx tsp sel ns nodes nodes' \<Longrightarrow>
     zone_count key sel ns nodes v \<le> zone_count key sel ns nodes' v
     \<and> pods_total sel ns nodes \<le> pods_total sel ns nodes'"
  by (elim sched_stepE) (simp_all add: zone_count_bind pods_total_bind)

lemma sched_step_quota:
  assumes step: "sched_step fw idx tsp sel ns nodes nodes'"
    and sel: "LabelSelectorAsSelector fw (spec_LabelSelector (Spec tsp)) = Inr sel"
    and env: "cycle_state_ok fw" "pieces_ok fw"
    and small: "pods_total sel ns nodes < 2 ^ 31"
    and inv: "quota_inv tsp sel ns nodes"
  shows "quota_inv tsp sel ns nodes'"
  using step
proof cases
  case (schedule p h cs h' cs' i nd r)
  let ?key = "TopologyKey (Spec tsp)" and ?pol = "CovertPolicy (DeployPlacement (Spec tsp))"
  obtain v where v: "zone_of ?key (nodes ! i) = v" "counted sel ns (Some p)"
    "(\<forall>w q. glookup ?pol w = Some q \<longrightarrow> sint q \<le> zone_count ?key sel ns nodes w)
     \<or> (\<exists>q. glookup ?pol v = Some q \<and> zone_count ?key sel ns nodes v < sint q)"
    using accepted_open_or_full [OF schedule(2,3,4,5,6,7,8,9) sel env small] by blast
  have cnt: "zone_count ?key sel ns nodes' w = zone_count ?key sel ns nodes w + (if w = v then 1 else 0)" for w
    using schedule(1,5) v(1,2) by (auto simp: zone_count_bind)
  from v(3) show ?thesis
  proof
    assume "\<forall>w q. glookup ?pol w = Some q \<longrightarrow> sint q \<le> zone_count ?key sel ns nodes w"
    then show ?thesis unfolding quota_inv_def cnt by fastforce
  next
    assume "\<exists>q. glookup ?pol v = Some q \<and> zone_count ?key sel ns nodes v < sint q"
    then obtain q where q: "glookup ?pol v = Some q" "zone_count ?key sel ns nodes v < sint q" by blast
    then have "\<not> (\<forall>w q. glookup ?pol w = Some q \<longrightarrow> sint q \<le> zone_count ?key sel ns nodes w)"
      by (meson linorder_not_less)
    then have "\<forall>w. zone_count ?key sel ns nodes w \<le> desired tsp w"
      using inv unfolding quota_inv_def by blast
    moreover have "desired tsp v = sint q" using q(1) by (simp add: desired_def)
    ultimately show ?thesis using q(2) unfolding quota_inv_def cnt by auto
  qed
next
  case (other p i)
  then show ?thesis using inv by (simp add: quota_inv_def zone_count_bind)
qed

lemma sched_run_total_mono:
  "sched_run fw idx tsp sel ns nodes nodes' \<Longrightarrow> pods_total sel ns nodes \<le> pods_total sel ns nodes'"
proof (induction rule: sched_run.induct)
  case (step nodes nodes' nodes'')
  then show ?case using sched_step_mono [OF step.hyps(2)] by (meson order_trans)
qed simp

lemma sched_run_quota:
  assumes "sched_run fw idx tsp sel ns nodes nodes'"
    and "LabelSelectorAsSelector fw (spec_LabelSelector (Spec tsp)) = Inr sel"
    and "cycle_state_ok fw" "pieces_ok fw"
    and "pods_total sel ns nodes' < 2 ^ 31"
    and "quota_inv tsp sel ns nodes"
  shows "quota_inv tsp sel ns nodes'"
  using assms
proof (induction rule: sched_run.induct)
  case (step nodes nodes' nodes'')
  have "pods_total sel ns nodes' < 2 ^ 31"
    using sched_step_mono [OF step.hyps(2)] step.prems(4) by (meson le_less_trans)
  with step show ?case by (blast intro: sched_step_quota)
qed simp

section \<open>Exact placement\<close>

definition policy_total :: "TopologySchedulingPolicy \<Rightarrow> int" where
  "policy_total tsp = (\<Sum>(v, r) \<leftarrow> CovertPolicy (DeployPlacement (Spec tsp)). sint r)"

lemma policy_total_sum:
  "policy_total tsp = (\<Sum>v \<in> dom (glookup (CovertPolicy (DeployPlacement (Spec tsp)))). desired tsp v)"
proof -
  let ?pol = "CovertPolicy (DeployPlacement (Spec tsp))"
  have ok: "distinct (map fst ?pol)" using CovertPolicy_ok by (simp add: gmap_ok_def)
  have "policy_total tsp = sum_list (map (\<lambda>(v, r). desired tsp v) ?pol)"
    unfolding policy_total_def
    by (rule arg_cong [where f = sum_list], rule map_cong)
       (auto simp: desired_def gmem_iff)
  also have "\<dots> = sum_list (map (desired tsp) (map fst ?pol))"
    by (simp add: comp_def split_def)
  also have "\<dots> = (\<Sum>v \<in> set (map fst ?pol). desired tsp v)"
    using ok by (rule sum_list_distinct_conv_sum_set)
  finally show ?thesis by (simp add: glookup_def [abs_def] dom_map_of_conv_image_fst)
qed

text \<open>Both totals as sums over one finite set of values.\<close>

lemma totals:
  obtains Z where "finite Z" "v \<in> Z" "pods_total sel ns nodes = sum (zone_count (TopologyKey (Spec tsp)) sel ns nodes) Z"
    "policy_total tsp = sum (desired tsp) Z"
proof -
  let ?D = "dom (glookup (CovertPolicy (DeployPlacement (Spec tsp))))"
  let ?Z = "insert v (?D \<union> zone_of (TopologyKey (Spec tsp)) ` set nodes)"
  have "finite ?D" by (simp add: dom_CovertPolicy)
  then have fin: "finite ?Z" by simp
  have "desired tsp w = 0" if "w \<notin> ?D" for w
    using that by (auto simp: desired_def domIff)
  then have "policy_total tsp = sum (desired tsp) ?Z"
    unfolding policy_total_sum by (intro sum.mono_neutral_left [OF fin]) auto
  moreover have "pods_total sel ns nodes = sum (zone_count (TopologyKey (Spec tsp)) sel ns nodes) ?Z"
    by (rule pods_total_zones [OF fin]) auto
  ultimately show ?thesis using fin that by blast
qed

lemma quota_exact:
  assumes inv: "quota_inv tsp sel ns nodes" and nonneg: "\<And>v. 0 \<le> desired tsp v"
    and le: "pods_total sel ns nodes \<le> policy_total tsp"
  shows "zone_count (TopologyKey (Spec tsp)) sel ns nodes v \<le> desired tsp v"
    and "pods_total sel ns nodes = policy_total tsp \<Longrightarrow>
      zone_count (TopologyKey (Spec tsp)) sel ns nodes v = desired tsp v"
proof -
  let ?key = "TopologyKey (Spec tsp)"
  let ?cnt = "zone_count ?key sel ns nodes"
  obtain Z where Z: "finite Z" "v \<in> Z" "pods_total sel ns nodes = sum ?cnt Z" "policy_total tsp = sum (desired tsp) Z"
    by (rule totals)
  have eq: "?cnt v = desired tsp v"
    if "\<forall>w. ?cnt w \<le> desired tsp w" "sum ?cnt Z = sum (desired tsp) Z"
  proof (rule ccontr)
    assume "?cnt v \<noteq> desired tsp v"
    then have "?cnt v < desired tsp v" using that(1) by (simp add: less_le)
    then have "sum ?cnt Z < sum (desired tsp) Z"
      using that(1) by (intro sum_strict_mono_ex1 [OF Z(1)]) (use Z(2) in auto)
    then show False using that(2) by simp
  qed
  have full: "?cnt v = desired tsp v" if "\<forall>w. desired tsp w \<le> ?cnt w"
  proof (rule ccontr)
    assume "?cnt v \<noteq> desired tsp v"
    then have "desired tsp v < ?cnt v" using that by (metis less_le)
    then have "sum (desired tsp) Z < sum ?cnt Z"
      using that by (intro sum_strict_mono_ex1 [OF Z(1)]) (use Z(2) in auto)
    then show False using le Z(3,4) by simp
  qed
  have below: "\<forall>w. desired tsp w \<le> ?cnt w"
    if "\<forall>w q. glookup (CovertPolicy (DeployPlacement (Spec tsp))) w = Some q \<longrightarrow> sint q \<le> ?cnt w"
    using that by (auto simp: desired_def split: option.split)
  show "?cnt v \<le> desired tsp v"
    using inv full below unfolding quota_inv_def by (metis order_refl)
  show "?cnt v = desired tsp v" if "pods_total sel ns nodes = policy_total tsp"
    using inv full below eq that Z(3,4) unfolding quota_inv_def by metis
qed

end
