(* ===== verification/Recount.thy ===== *)
theory Recount
  imports Scheduling_Cycle
begin

text \<open>
  The updates of the cycle state against a recount. \<open>expected_counts\<close> is what PreFilter
  computes on a snapshot; the lemmas compare it with the state that AddPod, RemovePod and
  Reserve produce from the state of another snapshot, also for several pods taken off a node
  one after the other, and they turn the decision of Filter into arithmetic on the numbers of
  pods.
\<close>

section \<open>The counts of a changed snapshot\<close>

lemma map_Node_bind [simp]: "map Node (bind_pod nodes i q) = map Node nodes"
  by (cases "i < length nodes")
     (simp_all add: bind_pod_def map_update list_update_same_conv list_update_beyond)

lemma tracked_nodes: "tracked fw p key nodes v \<longleftrightarrow>
    (\<exists>n \<in> set (map Node nodes). \<exists>nd. n = Some nd
       \<and> PodMatchesNodeSelectorAndAffinityTerms fw p nd \<and> mget (node_Labels nd) key = Some v)"
  by (auto simp: tracked_def admits_def)

lemma tracked_bind [simp]: "tracked fw p key (bind_pod nodes i q) v = tracked fw p key nodes v"
  unfolding tracked_nodes by simp

lemma nodes_live_bind [simp]: "nodes_live (bind_pod nodes i q) = nodes_live nodes"
proof -
  have "nodes_live ns \<longleftrightarrow> None \<notin> set (map Node ns)" for ns
    unfolding nodes_live_def set_map image_iff by metis
  then show ?thesis by (simp only: map_Node_bind)
qed

lemma admits_tracked: "i < length nodes \<Longrightarrow> admits fw p key v (nodes ! i) \<Longrightarrow> tracked fw p key nodes v"
  unfolding tracked_def by (meson nth_mem)

lemma admits_zone: "admits fw p key v n \<Longrightarrow> zone_of key n = v"
  by (auto simp: admits_def zone_of_def)

lemma expected_bind:
  assumes "i < length nodes" "zone_of key (nodes ! i) = v" "tracked fw p key nodes v"
  shows "expected_counts fw p key sel (bind_pod nodes i q) =
    (if counted sel (pod_Namespace p) (Some q)
     then (expected_counts fw p key sel nodes)
       (topo_pair key v \<mapsto> int32_of (zone_count key sel (pod_Namespace p) nodes v) + 1)
     else expected_counts fw p key sel nodes)"
  using assms
  by (auto simp: fun_eq_iff expected_counts_def zone_count_bind int32_of_add) (simp_all add: int32_of_def)

section \<open>updateWithPod on a computed state\<close>

definition computed ::
    "'cs framework \<Rightarrow> pod \<Rightarrow> string \<Rightarrow> selector \<Rightarrow> node_info list \<Rightarrow> heap \<Rightarrow> PreFilterState \<Rightarrow> bool" where
  "computed fw p key sel nodes h st \<longleftrightarrow> state_ok h st
     \<and> counts h st = expected_counts fw p key sel nodes
     \<and> c_TopologyKey (Constraint st) = key \<and> Selector (Constraint st) = sel"

lemma PreFilter_computed:
  assumes "inputs_of fw ts p tsp nodes sel" "nodes_live nodes" "pieces_ok fw" "heap_ok h"
    and "cycle_state_ok fw"
  obtains st h' cs' where "PreFilter fw ts cs p h = Ret (h', cs', None)"
    "getPreFilterState fw cs' = Inr (Some st)"
    "computed fw p (TopologyKey (Spec tsp)) sel nodes h' st"
    "SchedulePolicyMap (Constraint st) = CovertPolicy (DeployPlacement (Spec tsp))"
proof -
  obtain st h' cs' where "PreFilter fw ts cs p h = Ret (h', cs', None)"
    "getPreFilterState fw cs' = Inr (Some st)"
    "state_ok h' st" "counts h' st = expected_counts fw p (TopologyKey (Spec tsp)) sel nodes"
    "Constraint st = \<lparr>c_TopologyKey = TopologyKey (Spec tsp),
       SchedulePolicyMap = CovertPolicy (DeployPlacement (Spec tsp)), Selector = sel\<rparr>"
    using PreFilter_Ret [OF assms, of cs] by blast
  then show ?thesis using that by (simp add: computed_def)
qed

lemma updateWithPod_computed:
  assumes c: "computed fw p key sel nodes h st" and n: "Node ni = Some nd"
    and v: "mget (node_Labels nd) key = Some v" and t: "tracked fw p key nodes v"
  obtains h' where "updateWithPod (Some st) q p (Node ni) d h = Ret h'"
    "counts h' st = (if pod_Namespace q = pod_Namespace p \<and> sel (pod_Labels q)
       then (expected_counts fw p key sel nodes)
         (topo_pair key v \<mapsto> int32_of (zone_count key sel (pod_Namespace p) nodes v) + d)
       else expected_counts fw p key sel nodes)"
proof -
  have st: "state_ok h st" "counts h st = expected_counts fw p key sel nodes"
    "c_TopologyKey (Constraint st) = key" "Selector (Constraint st) = sel"
    using c by (simp_all add: computed_def)
  have e: "counts h st (topo_pair key v) = Some (int32_of (zone_count key sel (pod_Namespace p) nodes v))"
    using st(2) t by (simp add: expected_counts_def)
  have "\<exists>h'. updateWithPod (Some st) q p (Node ni) d h = Ret h'"
    using e v n st(3,4)
    by (auto simp: updateWithPod_cases relevant_def counts_def split: option.splits)
  then obtain h' where h': "updateWithPod (Some st) q p (Node ni) d h = Ret h'" by blast
  from updateWithPod_refines(1) [OF st(1) h'] show ?thesis
    using e v n st that [OF h'] by (auto simp: relevant_def bump_def split: if_splits)
qed

text \<open>Charging a live pod to its node gives the counts of the snapshot that holds it.\<close>

lemma updateWithPod_recount:
  assumes c: "computed fw p key sel nodes h st" and i: "i < length nodes"
    and a: "admits fw p key v (nodes ! i)" and q: "DeletionTimestamp q = None"
  obtains h' where "updateWithPod (Some st) q p (Node (nodes ! i)) 1 h = Ret h'"
    "counts h' st = expected_counts fw p key sel (bind_pod nodes i q)"
proof -
  obtain nd where nd: "Node (nodes ! i) = Some nd" "mget (node_Labels nd) key = Some v"
    using a by (auto simp: admits_def)
  have t: "tracked fw p key nodes v" using admits_tracked i a by blast
  from updateWithPod_computed [OF c nd t, of q 1] obtain h' where
    h': "updateWithPod (Some st) q p (Node (nodes ! i)) 1 h = Ret h'"
    "counts h' st = (if pod_Namespace q = pod_Namespace p \<and> sel (pod_Labels q)
       then (expected_counts fw p key sel nodes)
         (topo_pair key v \<mapsto> int32_of (zone_count key sel (pod_Namespace p) nodes v) + 1)
       else expected_counts fw p key sel nodes)" by blast
  have "counts h' st = expected_counts fw p key sel (bind_pod nodes i q)"
    using h'(2) q by (simp add: expected_bind [OF i admits_zone [OF a] t] counted_def)
  with h'(1) show ?thesis by (rule that)
qed

text \<open>Discharging a live pod from its node gives the counts of the snapshot without it.\<close>

lemma expected_unbind:
  assumes "i < length nodes" "zone_of key (nodes ! i) = v" "tracked fw p key nodes v"
    and "counted sel (pod_Namespace p) (Some q)"
  shows "(expected_counts fw p key sel (bind_pod nodes i q))
      (topo_pair key v \<mapsto> int32_of (zone_count key sel (pod_Namespace p) (bind_pod nodes i q) v) - 1)
    = expected_counts fw p key sel nodes"
proof -
  have one: "int32_of 1 = 1" by (simp add: int32_of_def)
  have "(expected_counts fw p key sel nodes)(topo_pair key v \<mapsto>
        int32_of (zone_count key sel (pod_Namespace p) nodes v)) = expected_counts fw p key sel nodes"
    using assms(3) by (auto simp: fun_eq_iff expected_counts_def)
  then show ?thesis
    unfolding expected_bind [OF assms(1-3)] zone_count_bind [OF assms(1)] assms(2)
    using assms(4) by (simp add: int32_of_add one)
qed

lemma updateWithPod_unbind:
  assumes c: "computed fw p key sel (bind_pod nodes i q) h st" and i: "i < length nodes"
    and a: "admits fw p key v (nodes ! i)" and q: "DeletionTimestamp q = None"
  obtains h' where "updateWithPod (Some st) q p (Node (bind_pod nodes i q ! i)) (- 1) h = Ret h'"
    "counts h' st = expected_counts fw p key sel nodes"
proof -
  obtain nd where nd: "Node (nodes ! i) = Some nd" "mget (node_Labels nd) key = Some v"
    using a by (auto simp: admits_def)
  have n: "Node (bind_pod nodes i q ! i) = Some nd" using nd(1) i by (simp add: bind_pod_def)
  have t: "tracked fw p key nodes v" using admits_tracked [OF i a] .
  have t': "tracked fw p key (bind_pod nodes i q) v" using t by simp
  note z = admits_zone [OF a]
  obtain h' where h': "updateWithPod (Some st) q p (Node (bind_pod nodes i q ! i)) (- 1) h = Ret h'"
    "counts h' st = (if pod_Namespace q = pod_Namespace p \<and> sel (pod_Labels q)
       then (expected_counts fw p key sel (bind_pod nodes i q))
         (topo_pair key v \<mapsto> int32_of (zone_count key sel (pod_Namespace p) (bind_pod nodes i q) v) + (- 1))
       else expected_counts fw p key sel (bind_pod nodes i q))"
    using updateWithPod_computed [OF c n nd(2) t'] .
  have "counts h' st = expected_counts fw p key sel nodes"
  proof (cases "counted sel (pod_Namespace p) (Some q)")
    case True
    then show ?thesis using expected_unbind [OF i z t True] h'(2) by (simp add: counted_def)
  next
    case False
    then have "\<not> (pod_Namespace q = pod_Namespace p \<and> sel (pod_Labels q))"
      using q by (simp add: counted_def)
    then have "counts h' st = expected_counts fw p key sel (bind_pod nodes i q)"
      by (simp only: h'(2) if_False)
    also have "\<dots> = expected_counts fw p key sel nodes"
      by (simp only: expected_bind [OF i z t] False if_False)
    finally show ?thesis .
  qed
  with h'(1) show ?thesis by (rule that)
qed

section \<open>Decisions as arithmetic\<close>

lemma reached_expected:
  assumes "zone_count key sel (pod_Namespace p) nodes v < 2 ^ 31"
  shows "reached (expected_counts fw p key sel nodes) key v r \<longleftrightarrow>
    tracked fw p key nodes v \<and> sint r \<le> zone_count key sel (pod_Namespace p) nodes v"
proof -
  have "sint (int32_of (zone_count key sel (pod_Namespace p) nodes v))
      = zone_count key sel (pod_Namespace p) nodes v"
    using assms zone_count_nonneg [of key sel "pod_Namespace p" nodes v]
    by (intro sint_int32_of) linarith+
  then show ?thesis by (auto simp: reached_def expected_counts_def)
qed

definition filter_accepts ::
    "'cs framework \<Rightarrow> pod \<Rightarrow> TopologySchedulingPolicy \<Rightarrow> selector \<Rightarrow> node_info list \<Rightarrow> node \<Rightarrow> bool" where
  "filter_accepts fw p tsp sel nodes nd \<longleftrightarrow>
     (let key = TopologyKey (Spec tsp); pol = glookup (CovertPolicy (DeployPlacement (Spec tsp)));
          cnt = zone_count key sel (pod_Namespace p) nodes; tr = tracked fw p key nodes
      in sel (pod_Labels p) \<and> (\<exists>v. mget (node_Labels nd) key = Some v
        \<and> ((\<forall>w q. pol w = Some q \<longrightarrow> tr w \<and> sint q \<le> cnt w)
           \<or> (\<exists>q. pol v = Some q \<and> (\<not> tr v \<or> cnt v < sint q)))))"

lemma Filter_computed:
  assumes c: "computed fw p (TopologyKey (Spec tsp)) sel nodes h st"
    and pol: "SchedulePolicyMap (Constraint st) = CovertPolicy (DeployPlacement (Spec tsp))"
    and inp: "inputs_of fw ts p tsp nodes0 sel" and st: "getPreFilterState fw cs = Inr (Some st)"
    and small: "\<forall>v. zone_count (TopologyKey (Spec tsp)) sel (pod_Namespace p) nodes v < 2 ^ 31"
    and n: "Node ni = Some nd"
  shows "\<exists>r. Filter fw ts h cs p ni = Ret r \<and> (is_success r \<longleftrightarrow> filter_accepts fw p tsp sel nodes nd)"
proof -
  have "filter_inputs fw ts cs p ni st nd tsp"
    using st n inp by (auto simp: filter_inputs_def inputs_of_def)
  note F = Filter_eq [OF this, of h]
  note R = reached_expected [OF spec [OF small]]
  have "is_success (filter_verdict (counts h st) st p nd (TopologyKey (Spec tsp)))
      \<longleftrightarrow> filter_accepts fw p tsp sel nodes nd"
    using c pol
    by (auto simp: computed_def filter_verdict_success filter_accepts_def Let_def
        policy_reached_lookup value_open_def R)
  with F show ?thesis by blast
qed

section \<open>The order of the parallel pieces\<close>

lemma fold_permuted:
  assumes "\<And>x y s. f x (f y s) = f y (f x s)" "mset xs = mset ys"
  shows "fold f xs s = fold f ys s"
proof -
  have "fold f xs = fold f ys"
    by (rule fold_multiset_equiv) (use assms in \<open>auto simp: fun_eq_iff\<close>)
  then show ?thesis by simp
qed

lemma incs_permuted: "mset xs = mset ys \<Longrightarrow> ct.incs xs h = ct.incs ys h"
  unfolding ct.incs_def
  by (rule fold_permuted) (auto simp: add_int32_commute split: prod.split)

lemma mset_concat_map: "mset xs = mset ys \<Longrightarrow> mset (concat (map f xs)) = mset (concat (map f ys))"
proof -
  assume "mset xs = mset ys"
  then have "\<Sum>\<^sub># (mset (map (\<lambda>x. mset (f x)) xs)) = \<Sum>\<^sub># (mset (map (\<lambda>x. mset (f x)) ys))"
    by (simp only: mset_map)
  then show ?thesis by (simp only: mset_concat sum_mset_sum_list map_map comp_def)
qed

lemma processNode_permuted:
  assumes "mset xs = mset ys"
  shows "go_fold (processNode key sel ns m nodes) xs h = go_fold (processNode key sel ns m nodes) ys h"
proof (cases "\<exists>i \<in> set xs. Node (nodes ! i) = None")
  case True
  then obtain i where "i \<in> set xs" "Node (nodes ! i) = None" by blast
  moreover from this(1) have "i \<in> set ys" using mset_eq_setD [OF assms] by simp
  ultimately show ?thesis by (simp add: processNode_panic)
next
  case False
  then have "\<forall>i \<in> set xs. Node (nodes ! i) \<noteq> None" "\<forall>i \<in> set ys. Node (nodes ! i) \<noteq> None"
    using mset_eq_setD [OF assms] by auto
  then show ?thesis
    using incs_permuted [OF mset_concat_map [OF assms]] by (simp add: processNode_fold)
qed

section \<open>Separate states and uncounted pods\<close>

lemma disjoint_update:
  assumes "state_ok h a" "state_ok h b" "counters a \<inter> counters b = {}"
    and "updateWithPod (Some a) u p nd d h = Ret h'"
  shows "counts h' b = counts h b \<and> state_ok h' b"
proof (cases "relevant a u p nd")
  case None
  then show ?thesis using assms(2,4) by (simp add: updateWithPod_cases)
next
  case (Some pair)
  then obtain c where c: "glookup (TpPairToMatchNum a) pair = Some c" "h' = add_int32 c d h"
    using assms(4) by (auto simp: updateWithPod_cases split: option.splits)
  have "c \<in> counters a" using counter_in [OF c(1)] .
  then have "c \<notin> counters b" "c \<in> dom (cells h)" using assms(1,3) by (auto simp: state_ok_def)
  then show ?thesis using counts_frame state_ok_add [OF assms(2)] by (simp add: c(2))
qed

lemma count_remove_uncounted:
  "\<not> counted sel ns q \<Longrightarrow> countPodsMatchSelector (remove1 q ps) sel ns = countPodsMatchSelector ps sel ns"
  by (induction ps) (auto simp: countPodsMatchSelector_eq)

lemma zone_count_uncounted:
  assumes "i < length nodes" "\<not> counted sel ns (Some q)"
  shows "zone_count key sel ns (nodes[i := (nodes ! i)\<lparr>Pods := remove1 (Some q) (Pods (nodes ! i))\<rparr>]) v
    = zone_count key sel ns nodes v"
  using assms by (simp add: zone_count_def map_update sum_list_update_int count_remove_uncounted)

section \<open>Taking pods off a node\<close>

definition drop_pod :: "node_info list \<Rightarrow> nat \<Rightarrow> pod \<Rightarrow> node_info list" where
  "drop_pod nodes i q = nodes[i := (nodes ! i)\<lparr>Pods := remove1 (Some q) (Pods (nodes ! i))\<rparr>]"

lemma count_remove1:
  "x \<in> set ps \<Longrightarrow> countPodsMatchSelector (remove1 x ps) sel ns
     = countPodsMatchSelector ps sel ns - (if counted sel ns x then 1 else 0)"
  by (induction ps) (auto simp: countPodsMatchSelector_eq)

lemma zone_count_drop:
  assumes "i < length nodes" "Some q \<in> set (Pods (nodes ! i))"
  shows "zone_count key sel ns (drop_pod nodes i q) v = zone_count key sel ns nodes v
     - (if zone_of key (nodes ! i) = v \<and> counted sel ns (Some q) then 1 else 0)"
  using assms by (simp add: zone_count_def drop_pod_def map_update sum_list_update_int count_remove1)

lemma map_Node_drop_pod [simp]: "map Node (drop_pod nodes i q) = map Node nodes"
  by (cases "i < length nodes")
     (simp_all add: drop_pod_def map_update list_update_same_conv list_update_beyond)

lemma length_drop_pod [simp]: "length (drop_pod nodes i q) = length nodes"
  by (simp add: drop_pod_def)

lemma tracked_drop [simp]: "tracked fw p key (drop_pod nodes i q) v = tracked fw p key nodes v"
  unfolding tracked_nodes by simp

lemma Node_drop [simp]: "j < length nodes \<Longrightarrow> Node (drop_pod nodes i q ! j) = Node (nodes ! j)"
  using nth_map [of j "drop_pod nodes i q" Node] nth_map [of j nodes Node] by simp

lemma admits_drop [simp]:
  "j < length nodes \<Longrightarrow> admits fw p key v (drop_pod nodes i q ! j) = admits fw p key v (nodes ! j)"
  by (simp add: admits_def)

lemma expected_drop:
  assumes "i < length nodes" "zone_of key (nodes ! i) = v" "tracked fw p key nodes v"
    and "Some q \<in> set (Pods (nodes ! i))"
  shows "expected_counts fw p key sel (drop_pod nodes i q) =
    (if counted sel (pod_Namespace p) (Some q)
     then (expected_counts fw p key sel nodes)
       (topo_pair key v \<mapsto> int32_of (zone_count key sel (pod_Namespace p) nodes v) + (- 1))
     else expected_counts fw p key sel nodes)"
proof -
  have one: "int32_of (n - 1) = int32_of n + (- 1)" for n by (simp add: int32_of_diff) (simp add: int32_of_def)
  show ?thesis
    using assms by (auto simp: fun_eq_iff expected_counts_def zone_count_drop one)
qed

lemma updateWithPod_drop:
  assumes c: "computed fw p key sel nodes h st" and i: "i < length nodes"
    and a: "admits fw p key v (nodes ! i)" and q: "DeletionTimestamp q = None" "Some q \<in> set (Pods (nodes ! i))"
  obtains h' where "updateWithPod (Some st) q p (Node (nodes ! i)) (- 1) h = Ret h'"
    "computed fw p key sel (drop_pod nodes i q) h' st"
proof -
  obtain nd where nd: "Node (nodes ! i) = Some nd" "mget (node_Labels nd) key = Some v"
    using a by (auto simp: admits_def)
  have t: "tracked fw p key nodes v" using admits_tracked i a by blast
  obtain h' where h': "updateWithPod (Some st) q p (Node (nodes ! i)) (- 1) h = Ret h'"
    "counts h' st = (if pod_Namespace q = pod_Namespace p \<and> sel (pod_Labels q)
       then (expected_counts fw p key sel nodes)
         (topo_pair key v \<mapsto> int32_of (zone_count key sel (pod_Namespace p) nodes v) + (- 1))
       else expected_counts fw p key sel nodes)"
    using updateWithPod_computed [OF c nd t] .
  have "counts h' st = expected_counts fw p key sel (drop_pod nodes i q)"
    using h'(2) q by (simp add: expected_drop [OF i admits_zone [OF a] t] counted_def)
  moreover have "state_ok h' st" using c updateWithPod_refines(2) [OF _ h'(1)] by (simp add: computed_def)
  ultimately show ?thesis using c that [OF h'(1)] by (simp add: computed_def)
qed

definition drop_pods :: "node_info list \<Rightarrow> nat \<Rightarrow> pod list \<Rightarrow> node_info list" where
  "drop_pods nodes i qs = fold (\<lambda>q ns. drop_pod ns i q) qs nodes"

lemma Node_drop_pods [simp]: "j < length nodes \<Longrightarrow> Node (drop_pods nodes i qs ! j) = Node (nodes ! j)"
  by (induction qs arbitrary: nodes) (simp_all add: drop_pods_def)

text \<open>\<open>RemovePod\<close> for one pod after the other, as a preemption attempt calls it.\<close>

definition remove_pods ::
    "'cs framework \<Rightarrow> 'cs \<Rightarrow> pod \<Rightarrow> node_info \<Rightarrow> pod list \<Rightarrow> heap \<Rightarrow> heap go" where
  "remove_pods fw cs p ni qs h = go_fold (\<lambda>q h. go_bind (RemovePod fw cs p q ni h) (\<lambda>(h', r). Ret h')) qs h"

lemma remove_pods_computed:
  assumes st: "getPreFilterState fw cs = Inr (Some st)" "podRequireTopologyScheduling p"
    and "computed fw p key sel nodes h st" "i < length nodes" "admits fw p key v (nodes ! i)"
    and "\<forall>q \<in> set qs. DeletionTimestamp q = None"
    and "mset (map Some qs) \<subseteq># mset (Pods (nodes ! i))" "Node ni = Node (nodes ! i)"
    and "state_ok h st0" and disj: "counters st \<inter> counters st0 = {}"
  shows "\<exists>h'. remove_pods fw cs p ni qs h = Ret h' \<and> computed fw p key sel (drop_pods nodes i qs) h' st
    \<and> counts h' st0 = counts h st0 \<and> state_ok h' st0"
  using assms(3-9)
proof (induction qs arbitrary: nodes h)
  case Nil
  then show ?case by (simp add: remove_pods_def drop_pods_def)
next
  case (Cons q qs)
  have q: "DeletionTimestamp q = None" "Some q \<in> set (Pods (nodes ! i))"
    using Cons.prems(4) mset_subset_eqD [OF Cons.prems(5), of "Some q"] by simp_all
  obtain h1 where h1: "updateWithPod (Some st) q p (Node (nodes ! i)) (- 1) h = Ret h1"
    "computed fw p key sel (drop_pod nodes i q) h1 st"
    using updateWithPod_drop [OF Cons.prems(1,2,3) q] .
  have ok: "state_ok h st" using Cons.prems(1) by (simp add: computed_def)
  have other: "counts h1 st0 = counts h st0" "state_ok h1 st0"
    using disjoint_update [OF ok Cons.prems(7) disj h1(1)] by simp_all
  have sub: "mset (map Some qs) \<subseteq># mset (Pods (drop_pod nodes i q ! i))"
    using Cons.prems(2,5) by (simp add: drop_pod_def insert_subset_eq_iff)
  have r: "RemovePod fw cs p q ni h = Ret (h1, NewStatus Success '''')"
    using st h1(1) Cons.prems(6) by (simp add: RemovePod_def)
  have "\<exists>h'. remove_pods fw cs p ni qs h1 = Ret h' \<and> computed fw p key sel (drop_pods (drop_pod nodes i q) i qs) h' st
    \<and> counts h' st0 = counts h1 st0 \<and> state_ok h' st0"
    by (rule Cons.IH [OF h1(2) _ _ _ sub _ other(2)]) (use Cons.prems(2,3,4,6) in simp_all)
  then show ?case using r other(1) by (simp add: remove_pods_def drop_pods_def)
qed

section \<open>Score, and a policy that changes\<close>

text \<open>Score on the state that PreFilter computed, for a node that the pod may use.\<close>

lemma Score_computed:
  assumes "inputs_of fw ts p tsp nodes sel" "getPreFilterState fw cs = Inr (Some st)"
    and "computed fw p (TopologyKey (Spec tsp)) sel nodes h st"
    and "SchedulePolicyMap (Constraint st) = CovertPolicy (DeployPlacement (Spec tsp))"
    and "snapshot_Get ts name = Inr (Some ni)" "ni \<in> set nodes" "admits fw p (TopologyKey (Spec tsp)) v ni"
    and "glookup (CovertPolicy (DeployPlacement (Spec tsp))) v = Some q"
    and "zone_count (TopologyKey (Spec tsp)) sel (pod_Namespace p) nodes v < 2 ^ 31"
  defines "c \<equiv> int32_of (zone_count (TopologyKey (Spec tsp)) sel (pod_Namespace p) nodes v)"
  shows "Score fw ts h cs p name =
      (if sint q \<le> zone_count (TopologyKey (Spec tsp)) sel (pod_Namespace p) nodes v then 0
       else score (fuses fw) (int64_oob fw) (f64_of_int32 c) (f64_of_int32 q) (st_ScheduleStrategy st),
       NewStatus Success '''')"
    and "sint c = zone_count (TopologyKey (Spec tsp)) sel (pod_Namespace p) nodes v"
proof -
  let ?key = "TopologyKey (Spec tsp)" and ?n = "zone_count (TopologyKey (Spec tsp)) sel (pod_Namespace p) nodes v"
  have "- (2 ^ 31) \<le> ?n" by (rule order_trans [OF _ zone_count_nonneg]) simp
  then show c: "sint c = ?n" unfolding c_def using assms(9) by (rule sint_int32_of)
  have "tracked fw p ?key nodes v" using assms(6,7) by (auto simp: tracked_def)
  then have "counts h st (topo_pair ?key v) = Some c"
    using assms(3) by (simp add: computed_def expected_counts_def c_def)
  then obtain a where a: "glookup (TpPairToMatchNum st) (topo_pair ?key v) = Some a" "load h a = c"
    by (auto simp: counts_def)
  obtain nd where nd: "Node ni = Some nd" "mget (node_Labels nd) ?key = Some v"
    using assms(7) by (auto simp: admits_def)
  have key: "c_TopologyKey (Constraint st) = ?key" using assms(3) by (simp add: computed_def)
  show "Score fw ts h cs p name = (if sint q \<le> ?n then 0
       else score (fuses fw) (int64_oob fw) (f64_of_int32 c) (f64_of_int32 q) (st_ScheduleStrategy st),
       NewStatus Success '''')"
    using inputs_of_require [OF assms(1)]
    by (simp add: Score_def assms(2,4,5,8) key nd a word_sle_eq c)
qed

text \<open>No counter has another topology key than that of PreFilter.\<close>

lemma stale_counts_missing:
  assumes "computed fw p key sel nodes h st" "key' \<noteq> key"
  shows "policy_reached (counts h st) key' pol \<longleftrightarrow> pol = []"
    "value_open (counts h st) key' pol v \<longleftrightarrow> v \<in> dom (glookup pol)"
proof -
  have none: "counts h st (topo_pair key' x) = None" for x
    using assms by (simp add: computed_def expected_counts_def)
  show "policy_reached (counts h st) key' pol \<longleftrightarrow> pol = []"
    by (cases pol) (auto simp: none reached_def)
  show "value_open (counts h st) key' pol v \<longleftrightarrow> v \<in> dom (glookup pol)"
    by (auto simp: value_open_def reached_def none)
qed

end
