(* ===== verification/Topology_Score.thy ===== *)
theory Topology_Score
  imports Plugin_Laws
begin

text \<open>
  The numbers that \<open>score\<close> returns: the Fill strategy is the percentage of the replicas in
  place, truncated after two roundings, and stays within the framework's range 0 to 100; the
  Balance strategy computes \<open>1 - count/desired*100\<close>, which by Go's precedence is one minus
  the percentage, and leaves that range.
\<close>

section \<open>The two roundings\<close>

lemma abs_diff_bounds: "\<bar>a - b\<bar> \<le> (e::rat) \<Longrightarrow> a \<le> b + e \<and> b - e \<le> a"
  by (auto simp: abs_le_iff)

lemma int_le_2_31: "(d::int) < 2 ^ 31 \<Longrightarrow> (of_int d :: rat) \<le> 2 ^ 31"
  by (metis less_imp_le of_int_le_iff of_int_numeral of_int_power)

lemma powers_of_two: "(2::rat) ^ 31 = 2147483648" "(2::rat) ^ 32 = 4294967296"
  "(2::rat) ^ 40 = 1099511627776" "(2::rat) ^ 53 = 9007199254740992"
  by simp_all

definition ratio :: "int \<Rightarrow> int \<Rightarrow> rat" where
  "ratio c d = f64_round (of_int c / of_int d)"

definition percent :: "int \<Rightarrow> int \<Rightarrow> rat" where
  "percent c d = f64_round (ratio c d * 100)"

lemma ratio_bounds:
  assumes "0 \<le> c" "c < d"
  shows "0 \<le> ratio c d" "ratio c d \<le> 1"
proof -
  have "0 \<le> (of_int c / of_int d :: rat)" "(of_int c / of_int d :: rat) \<le> 1"
    using assms by (simp_all add: field_simps)
  then show "0 \<le> ratio c d" "ratio c d \<le> 1"
    unfolding ratio_def using f64_round_nonneg f64_round_mono [of "of_int c / of_int d" 1]
      f64_round_of_int [of 1] by auto
qed

lemma percent_nonneg: "0 \<le> c \<Longrightarrow> c < d \<Longrightarrow> 0 \<le> percent c d"
  unfolding percent_def using ratio_bounds(1) [of c d] by (intro f64_round_nonneg) simp

lemma percent_mono:
  assumes "c * d' \<le> c' * d" "0 < d" "0 < d'"
  shows "percent c d \<le> percent c' d'"
proof -
  have "(of_int (c * d') :: rat) \<le> of_int (c' * d)" using assms(1) by (rule of_int_le_iff [THEN iffD2])
  then have "(of_int c / of_int d :: rat) \<le> of_int c' / of_int d'"
    using assms(2,3) by (simp add: divide_simps mult.commute)
  then show ?thesis
    unfolding percent_def ratio_def by (intro f64_round_mono mult_right_mono) simp_all
qed

lemma percent_0 [simp]: "percent 0 d = 0"
  by (simp add: percent_def ratio_def)

text \<open>Distance of the computed percentage from the exact one.\<close>

lemma ratio_error:
  assumes "0 < c" "c < d" "d < 2 ^ 31"
  shows "\<bar>ratio c d - of_int c / of_int d\<bar> \<le> 1 / 2 ^ 53" "1 / 2 ^ 32 \<le> ratio c d"
proof -
  let ?r = "of_int c / of_int d :: rat"
  have r1: "?r \<le> 1" using assms by (simp add: field_simps)
  note d = int_le_2_31 [OF assms(3)]
  have c: "(1::rat) \<le> of_int c" using assms(1) by simp
  have d0: "(0::rat) < of_int d" using assms by simp
  have "1 / 2 ^ 31 \<le> 1 / (of_int d :: rat)" using d d0 by (intro divide_left_mono) auto
  also have "\<dots> \<le> ?r" using c d0 by (intro divide_right_mono) auto
  finally have lo: "1 / 2 ^ 31 \<le> ?r" .
  then have "1 / 2 ^ 100 \<le> ?r" by (rule order_trans [rotated]) simp
  from f64_round_error_pos [OF this]
  have e: "\<bar>ratio c d - ?r\<bar> \<le> ?r / 2 ^ 53" by (simp add: ratio_def)
  also have "\<dots> \<le> 1 / 2 ^ 53" using r1 by (intro divide_right_mono) auto
  finally show "\<bar>ratio c d - ?r\<bar> \<le> 1 / 2 ^ 53" .
  from abs_diff_bounds [OF this] show "1 / 2 ^ 32 \<le> ratio c d"
    using lo unfolding powers_of_two by linarith
qed

lemma percent_error:
  assumes "0 < c" "c < d" "d < 2 ^ 31"
  shows "\<bar>ratio c d * 100 - 100 * of_int c / of_int d\<bar> \<le> 1 / 2 ^ 40"
    "\<bar>percent c d - 100 * of_int c / of_int d\<bar> \<le> 1 / 2 ^ 40"
proof -
  let ?q = "ratio c d" and ?x = "100 * of_int c / of_int d :: rat"
  note re = ratio_error [OF assms]
  have q1: "?q \<le> 1" using ratio_bounds(2) [of c d] assms by simp
  have "1 / 2 ^ 100 \<le> (1 / 2 ^ 32 :: rat)" by simp
  moreover have "1 / 2 ^ 32 \<le> ?q * 100" using re(2) ratio_bounds(1) [of c d] assms by linarith
  ultimately have "1 / 2 ^ 100 \<le> ?q * 100" by (rule order_trans)
  from f64_round_error_pos [OF this]
  have e2: "\<bar>percent c d - ?q * 100\<bar> \<le> ?q * 100 / 2 ^ 53" by (simp add: percent_def)
  also have "\<dots> \<le> 100 / 2 ^ 53" using q1 by (intro divide_right_mono) auto
  finally have e2': "\<bar>percent c d - ?q * 100\<bar> \<le> 100 / 2 ^ 53" .
  have "?q * 100 - ?x = (?q - of_int c / of_int d) * 100" by (simp add: left_diff_distrib)
  then have "\<bar>?q * 100 - ?x\<bar> = \<bar>?q - of_int c / of_int d\<bar> * 100"
    by (simp only: abs_mult abs_numeral)
  also have "\<dots> \<le> 1 / 2 ^ 53 * 100" using re(1) by (intro mult_right_mono) auto
  finally have e1: "\<bar>?q * 100 - ?x\<bar> \<le> 100 / 2 ^ 53" by (simp only: mult_1 times_divide_eq_left)
  then show "\<bar>?q * 100 - ?x\<bar> \<le> 1 / 2 ^ 40" by (rule order_trans) simp
  have "\<bar>percent c d - ?x\<bar> \<le> \<bar>percent c d - ?q * 100\<bar> + \<bar>?q * 100 - ?x\<bar>"
    using abs_triangle_ineq [of "percent c d - ?q * 100" "?q * 100 - ?x"] by simp
  also have "\<dots> \<le> 100 / 2 ^ 53 + 100 / 2 ^ 53" using e1 e2' by (rule add_mono [rotated])
  also have "\<dots> \<le> 1 / 2 ^ 40" by simp
  finally show "\<bar>percent c d - ?x\<bar> \<le> 1 / 2 ^ 40" .
qed

text \<open>The gap between the exact percentage and the integer above it.\<close>

lemma exact_gap:
  fixes c d k :: int
  assumes "0 < d" "d < 2 ^ 31" "100 * c < k * d"
  shows "100 * of_int c / of_int d \<le> (of_int k - 1 / 2 ^ 31 :: rat)"
proof -
  have d0: "(0::rat) < of_int d" using assms by simp
  note d = int_le_2_31 [OF assms(2)]
  have "(of_int (100 * c) :: rat) \<le> of_int (k * d - 1)" using assms(3) by (simp only: of_int_le_iff)
  then have "100 * of_int c \<le> (of_int k * of_int d - 1 :: rat)" by simp
  then have "100 * of_int c / of_int d \<le> (of_int k * of_int d - 1) / (of_int d :: rat)"
    using d0 by (intro divide_right_mono) auto
  also have "\<dots> = of_int k - 1 / of_int d" using d0 by (simp add: diff_divide_distrib)
  also have "\<dots> \<le> of_int k - 1 / 2 ^ 31"
    using d d0 by (intro diff_left_mono divide_left_mono) auto
  finally show ?thesis .
qed

lemma percent_less:
  assumes "0 \<le> c" "c < d" "d < 2 ^ 31" "100 * c < k * d"
  shows "percent c d \<le> of_int k - 1 / 2 ^ 32" "ratio c d * 100 \<le> of_int k - 1 / 2 ^ 32"
proof -
  have "percent c d \<le> of_int k - 1 / 2 ^ 32 \<and> ratio c d * 100 \<le> of_int k - 1 / 2 ^ 32"
  proof (cases "c = 0")
    case True
    then have "0 < k" using assms by (simp add: zero_less_mult_iff)
    then have "(1::rat) \<le> of_int k" by simp
    then have "(0::rat) \<le> of_int k - 1 / 2 ^ 32" by simp
    then show ?thesis using True by (simp add: ratio_def)
  next
    case False
    then have "0 < c" using assms by simp
    note pe = percent_error [OF this assms(2,3), THEN abs_diff_bounds]
    have "100 * of_int c / of_int d \<le> (of_int k - 1 / 2 ^ 31 :: rat)"
      using assms by (intro exact_gap) auto
    with pe show ?thesis unfolding powers_of_two by linarith
  qed
  then show "percent c d \<le> of_int k - 1 / 2 ^ 32" "ratio c d * 100 \<le> of_int k - 1 / 2 ^ 32" by simp_all
qed

lemma percent_greater:
  assumes "0 < c" "c < d" "d < 2 ^ 31" "k * d < 100 * c"
  shows "of_int k \<le> percent c d"
proof -
  have "100 * (- c) < (- k) * d" using assms(4) by simp
  then have "100 * of_int (- c) / of_int d \<le> (of_int (- k) - 1 / 2 ^ 31 :: rat)"
    using assms by (intro exact_gap) auto
  moreover have "100 * of_int (- c) / of_int d = (- (100 * of_int c / of_int d) :: rat)" by simp
  ultimately show ?thesis
    using percent_error(2) [OF assms(1-3), THEN abs_diff_bounds]
    unfolding powers_of_two of_int_minus by linarith
qed

section \<open>The Fill strategy\<close>

lemma score_ops:
  assumes "0 \<le> c" "c < d" "d < 2 ^ 31"
  shows "f64_div (Fin (of_int c)) (Fin (of_int d)) = Fin (ratio c d)"
    "f64_mul (Fin (ratio c d)) (Fin 100) = Fin (percent c d)"
proof -
  have "\<bar>of_int c / of_int d :: rat\<bar> \<le> 1" using assms by (simp add: field_simps)
  then have "\<bar>of_int c / of_int d :: rat\<bar> \<le> 2 ^ 52" by (rule order_trans) simp
  then show "f64_div (Fin (of_int c)) (Fin (of_int d)) = Fin (ratio c d)"
    using assms by (simp add: f64_of_small ratio_def)
  have "\<bar>ratio c d * 100\<bar> \<le> 100" using ratio_bounds [OF assms(1,2)] by simp
  then have "\<bar>ratio c d * 100\<bar> \<le> 2 ^ 52" by (rule order_trans) simp
  then show "f64_mul (Fin (ratio c d)) (Fin 100) = Fin (percent c d)"
    by (simp add: f64_of_small percent_def)
qed

lemma percent_less_100: "0 \<le> c \<Longrightarrow> c < d \<Longrightarrow> d < 2 ^ 31 \<Longrightarrow> percent c d < 100"
  using percent_less(1) [of c d 100] by simp

lemma score_fill:
  assumes "0 \<le> sint c" "sint c < sint d"
  shows "sint (score fuse oob (f64_of_int32 c) (f64_of_int32 d) ScheduleStrategyFill)
    = \<lfloor>percent (sint c) (sint d)\<rfloor>"
proof -
  have d: "sint d < 2 ^ 31" by (rule sint_int32_bounds)
  have p: "0 \<le> percent (sint c) (sint d)" "percent (sint c) (sint d) < 100"
    using percent_nonneg percent_less_100 assms d by auto
  then have "\<bar>percent (sint c) (sint d)\<bar> \<le> 2 ^ 52" by simp
  from sint_int64_of_f64 [OF this] show ?thesis
    using p(1) by (simp add: score_def f64_of_int32_eq score_ops [OF assms d] f64_trunc_def
        del: of_int_sint f64_div.simps f64_mul.simps)
qed

lemma fill_floor:
  assumes "0 \<le> c" "c < d" "d < 2 ^ 31"
  shows "\<lfloor>percent c d\<rfloor> \<le> 100 * c div d" "100 * c div d - 1 \<le> \<lfloor>percent c d\<rfloor>"
    "\<not> d dvd 100 * c \<Longrightarrow> \<lfloor>percent c d\<rfloor> = 100 * c div d"
proof -
  let ?k = "100 * c div d"
  have d0: "0 < d" using assms by simp
  have dm: "?k * d + 100 * c mod d = 100 * c" by (rule div_mult_mod_eq)
  have m: "100 * c mod d < d" "0 \<le> 100 * c mod d"
    using d0 by (rule pos_mod_bound, rule pos_mod_sign)
  have up: "100 * c < (?k + 1) * d" using dm m(1) unfolding distrib_right by linarith
  show le: "\<lfloor>percent c d\<rfloor> \<le> ?k"
    using percent_less(1) [OF assms up] by (simp add: floor_le_iff)
  have c0: "c = 0 \<Longrightarrow> \<lfloor>percent c d\<rfloor> = ?k" by simp
  show "?k - 1 \<le> \<lfloor>percent c d\<rfloor>"
  proof (cases "c = 0")
    case False
    have "(?k - 1) * d < 100 * c" using dm m d0 unfolding left_diff_distrib by linarith
    moreover have "0 < c" using False assms by simp
    ultimately have "of_int (?k - 1) \<le> percent c d" using assms by (intro percent_greater)
    then show ?thesis unfolding le_floor_iff .
  qed simp
  show "\<lfloor>percent c d\<rfloor> = ?k" if nd: "\<not> d dvd 100 * c"
  proof -
    have "c \<noteq> 0" using nd by auto
    then have "0 < c" using assms by simp
    moreover have "100 * c mod d \<noteq> 0" using nd by (simp add: dvd_eq_mod_eq_0)
    then have "?k * d < 100 * c" using dm m(2) by linarith
    ultimately have "of_int ?k \<le> percent c d" using assms by (intro percent_greater)
    then have "?k \<le> \<lfloor>percent c d\<rfloor>" unfolding le_floor_iff .
    with le show ?thesis by (rule antisym)
  qed
qed

section \<open>The Balance strategy\<close>

definition balance_rest :: "bool \<Rightarrow> int \<Rightarrow> int \<Rightarrow> rat" where
  "balance_rest fuse c d = (if fuse then 1 - ratio c d * 100 else 1 - percent c d)"

lemma balance_rest_bounds:
  assumes "0 \<le> c" "c < d" "d < 2 ^ 31"
  shows "- 99 + 1 / 2 ^ 32 \<le> balance_rest fuse c d" "balance_rest fuse c d \<le> 1"
  using percent_less [of c d 100] percent_nonneg [of c d] ratio_bounds [of c d] assms
  by (simp_all add: balance_rest_def)

lemma score_balance:
  assumes "0 \<le> sint c" "sint c < sint d"
  shows "sint (score fuse oob (f64_of_int32 c) (f64_of_int32 d) ScheduleStrategyBalance)
    = f64_trunc (f64_round (balance_rest fuse (sint c) (sint d)))"
proof -
  have d: "sint d < 2 ^ 31" by (rule sint_int32_bounds)
  let ?z = "balance_rest fuse (sint c) (sint d)"
  have b: "of_int (- 99) \<le> ?z" "?z \<le> of_int 1"
    using balance_rest_bounds [OF assms d, of fuse] by simp_all
  then have "of_int (- 99) \<le> f64_round ?z" "f64_round ?z \<le> of_int 1"
    using f64_round_mono [OF b(1)] f64_round_mono [OF b(2)] f64_round_of_int [of "- 99"]
      f64_round_of_int [of 1] by simp_all
  then have "\<bar>f64_round ?z\<bar> \<le> 99" by simp
  then have "\<bar>f64_round ?z\<bar> \<le> 2 ^ 52" by (rule order_trans) simp
  from sint_int64_of_f64 [OF this]
  have "sint (int64_of_f64 oob (Fin (f64_round ?z))) = f64_trunc (f64_round ?z)" .
  moreover have "\<bar>?z\<bar> \<le> 99" using b by simp
  then have "\<bar>?z\<bar> \<le> 2 ^ 52" by (rule order_trans) simp
  then have z: "f64_of ?z = Fin (f64_round ?z)" by (rule f64_of_small)
  have "score fuse oob (f64_of_int32 c) (f64_of_int32 d) ScheduleStrategyBalance
      = int64_of_f64 oob (f64_of ?z)"
    unfolding score_def f64_of_int32_eq score_ops(1) [OF assms d]
    by (cases fuse) (simp_all add: balance_rest_def score_ops(2) [OF assms d]
        del: f64_mul.simps f64_div.simps)
  ultimately show ?thesis unfolding z by simp
qed

lemma balance_zero: "f64_trunc (f64_round (balance_rest fuse 0 d)) = 1"
  using f64_round_of_int [of 1] by (simp add: balance_rest_def ratio_def f64_trunc_def)

lemma balance_small:
  assumes "0 < c" "50 * c < d" "d < 2 ^ 31"
  shows "f64_trunc (f64_round (balance_rest fuse c d)) = 0"
proof -
  have cd: "c < d" using assms by simp
  have lo: "- (4294967295 / 4294967296) \<le> balance_rest fuse c d"
    using percent_less [of c d 2] assms cd by (simp add: balance_rest_def)
  have "1 / 2 ^ 31 \<le> (of_int c / of_int d :: rat)"
  proof -
    note d = int_le_2_31 [OF assms(3)]
    have "1 / 2 ^ 31 \<le> 1 / (of_int d :: rat)" using d assms cd by (intro divide_left_mono) auto
    also have "\<dots> \<le> of_int c / of_int d" using assms cd by (intro divide_right_mono) auto
    finally show ?thesis .
  qed
  then have hi: "balance_rest fuse c d \<le> 4294967295 / 4294967296"
    using percent_error [OF assms(1) cd assms(3), THEN abs_diff_bounds]
    unfolding balance_rest_def powers_of_two times_divide_eq_right [symmetric]
    by (auto split: if_splits)
  have e: "f64_round (4294967295 / 4294967296) = 4294967295 / 4294967296"
    by (simp add: f64_eval)
  have "f64_round (balance_rest fuse c d) \<le> 4294967295 / 4294967296"
    using f64_round_mono [OF hi] e by simp
  moreover have "- (4294967295 / 4294967296) \<le> f64_round (balance_rest fuse c d)"
    using f64_round_mono [OF lo] e by (simp add: f64_round_minus)
  ultimately show ?thesis
    by (auto simp: f64_trunc_def floor_eq_iff ceiling_eq_iff)
qed

lemma balance_negative:
  assumes "d \<le> 50 * c" "c < d" "d < 2 ^ 31"
  shows "f64_trunc (f64_round (balance_rest fuse c d)) < 0"
    "- 98 \<le> f64_trunc (f64_round (balance_rest fuse c d))"
proof -
  have c0: "0 < c" using assms by simp
  have "(of_int d :: rat) \<le> of_int (50 * c)" using assms(1) by (simp only: of_int_le_iff)
  then have "(1 / 50 :: rat) \<le> of_int c / of_int d" using c0 assms(2) by (simp add: field_simps)
  then have q: "f64_round (1 / 50) \<le> ratio c d" unfolding ratio_def by (rule f64_round_mono)
  have f: "1 / 50 \<le> f64_round (1 / 50)" by (simp add: f64_eval)
  have g: "f64_round (f64_round (1 / 50) * 100) = 2" by (simp add: f64_eval)
  have "f64_round (f64_round (1 / 50) * 100) \<le> percent c d"
    unfolding percent_def using q by (intro f64_round_mono mult_right_mono) auto
  then have "balance_rest fuse c d \<le> of_int (- 1)" using f g q by (simp add: balance_rest_def)
  from f64_round_mono [OF this] have "f64_round (balance_rest fuse c d) \<le> - 1"
    using f64_round_of_int [of "- 1"] by simp
  then show "f64_trunc (f64_round (balance_rest fuse c d)) < 0"
    by (simp add: f64_trunc_def ceiling_less_iff)
  have e: "f64_round (- 99 + 1 / 4294967296) = - 99 + 1 / 4294967296"
    using f64_round_minus [of "99 - 1 / 4294967296"] by (simp add: f64_eval)
  have "- 99 + 1 / 4294967296 \<le> f64_round (balance_rest fuse c d)"
    using f64_round_mono [OF balance_rest_bounds(1) [of c d fuse]] c0 assms e by simp
  then show "- 98 \<le> f64_trunc (f64_round (balance_rest fuse c d))"
    by (auto simp: f64_trunc_def le_ceiling_iff le_floor_iff)
qed

lemma fill_bounds:
  assumes "0 \<le> sint c" "sint c < sint d"
  shows "0 \<le> sint (score fuse oob (f64_of_int32 c) (f64_of_int32 d) ScheduleStrategyFill)
    \<and> sint (score fuse oob (f64_of_int32 c) (f64_of_int32 d) ScheduleStrategyFill) < 100"
  using percent_nonneg [OF assms] percent_less_100 [OF assms sint_int32_bounds(2)]
  by (simp add: score_fill [OF assms] floor_less_iff del: of_int_sint)

end
