(* ===== verification/Samples.thy ===== *)
theory Samples
  imports Scheduling_Cycle
begin

text \<open>
  Concrete inputs on which the properties are applied: a framework whose parameters are
  computable functions, a policy with two zones, three nodes and a handful of pods. Nothing
  outside the witnesses depends on this theory.
\<close>

section \<open>A framework\<close>

text \<open>
  Selectors follow the documented meaning for \<open>matchLabels\<close>: nil selects nothing, an empty
  selector everything. Expressions are refused with an error.
\<close>

definition labels_match :: "labels \<Rightarrow> labels \<Rightarrow> bool" where
  "labels_match want have = (case want of
     None \<Rightarrow> True
   | Some m \<Rightarrow> list_all (\<lambda>(k, v). mget have k = Some v) m)"

definition sample_selector :: "LabelSelector option \<Rightarrow> go_error + selector" where
  "sample_selector s = (case s of
     None \<Rightarrow> Inr (\<lambda>_. False)
   | Some ls \<Rightarrow>
       if MatchExpressions ls \<noteq> [] then Inl (ExtError ''expression'')
       else Inr (labels_match (MatchLabels ls)))"

definition sample_fw :: "(string \<Rightarrow> go_error + state_data) framework" where
  "sample_fw = \<lparr>cs_read = (\<lambda>cs k. cs k),
     cs_write = (\<lambda>cs k v. cs(k := Inr v)),
     LabelSelectorAsSelector = sample_selector,
     PodMatchesNodeSelectorAndAffinityTerms = (\<lambda>p n. labels_match (NodeSelector p) (node_Labels n)),
     piece_order = (\<lambda>n. [0..<n]), fuses = False, int64_oob = (\<lambda>_. 0)\<rparr>"

definition sample_fw_rev :: "(string \<Rightarrow> go_error + state_data) framework" where
  "sample_fw_rev = sample_fw\<lparr>piece_order := (\<lambda>n. rev [0..<n])\<rparr>"

definition sample_cs :: "string \<Rightarrow> go_error + state_data" where
  "sample_cs = (\<lambda>_. Inl (ExtError ''not found''))"

lemma sample_fw_ok [simp]: "cycle_state_ok sample_fw" "pieces_ok sample_fw"
  "cycle_state_ok sample_fw_rev" "pieces_ok sample_fw_rev"
  by (simp_all add: cycle_state_ok_def pieces_ok_def sample_fw_def sample_fw_rev_def)

section \<open>A policy\<close>

definition sample_tsp :: TopologySchedulingPolicy where
  "sample_tsp = \<lparr>tsp_Name = ''web'', tsp_Namespace = ''prod'', tsp_Labels = None,
     Spec = \<lparr>TopologyKey = ''zone'', ScheduleStrategy = ScheduleStrategyFill,
       DeployPlacement = [\<lparr>Name = ''a'', Replicas = 2\<rparr>, \<lparr>Name = ''b'', Replicas = 1\<rparr>],
       UpdatePlacement = [],
       spec_LabelSelector = Some \<lparr>MatchLabels = Some [(''app'', ''web'')], MatchExpressions = []\<rparr>\<rparr>,
     tsp_Status = \<lparr>Placement = []\<rparr>\<rparr>"

definition sample_sel :: selector where
  "sample_sel = labels_match (Some [(''app'', ''web'')])"

definition sample_idx :: indexer where
  "sample_idx = \<lparr>GetByKey = (\<lambda>k. Inr (if k = ''prod/web'' then Some sample_tsp else None)),
     ListAll = (\<lambda>sel. ([sample_tsp], None)),
     ListAllByNamespace = (\<lambda>ns sel. (if ns = ''prod'' \<or> ns = '''' then [sample_tsp] else [], None))\<rparr>"

lemma sample_sel_ok [simp]:
  "LabelSelectorAsSelector sample_fw (spec_LabelSelector (Spec sample_tsp)) = Inr sample_sel"
  "LabelSelectorAsSelector sample_fw_rev (spec_LabelSelector (Spec sample_tsp)) = Inr sample_sel"
  by (simp_all add: sample_fw_def sample_fw_rev_def sample_tsp_def sample_selector_def sample_sel_def)

section \<open>Nodes and pods\<close>

definition sample_node :: "string \<Rightarrow> string \<Rightarrow> node" where
  "sample_node name zone = \<lparr>node_Name = name, node_Labels = Some [(''zone'', zone)]\<rparr>"

definition sample_nodes :: "node_info list" where
  "sample_nodes = [\<lparr>Node = Some (sample_node ''n1'' ''a''), Pods = []\<rparr>,
     \<lparr>Node = Some (sample_node ''n2'' ''b''), Pods = []\<rparr>,
     \<lparr>Node = Some \<lparr>node_Name = ''n3'', node_Labels = None\<rparr>, Pods = []\<rparr>]"

definition sample_pod :: "string \<Rightarrow> pod" where
  "sample_pod name = \<lparr>pod_Name = name, pod_Namespace = ''prod'',
     pod_Labels = Some [(''app'', ''web''), (TopologySchedulingLabelKey, ''web'')],
     Annotations = None, DeletionTimestamp = None, NodeName = '''', NodeSelector = None,
     pod_Affinity = None, Tolerations = [], Phase = PodRunning\<rparr>"

text \<open>The snapshots after one, two and three bindings.\<close>

definition sample_nodes1 :: "node_info list" where
  "sample_nodes1 = bind_pod sample_nodes 0 (sample_pod ''p1'')"

definition sample_nodes2 :: "node_info list" where
  "sample_nodes2 = bind_pod sample_nodes1 1 (sample_pod ''p2'')"

definition sample_nodes3 :: "node_info list" where
  "sample_nodes3 = bind_pod sample_nodes2 0 (sample_pod ''p3'')"

text \<open>One cycle as a function: the status of Filter after a successful PreFilter.\<close>

definition try_node ::
    "'cs framework \<Rightarrow> indexer \<Rightarrow> 'cs \<Rightarrow> pod \<Rightarrow> node_info list \<Rightarrow> nat \<Rightarrow> bool" where
  "try_node fw idx cs p nodes i = (case PreFilter fw (plugin_at idx nodes) cs p empty_heap of
     Ret (h, cs', None) \<Rightarrow>
       (case Filter fw (plugin_at idx nodes) h cs' p (nodes ! i) of
          Ret r \<Rightarrow> is_success r
        | Panic _ \<Rightarrow> False)
   | _ \<Rightarrow> False)"

lemma try_node_step:
  assumes "try_node fw idx cs p nodes i" "governed idx tsp ns p" "i < length nodes"
    and "Node (nodes ! i) = Some nd" "PodMatchesNodeSelectorAndAffinityTerms fw p nd"
  shows "sched_step fw idx tsp sel ns nodes (bind_pod nodes i p)"
proof -
  obtain h cs' r where "PreFilter fw (plugin_at idx nodes) cs p empty_heap = Ret (h, cs', None)"
    "Filter fw (plugin_at idx nodes) h cs' p (nodes ! i) = Ret r" "is_success r"
    using assms(1) by (auto simp: try_node_def split: go.splits option.splits)
  then show ?thesis using assms(2-5) by (intro sched_step.schedule [OF _ heap_ok_empty]) auto
qed

section \<open>Facts about the samples\<close>

lemma sample_pod_governed [simp]: "governed sample_idx sample_tsp ''prod'' (sample_pod name)"
  by (simp add: governed_def sample_pod_def mget_def glookup_def get_policy_Inr_iff sample_idx_def
      TopologySchedulingLabelKey_def)

lemma sample_pod_counted: "counted sample_sel ''prod'' (Some (sample_pod name))"
  by (simp add: counted_def sample_pod_def sample_sel_def labels_match_def mget_def glookup_def)

lemma sample_pod_matches [simp]:
  "PodMatchesNodeSelectorAndAffinityTerms sample_fw (sample_pod name) nd"
  by (simp add: sample_fw_def sample_pod_def labels_match_def)

lemma sample_lengths [simp]: "length sample_nodes = 3" "length sample_nodes1 = 3"
  "length sample_nodes2 = 3" "length sample_nodes3 = 3"
  by (simp_all add: sample_nodes_def sample_nodes1_def sample_nodes2_def sample_nodes3_def bind_pod_def)

lemma sample_step1: "sched_step sample_fw sample_idx sample_tsp sample_sel ''prod'' sample_nodes sample_nodes1"
  unfolding sample_nodes1_def
proof (rule try_node_step)
  show "try_node sample_fw sample_idx sample_cs (sample_pod ''p1'') sample_nodes 0" by code_simp
qed (simp_all add: sample_nodes_def sample_node_def)

lemma sample_step2: "sched_step sample_fw sample_idx sample_tsp sample_sel ''prod'' sample_nodes1 sample_nodes2"
  unfolding sample_nodes2_def
proof (rule try_node_step)
  show "try_node sample_fw sample_idx sample_cs (sample_pod ''p2'') sample_nodes1 1" by code_simp
qed (simp_all add: sample_nodes1_def sample_nodes_def sample_node_def bind_pod_def)

lemma sample_step3: "sched_step sample_fw sample_idx sample_tsp sample_sel ''prod'' sample_nodes2 sample_nodes3"
  unfolding sample_nodes3_def
proof (rule try_node_step)
  show "try_node sample_fw sample_idx sample_cs (sample_pod ''p3'') sample_nodes2 0" by code_simp
qed (simp_all add: sample_nodes2_def sample_nodes1_def sample_nodes_def sample_node_def bind_pod_def)

lemma sample_run: "sched_run sample_fw sample_idx sample_tsp sample_sel ''prod'' sample_nodes sample_nodes3"
  by (blast intro: sched_run.intros sample_step1 sample_step2 sample_step3)

lemma sample_zone_counts:
  "zone_count ''zone'' sample_sel ''prod'' sample_nodes3 ''a'' = 2"
  "zone_count ''zone'' sample_sel ''prod'' sample_nodes3 ''b'' = 1"
  "pods_total sample_sel ''prod'' sample_nodes3 = 3"
  "policy_total sample_tsp = 3"
  by code_simp+

lemma sample_start_empty: "zone_count key sel ns sample_nodes v = 0"
  by (simp add: sample_nodes_def)

lemma sample_desired_nonneg: "p \<in> set (DeployPlacement (Spec sample_tsp)) \<Longrightarrow> 0 \<le> sint (Replicas p)"
  by (auto simp: sample_tsp_def)

lemma sample_desired: "desired sample_tsp ''a'' = 2" "desired sample_tsp ''b'' = 1" "desired sample_tsp ''c'' = 0"
  by code_simp+

lemma sample_tsp_key [simp]: "TopologyKey (Spec sample_tsp) = ''zone''"
  by (simp add: sample_tsp_def)

definition sample_ts :: TopologyScheduling where
  "sample_ts = plugin_at sample_idx sample_nodes3"

lemma sample_inputs [simp]:
  "inputs_of sample_fw (plugin_at sample_idx nodes) (sample_pod name) sample_tsp nodes sample_sel"
  "inputs_of sample_fw_rev (plugin_at sample_idx nodes) (sample_pod name) sample_tsp nodes sample_sel"
  using sample_pod_governed [of name]
  by (auto simp: inputs_of_def plugin_at_def governed_def)

lemma sample_nodes_live [simp]: "nodes_live sample_nodes3" "nodes_live sample_nodes"
  by (simp_all add: nodes_live_def sample_nodes3_def sample_nodes2_def sample_nodes1_def
      sample_nodes_def bind_pod_def)

lemma sample_admits:
  "admits sample_fw (sample_pod name) ''zone'' ''a'' (sample_nodes3 ! 0)"
  "admits sample_fw (sample_pod name) ''zone'' ''b'' (sample_nodes3 ! Suc 0)"
  by (simp_all add: admits_def sample_nodes3_def sample_nodes2_def sample_nodes1_def
      sample_nodes_def bind_pod_def sample_node_def mget_def glookup_def)

lemma sample_tracked:
  "tracked sample_fw (sample_pod name) ''zone'' sample_nodes3 ''a''"
  "tracked sample_fw (sample_pod name) ''zone'' sample_nodes3 ''b''"
  unfolding tracked_def using sample_admits [of name]
  by (metis nth_mem sample_lengths(4) zero_less_numeral One_nat_def one_less_numeral_iff semiring_norm(77))+

end
