(* ===== verification/Plugin_Properties.thy ===== *)
theory Plugin_Properties
  imports Recount Topology_Score Samples
begin

text \<open>
  The properties of the scheduler plugin's extension points, each with its witness on the
  sample inputs. Properties of whole runs are in the root theory.
\<close>

section \<open>PreFilter\<close>

text \<open>
  C9. PreFilter computes the state that Filter, Score and Reserve find in the cycle state:
  one counter of its own per topology value of a node that the pod's node selector and
  affinity admit, holding the number of matching, not terminating pods of the pod's
  namespace on all nodes of that value.
\<close>

theorem prefilter_counts:
  assumes "inputs_of fw ts p tsp nodes sel" "nodes_live nodes" "pieces_ok fw" "heap_ok h"
    and "cycle_state_ok fw"
  shows "\<exists>st h' cs'. PreFilter fw ts cs p h = Ret (h', cs', None)
    \<and> getPreFilterState fw cs' = Inr (Some st) \<and> state_ok h' st
    \<and> (\<forall>k v. counts h' st (topo_pair k v) =
        (if k = TopologyKey (Spec tsp) \<and> tracked fw p k nodes v
         then Some (int32_of (zone_count k sel (pod_Namespace p) nodes v)) else None))"
  using PreFilter_computed [OF assms, of cs]
  by (metis (no_types, lifting) computed_def expected_counts_def TopologyPair.select_convs)

theorem prefilter_counts_witness:
  "\<exists>st h' cs'. PreFilter sample_fw sample_ts sample_cs (sample_pod ''p4'') empty_heap = Ret (h', cs', None)
    \<and> getPreFilterState sample_fw cs' = Inr (Some st)
    \<and> counts h' st (topo_pair ''zone'' ''a'') = Some (int32_of 2)"
proof -
  from prefilter_counts [OF sample_inputs(1) [of sample_nodes3 "''p4''"], of empty_heap sample_cs]
  obtain st h' cs' where "PreFilter sample_fw sample_ts sample_cs (sample_pod ''p4'') empty_heap = Ret (h', cs', None)"
    "getPreFilterState sample_fw cs' = Inr (Some st)"
    "counts h' st (topo_pair ''zone'' ''a'') = (if tracked sample_fw (sample_pod ''p4'') ''zone'' sample_nodes3 ''a''
      then Some (int32_of (zone_count ''zone'' sample_sel (pod_Namespace (sample_pod ''p4'')) sample_nodes3 ''a'')) else None)"
    by (auto simp: sample_ts_def)
  then show ?thesis using sample_tracked(1) [of "''p4''"] sample_zone_counts(1) by (auto simp: sample_pod_def)
qed

text \<open>
  C20. The parallel count is deterministic: whatever order the workers of
  \<open>ParallelizeUntil\<close> let the pieces take effect in, the computed state is the same, heap
  included, and so is the panic on a nil node.
\<close>

theorem parallel_order_irrelevant:
  assumes "mset (piece_order fw (length nodes)) = mset (order (length nodes))"
    and "snapshot_List ts = Inr nodes"
  shows "calculatePreFilterStateCache (fw\<lparr>piece_order := order\<rparr>) ts p h
    = calculatePreFilterStateCache fw ts p h"
proof -
  have init: "init_pairs (fw\<lparr>piece_order := order\<rparr>) p key ns m h = init_pairs fw p key ns m h"
    for key ns m h
    by (induction ns arbitrary: m h) (simp_all split: option.split prod.split)
  note perm = processNode_permuted [OF assms(1)]
  show ?thesis
    by (simp add: calculatePreFilterStateCache_def assms(2) init perm Let_def
        split: option.split sum.split prod.split)
qed

theorem parallel_order_irrelevant_witness:
  "calculatePreFilterStateCache (sample_fw\<lparr>piece_order := (\<lambda>n. rev [0..<n])\<rparr>) sample_ts (sample_pod ''p4'') empty_heap
    = calculatePreFilterStateCache sample_fw sample_ts (sample_pod ''p4'') empty_heap"
  by (rule parallel_order_irrelevant [where nodes = sample_nodes3])
     (simp_all add: sample_fw_def sample_ts_def plugin_at_def)

text \<open>
  C27. A nil node in the snapshot. The loop that creates the counters logs such an entry and
  goes on, \<open>processNode\<close> dereferences it: PreFilter panics.
\<close>

theorem prefilter_nil_node_panics:
  assumes "inputs_of fw ts p tsp nodes sel" "n \<in> set nodes" "Node n = None" "pieces_ok fw"
  shows "PreFilter fw ts cs p h = Panic NilDeref"
proof -
  have "\<not> nodes_live nodes" using assms(2,3) by (auto simp: nodes_live_def)
  then show ?thesis by (rule PreFilter_panic [OF assms(1) _ assms(4)])
qed

theorem prefilter_nil_node_panics_witness:
  "PreFilter sample_fw (plugin_at sample_idx [\<lparr>Node = None, Pods = []\<rparr>]) sample_cs (sample_pod ''p'') empty_heap
    = Panic NilDeref"
  by (rule prefilter_nil_node_panics [OF sample_inputs(1), of "\<lparr>Node = None, Pods = []\<rparr>"]) simp_all

section \<open>Filter\<close>

text \<open>
  C10. The decision of a cycle. PreFilter succeeds, and Filter then lets the pod on a node
  exactly when the policy's selector matches the pod, the node has the topology label, and
  either every value of the policy is tracked and has its replicas, or the node's value is
  in the policy and is untracked or below its replicas.
\<close>

theorem cycle_decision:
  assumes "inputs_of fw ts p tsp nodes sel" "nodes_live nodes" "pieces_ok fw" "heap_ok h"
    and "cycle_state_ok fw"
    and "\<forall>v. zone_count (TopologyKey (Spec tsp)) sel (pod_Namespace p) nodes v < 2 ^ 31"
    and "Node ni = Some nd"
  shows "\<exists>h' cs' r. PreFilter fw ts cs p h = Ret (h', cs', None)
    \<and> Filter fw ts h' cs' p ni = Ret r
    \<and> (is_success r \<longleftrightarrow> filter_accepts fw p tsp sel nodes nd)"
  using PreFilter_computed [OF assms(1-5), of cs] Filter_computed [OF _ _ assms(1) _ assms(6,7)]
  by metis

lemma sample_zone_small:
  "\<forall>v. zone_count (TopologyKey (Spec sample_tsp)) sample_sel (pod_Namespace (sample_pod name)) sample_nodes3 v < 2 ^ 31"
proof
  fix v
  have "zone_count ''zone'' sample_sel ''prod'' sample_nodes3 v \<le> 3"
    using zone_count_le_total [of "''zone''" sample_sel "''prod''" sample_nodes3 v] sample_zone_counts(3) by simp
  then show "zone_count (TopologyKey (Spec sample_tsp)) sample_sel (pod_Namespace (sample_pod name)) sample_nodes3 v < 2 ^ 31"
    by (simp add: sample_pod_def)
qed

theorem cycle_decision_witness:
  "\<exists>h' cs' r. PreFilter sample_fw sample_ts sample_cs (sample_pod ''p4'') empty_heap = Ret (h', cs', None)
    \<and> Filter sample_fw sample_ts h' cs' (sample_pod ''p4'') (sample_nodes3 ! 0) = Ret r
    \<and> (is_success r \<longleftrightarrow> filter_accepts sample_fw (sample_pod ''p4'') sample_tsp sample_sel sample_nodes3
          (sample_node ''n1'' ''a''))"
  unfolding sample_ts_def
proof (rule cycle_decision [OF sample_inputs(1) _ _ _ _ sample_zone_small])
  show "Node (sample_nodes3 ! 0) = Some (sample_node ''n1'' ''a'')" by code_simp
qed simp_all

text \<open>
  C22. The panic that Filter leaves to Reserve. A node whose topology value is in the policy
  but whose nodes are all ruled out by the pod's node selector or affinity has no counter:
  Filter accepts it, as the value counts as not reached, and Reserve dereferences the missing
  counter.
\<close>

theorem untracked_zone_accepted_then_panics:
  assumes "inputs_of fw ts p tsp nodes sel" "nodes_live nodes" "pieces_ok fw" "heap_ok h"
    and "cycle_state_ok fw" "sel (pod_Labels p)"
    and "Node ni = Some nd" "mget (node_Labels nd) (TopologyKey (Spec tsp)) = Some v"
    and "v \<in> Name ` set (DeployPlacement (Spec tsp))"
    and "\<not> tracked fw p (TopologyKey (Spec tsp)) nodes v"
    and "snapshot_Get ts name = Inr (Some ni)"
  shows "\<exists>h' cs'. PreFilter fw ts cs p h = Ret (h', cs', None)
    \<and> Filter fw ts h' cs' p ni = Ret None
    \<and> Reserve fw ts cs' p name h' = Panic NilDeref"
proof -
  let ?key = "TopologyKey (Spec tsp)"
  obtain st h' cs' where st: "PreFilter fw ts cs p h = Ret (h', cs', None)"
    "getPreFilterState fw cs' = Inr (Some st)" "computed fw p ?key sel nodes h' st"
    "SchedulePolicyMap (Constraint st) = CovertPolicy (DeployPlacement (Spec tsp))"
    using PreFilter_computed [OF assms(1-5), of cs] .
  then have sel: "Selector (Constraint st) = sel" "c_TopologyKey (Constraint st) = ?key"
    by (simp_all add: computed_def)
  have missing: "topo_pair ?key v \<notin> dom (counts h' st)"
    using st(3) assms(10) by (auto simp: computed_def expected_counts_def split: if_splits)
  obtain r where r: "glookup (CovertPolicy (DeployPlacement (Spec tsp))) v = Some r"
    using assms(9) dom_CovertPolicy by blast
  have inp: "filter_inputs fw ts cs' p ni st nd tsp"
    using st(2) assms(1,7) by (auto simp: filter_inputs_def inputs_of_def)
  have none: "counts h' st (topo_pair ?key v) = None"
    using st(3) assms(10) by (simp add: computed_def expected_counts_def)
  have "filter_verdict (counts h' st) st p nd ?key = None"
    using assms(6,8) r none
    by (auto simp: filter_verdict_def sel st(4) value_open_def reached_def)
  moreover have "relevant st p p (node_of (Some ni)) = Some (topo_pair ?key v)"
    using assms(6-8) sel by (simp add: relevant_def node_of_def)
  ultimately show ?thesis
    using st(1) Filter_eq [OF inp] missing inputs_of_require [OF assms(1)] assms(11) st(2)
      updateWithPod_panic_iff [of st p p "node_of (Some ni)" 1 h' NilDeref]
    by (auto simp: Reserve_def)
qed

definition picky_pod :: pod where
  "picky_pod = (sample_pod ''picky'')\<lparr>NodeSelector := Some [(''gpu'', ''yes'')]\<rparr>"

theorem untracked_zone_accepted_then_panics_witness:
  "\<exists>h' cs'. PreFilter sample_fw sample_ts sample_cs picky_pod empty_heap = Ret (h', cs', None)
    \<and> Filter sample_fw sample_ts h' cs' picky_pod (sample_nodes3 ! 0) = Ret None
    \<and> Reserve sample_fw sample_ts cs' picky_pod ''n1'' h' = Panic NilDeref"
proof (rule untracked_zone_accepted_then_panics [where tsp = sample_tsp and sel = sample_sel
      and nodes = sample_nodes3 and nd = "sample_node ''n1'' ''a''" and v = "''a''"])
  show "inputs_of sample_fw sample_ts picky_pod sample_tsp sample_nodes3 sample_sel"
    using sample_inputs(1) [of sample_nodes3 "''picky''"]
    by (simp add: inputs_of_def picky_pod_def sample_ts_def sample_pod_def)
  show "sample_sel (pod_Labels picky_pod)"
    using sample_pod_counted [of "''picky''"] by (simp add: counted_def picky_pod_def)
  show "Node (sample_nodes3 ! 0) = Some (sample_node ''n1'' ''a'')" by code_simp
  show "mget (node_Labels (sample_node ''n1'' ''a'')) (TopologyKey (Spec sample_tsp)) = Some ''a''"
    by code_simp
  show "''a'' \<in> Name ` set (DeployPlacement (Spec sample_tsp))" by (simp add: sample_tsp_def)
  have "list_all (\<lambda>n. case Node n of None \<Rightarrow> True
      | Some nd \<Rightarrow> \<not> PodMatchesNodeSelectorAndAffinityTerms sample_fw picky_pod nd) sample_nodes3"
    by code_simp
  then show "\<not> tracked sample_fw picky_pod (TopologyKey (Spec sample_tsp)) sample_nodes3 ''a''"
    by (auto simp: tracked_def admits_def list_all_iff)
  show "snapshot_Get sample_ts ''n1'' = Inr (Some (sample_nodes3 ! 0))" by code_simp
qed simp_all

text \<open>
  C23. A policy that changes during a cycle. PreFilter and Filter each look the policy up. When its
  topology key changes in between, Filter looks for counters of the new key, which PreFilter did
  not make: it accepts exactly the nodes whose value of the new key is a value of the old policy,
  however many pods there are.
\<close>

theorem policy_changed_in_cycle:
  assumes "inputs_of fw ts p tsp nodes sel" "nodes_live nodes" "pieces_ok fw" "heap_ok h"
    and "cycle_state_ok fw" "sel (pod_Labels p)" "DeployPlacement (Spec tsp) \<noteq> []"
    and "mget (pod_Labels p) TopologySchedulingLabelKey = Some name"
    and "get_policy (topologyPolicyLister ts') (pod_Namespace p) name = Inr tsp'"
    and "TopologyKey (Spec tsp') \<noteq> TopologyKey (Spec tsp)"
    and "Node ni = Some nd" "mget (node_Labels nd) (TopologyKey (Spec tsp')) = Some v"
  shows "\<exists>h' cs' r. PreFilter fw ts cs p h = Ret (h', cs', None)
    \<and> Filter fw ts' h' cs' p ni = Ret r
    \<and> (is_success r \<longleftrightarrow> v \<in> Name ` set (DeployPlacement (Spec tsp)))"
proof -
  obtain st h' cs' where st: "PreFilter fw ts cs p h = Ret (h', cs', None)"
    "getPreFilterState fw cs' = Inr (Some st)" "computed fw p (TopologyKey (Spec tsp)) sel nodes h' st"
    "SchedulePolicyMap (Constraint st) = CovertPolicy (DeployPlacement (Spec tsp))"
    using PreFilter_computed [OF assms(1-5), of cs] .
  have inp: "filter_inputs fw ts' cs' p ni st nd tsp'"
    using st(2) assms(8,9,11) by (simp add: filter_inputs_def)
  have sel: "Selector (Constraint st) = sel" using st(3) by (simp add: computed_def)
  have "CovertPolicy (DeployPlacement (Spec tsp)) \<noteq> []"
    using dom_CovertPolicy [of "DeployPlacement (Spec tsp)"] assms(7) by (auto simp: glookup_def)
  then have "is_success (filter_verdict (counts h' st) st p nd (TopologyKey (Spec tsp')))
      \<longleftrightarrow> v \<in> Name ` set (DeployPlacement (Spec tsp))"
    using assms(6,12) st(4) dom_CovertPolicy [of "DeployPlacement (Spec tsp)"] sel
    by (simp add: filter_verdict_success stale_counts_missing [OF st(3) assms(10)])
  then show ?thesis using st(1) Filter_eq [OF inp] by blast
qed

definition rack_tsp :: TopologySchedulingPolicy where
  "rack_tsp = sample_tsp\<lparr>Spec := (Spec sample_tsp)\<lparr>TopologyKey := ''rack''\<rparr>\<rparr>"

definition rack_idx :: indexer where
  "rack_idx = sample_idx\<lparr>GetByKey := (\<lambda>k. Inr (if k = ''prod/web'' then Some rack_tsp else None))\<rparr>"

definition rack_node :: node_info where
  "rack_node = \<lparr>Node = Some \<lparr>node_Name = ''n9'', node_Labels = Some [(''zone'', ''a''), (''rack'', ''b'')]\<rparr>, Pods = []\<rparr>"

theorem policy_changed_in_cycle_witness:
  "\<exists>h' cs' r. PreFilter sample_fw sample_ts sample_cs (sample_pod ''p4'') empty_heap = Ret (h', cs', None)
    \<and> Filter sample_fw (plugin_at rack_idx sample_nodes3) h' cs' (sample_pod ''p4'') rack_node = Ret r \<and> is_success r"
proof -
  let ?nd = "\<lparr>node_Name = ''n9'', node_Labels = Some [(''zone'', ''a''), (''rack'', ''b'')]\<rparr>"
  have pod: "sample_sel (pod_Labels (sample_pod ''p4''))"
    "mget (pod_Labels (sample_pod ''p4'')) TopologySchedulingLabelKey = Some ''web''"
    using sample_pod_counted [of "''p4''"] by (simp_all add: counted_def sample_pod_def mget_def glookup_def
        TopologySchedulingLabelKey_def)
  have pol: "get_policy (topologyPolicyLister (plugin_at rack_idx sample_nodes3)) (pod_Namespace (sample_pod ''p4'')) ''web''
      = Inr rack_tsp"
    by (simp add: get_policy_Inr_iff rack_idx_def plugin_at_def sample_pod_def)
  have keys: "DeployPlacement (Spec sample_tsp) \<noteq> []" "TopologyKey (Spec rack_tsp) \<noteq> TopologyKey (Spec sample_tsp)"
    "Node rack_node = Some ?nd" "mget (node_Labels ?nd) (TopologyKey (Spec rack_tsp)) = Some ''b''"
    "''b'' \<in> Name ` set (DeployPlacement (Spec sample_tsp))"
    by (simp_all add: rack_tsp_def rack_node_def mget_def glookup_def sample_tsp_def)
  from policy_changed_in_cycle [OF sample_inputs(1) sample_nodes_live(1) _ heap_ok_empty _ pod(1) keys(1) pod(2) pol keys(2,3,4)]
    keys(5)
  show ?thesis unfolding sample_ts_def by simp
qed

text \<open>
  Go's map iteration order does not reach the decision: the two checks of Filter give the
  same answer for every order in which the policy and the counters may be traversed.
\<close>

theorem filter_checks_order_irrelevant:
  assumes "gsame pol pol'" "gsame m m'"
  shows "checkPolicyRequirementReached h key pol m = checkPolicyRequirementReached h key pol' m'
    \<and> checkTopoValueReached h key v pol m = checkTopoValueReached h key v pol' m'"
proof -
  define st where "st = \<lparr>Constraint = \<lparr>c_TopologyKey = key, SchedulePolicyMap = pol, Selector = (\<lambda>_. True)\<rparr>,
     TpPairToMatchNum = m, st_ScheduleStrategy = ''''\<rparr>"
  define st' where "st' = st\<lparr>TpPairToMatchNum := m'\<rparr>"
  have "counts h st = counts h st'"
    using gsame_lookup [OF assms(2)] by (simp add: counts_def fun_eq_iff st_def st'_def)
  moreover have "glookup pol = glookup pol'" "set pol = set pol'"
    using assms(1) gsame_lookup [OF assms(1)] by (simp_all add: gsame_def)
  ultimately show ?thesis
    using checkPolicyRequirementReached_iff [of h key pol st] checkPolicyRequirementReached_iff [of h key pol' st']
      checkTopoValueReached_iff [of h key v pol st] checkTopoValueReached_iff [of h key v pol' st']
    by (simp add: policy_reached_def value_open_def st_def st'_def)
qed

theorem filter_checks_order_irrelevant_witness:
  "checkPolicyRequirementReached empty_heap ''zone'' [(''a'', 2), (''b'', 1)] [(topo_pair ''zone'' ''a'', 0)]
    = checkPolicyRequirementReached empty_heap ''zone'' [(''b'', 1), (''a'', 2)] [(topo_pair ''zone'' ''a'', 0)]"
proof (rule filter_checks_order_irrelevant [THEN conjunct1])
  show "gsame [(''a'', 2), (''b'', 1)] [(''b'', 1), (''a'', 2 :: int32)]"
    by (auto simp: gsame_def gmap_ok_def)
  show "gsame [(topo_pair ''zone'' ''a'', 0)] [(topo_pair ''zone'' ''a'', 0 :: addr)]"
    by (simp add: gsame_def gmap_ok_def)
qed

section \<open>Updates of the cycle state\<close>

text \<open>
  C16. \<open>updateWithPod\<close> refines an addition at one topology pair: on a well-formed state it
  either adds \<open>delta\<close> to the counter of the pair that the pod is charged to (and to no other,
  keeping the state well-formed), or panics, which happens exactly when that pair has no
  counter.
\<close>

theorem updateWithPod_refinement:
  assumes "state_ok h st"
  shows "case updateWithPod (Some st) u p nd d h of
      Ret h' \<Rightarrow> counts h' st = bump (relevant st u p nd) d (counts h st) \<and> state_ok h' st
        \<and> (\<forall>pair. relevant st u p nd = Some pair \<longrightarrow> pair \<in> dom (counts h st))
    | Panic e \<Rightarrow> e = NilDeref \<and> (\<exists>pair. relevant st u p nd = Some pair \<and> pair \<notin> dom (counts h st))"
proof (cases "updateWithPod (Some st) u p nd d h")
  case (Ret h')
  have "pair \<in> dom (counts h st)" if "relevant st u p nd = Some pair" for pair
    using Ret that by (auto simp: updateWithPod_cases counts_def split: option.splits)
  then show ?thesis using Ret updateWithPod_refines [OF assms Ret] by simp
next
  case (Panic e)
  then show ?thesis using updateWithPod_panic_iff [of st u p nd d h e] by simp
qed

definition sample_heap :: heap where
  "sample_heap = snd (new_int32 5 empty_heap)"

definition sample_state :: PreFilterState where
  "sample_state = \<lparr>Constraint = \<lparr>c_TopologyKey = ''zone'',
       SchedulePolicyMap = [(''a'', 2)], Selector = sample_sel\<rparr>,
     TpPairToMatchNum = [(topo_pair ''zone'' ''a'', 0)], st_ScheduleStrategy = ScheduleStrategyFill\<rparr>"

lemma sample_state_ok [simp]: "state_ok sample_heap sample_state"
  by (simp add: state_ok_def sample_heap_def sample_state_def new_int32_def empty_heap_def heap_ok_def
      own_counters_def gmap_ok_def counters_def)

theorem updateWithPod_refinement_witness:
  "\<exists>h'. updateWithPod (Some sample_state) (sample_pod ''p'') (sample_pod ''p'')
      (Some (sample_node ''n1'' ''a'')) 1 sample_heap = Ret h'
    \<and> counts h' sample_state (topo_pair ''zone'' ''a'') = Some 6"
proof -
  have r: "relevant sample_state (sample_pod ''p'') (sample_pod ''p'') (Some (sample_node ''n1'' ''a''))
      = Some (topo_pair ''zone'' ''a'')" by code_simp
  have c: "counts sample_heap sample_state (topo_pair ''zone'' ''a'') = Some 5" by code_simp
  have six: "(5 :: int32) + 1 = 6" by simp
  from updateWithPod_refinement [OF sample_state_ok, of "sample_pod ''p''" "sample_pod ''p''"
      "Some (sample_node ''n1'' ''a'')" 1]
  show ?thesis
    by (cases "updateWithPod (Some sample_state) (sample_pod ''p'') (sample_pod ''p'')
          (Some (sample_node ''n1'' ''a'')) 1 sample_heap")
       (simp_all add: r c bump_def domIff six del: dom_counts)
qed

text \<open>
  C14. A reservation recounts the snapshot: after PreFilter, Reserve of the (live) pod on a
  node that its selector and affinity admit succeeds, and the cycle state then holds what
  PreFilter would compute on the snapshot with the pod bound to that node.
\<close>

theorem reserve_recount:
  assumes "inputs_of fw ts p tsp nodes sel" "nodes_live nodes" "pieces_ok fw" "heap_ok h"
    and "cycle_state_ok fw" "DeletionTimestamp p = None"
    and "i < length nodes" "admits fw p (TopologyKey (Spec tsp)) v (nodes ! i)"
    and "snapshot_Get ts name = Inr (Some (nodes ! i))"
  shows "\<exists>h' cs' st h''. PreFilter fw ts cs p h = Ret (h', cs', None)
    \<and> Reserve fw ts cs' p name h' = Ret (h'', NewStatus Success '''')
    \<and> getPreFilterState fw cs' = Inr (Some st)
    \<and> counts h'' st = expected_counts fw p (TopologyKey (Spec tsp)) sel (bind_pod nodes i p)"
proof -
  obtain st h' cs' where st: "PreFilter fw ts cs p h = Ret (h', cs', None)"
    "getPreFilterState fw cs' = Inr (Some st)"
    "computed fw p (TopologyKey (Spec tsp)) sel nodes h' st"
    using PreFilter_computed [OF assms(1-5), of cs] by blast
  obtain h'' where "updateWithPod (Some st) p p (Node (nodes ! i)) 1 h' = Ret h''"
    "counts h'' st = expected_counts fw p (TopologyKey (Spec tsp)) sel (bind_pod nodes i p)"
    using updateWithPod_recount [OF st(3) assms(7,8,6)] .
  then show ?thesis
    using st inputs_of_require [OF assms(1)] assms(9) by (auto simp: Reserve_def node_of_def)
qed

theorem reserve_recount_witness:
  "\<exists>h' cs' st h''. PreFilter sample_fw sample_ts sample_cs (sample_pod ''p4'') empty_heap = Ret (h', cs', None)
    \<and> Reserve sample_fw sample_ts cs' (sample_pod ''p4'') ''n1'' h' = Ret (h'', NewStatus Success '''')
    \<and> getPreFilterState sample_fw cs' = Inr (Some st)
    \<and> counts h'' st = expected_counts sample_fw (sample_pod ''p4'') (TopologyKey (Spec sample_tsp)) sample_sel
        (bind_pod sample_nodes3 0 (sample_pod ''p4''))"
  unfolding sample_ts_def
proof (rule reserve_recount [OF sample_inputs(1), where v = "''a''"])
  show "snapshot_Get (plugin_at sample_idx sample_nodes3) ''n1'' = Inr (Some (sample_nodes3 ! 0))"
    by code_simp
  show "admits sample_fw (sample_pod ''p4'') (TopologyKey (Spec sample_tsp)) ''a'' (sample_nodes3 ! 0)"
    using sample_admits(1) by simp
  show "DeletionTimestamp (sample_pod ''p4'') = None" by (simp add: sample_pod_def)
qed simp_all

text \<open>
  C15. The what-if analysis of preemption, for live pods: AddPod of a pod to an admitted node
  gives the counts of the snapshot with that pod, and RemovePod of it from that snapshot's
  state gives the counts without it.
\<close>

theorem add_remove_recount:
  assumes "inputs_of fw ts p tsp nodes sel" "inputs_of fw ts' p tsp (bind_pod nodes i q) sel"
    and "nodes_live nodes" "pieces_ok fw" "heap_ok h"
    and "cycle_state_ok fw" "DeletionTimestamp q = None"
    and "i < length nodes" "admits fw p (TopologyKey (Spec tsp)) v (nodes ! i)"
  shows "(\<exists>h' cs' st h''. PreFilter fw ts cs p h = Ret (h', cs', None)
      \<and> AddPod fw cs' p q (nodes ! i) h' = Ret (h'', NewStatus Success '''')
      \<and> getPreFilterState fw cs' = Inr (Some st)
      \<and> counts h'' st = expected_counts fw p (TopologyKey (Spec tsp)) sel (bind_pod nodes i q))
    \<and> (\<exists>h' cs' st h''. PreFilter fw ts' cs p h = Ret (h', cs', None)
      \<and> RemovePod fw cs' p q (bind_pod nodes i q ! i) h' = Ret (h'', NewStatus Success '''')
      \<and> getPreFilterState fw cs' = Inr (Some st)
      \<and> counts h'' st = expected_counts fw p (TopologyKey (Spec tsp)) sel nodes)"
  (is "?add \<and> ?remove")
proof (rule conjI)
  let ?key = "TopologyKey (Spec tsp)" and ?nodes' = "bind_pod nodes i q"
  have req: "podRequireTopologyScheduling p" using inputs_of_require [OF assms(1)] .
  obtain st h' cs' where st: "PreFilter fw ts cs p h = Ret (h', cs', None)"
    "getPreFilterState fw cs' = Inr (Some st)" "computed fw p ?key sel nodes h' st"
    using PreFilter_computed [OF assms(1,3-6), of cs] by blast
  obtain h'' where "updateWithPod (Some st) q p (Node (nodes ! i)) 1 h' = Ret h''"
    "counts h'' st = expected_counts fw p ?key sel (bind_pod nodes i q)"
    using updateWithPod_recount [OF st(3) assms(8,9,7)] .
  then show ?add using st req by (auto simp: AddPod_def)
  have live: "nodes_live ?nodes'" using assms(3) by simp
  obtain st h' cs' where st: "PreFilter fw ts' cs p h = Ret (h', cs', None)"
    "getPreFilterState fw cs' = Inr (Some st)" "computed fw p ?key sel ?nodes' h' st"
    using PreFilter_computed [OF assms(2) live assms(4-6), of cs] by blast
  obtain h'' where "updateWithPod (Some st) q p (Node (?nodes' ! i)) (- 1) h' = Ret h''"
    "counts h'' st = expected_counts fw p ?key sel nodes"
    using updateWithPod_unbind [OF st(3) assms(8,9,7)] .
  then show ?remove using st req by (auto simp: RemovePod_def)
qed

theorem add_remove_recount_witness:
  "\<exists>h' cs' st h''. PreFilter sample_fw (plugin_at sample_idx sample_nodes3) sample_cs (sample_pod ''p4'') empty_heap
        = Ret (h', cs', None)
    \<and> AddPod sample_fw cs' (sample_pod ''p4'') (sample_pod ''q'') (sample_nodes3 ! 0) h' = Ret (h'', NewStatus Success '''')
    \<and> getPreFilterState sample_fw cs' = Inr (Some st)
    \<and> counts h'' st = expected_counts sample_fw (sample_pod ''p4'') (TopologyKey (Spec sample_tsp)) sample_sel
        (bind_pod sample_nodes3 0 (sample_pod ''q''))"
proof -
  have "admits sample_fw (sample_pod ''p4'') (TopologyKey (Spec sample_tsp)) ''a'' (sample_nodes3 ! 0)"
    using sample_admits(1) by simp
  moreover have "DeletionTimestamp (sample_pod ''q'') = None" by (simp add: sample_pod_def)
  ultimately show ?thesis
    by (intro add_remove_recount [where v = "''a''", OF sample_inputs(1) sample_inputs(1), THEN conjunct1])
       simp_all
qed

text \<open>
  C28. Unreserve undoes Reserve: whenever Reserve returns (with whatever status), Unreserve
  with the same arguments brings the counters back to what they were.
\<close>

theorem unreserve_undoes_reserve:
  assumes "\<forall>s. getPreFilterState fw cs = Inr s \<longrightarrow> state_ptr_ok h s"
    and "Reserve fw ts cs p name h = Ret (h', r)"
  shows "Unreserve fw ts cs p name h' = Ret h"
  using assms by (rule Unreserve_Reserve)

definition sample_written :: "string \<Rightarrow> go_error + state_data" where
  "sample_written = sample_cs(preFilterStateKey := Inr (PreFilterData (Some sample_state)))"

lemma sample_written_read [simp]:
  "getPreFilterState sample_fw sample_written = Inr (Some sample_state)"
  by (simp add: getPreFilterState_def sample_fw_def sample_written_def)

lemma sample_written_ok [simp]:
  "\<forall>s. getPreFilterState sample_fw sample_written = Inr s \<longrightarrow> state_ptr_ok sample_heap s"
  by (simp add: state_ptr_ok_def)

lemma sample_update [simp]:
  "updateWithPod (Some sample_state) (sample_pod q) (sample_pod p) (Some (sample_node ''n1'' ''a'')) d h
    = Ret (add_int32 0 d h)"
  by (simp add: updateWithPod_def sample_state_def sample_pod_def sample_node_def sample_sel_def
      labels_match_def mget_def mget_zero_def glookup_def)

lemma sample_require [simp]: "podRequireTopologyScheduling (sample_pod name)"
  using inputs_of_require [OF sample_inputs(1)] .

lemma sample_get_n1: "snapshot_Get sample_ts ''n1'' = Inr (Some (sample_nodes3 ! 0))"
  "Node (sample_nodes3 ! 0) = Some (sample_node ''n1'' ''a'')"
  by code_simp+

theorem unreserve_undoes_reserve_witness:
  "\<exists>h'. Reserve sample_fw sample_ts sample_written (sample_pod ''p'') ''n1'' sample_heap
      = Ret (h', NewStatus Success '''')
    \<and> load h' 0 = 6
    \<and> Unreserve sample_fw sample_ts sample_written (sample_pod ''p'') ''n1'' h' = Ret sample_heap"
proof -
  have r: "Reserve sample_fw sample_ts sample_written (sample_pod ''p'') ''n1'' sample_heap
      = Ret (add_int32 0 1 sample_heap, NewStatus Success '''')"
    by (simp add: Reserve_def AddPod_def sample_get_n1 node_of_def)
  have "load (add_int32 0 1 sample_heap) 0 = 6" by code_simp
  with r unreserve_undoes_reserve [OF sample_written_ok r] show ?thesis by blast
qed

text \<open>
  RemovePod undoes AddPod: adding a pod to a node and removing it again, as preemption's
  dry run does, leaves every counter as it was and returns the same status.
\<close>

theorem removepod_undoes_addpod:
  assumes "\<forall>s. getPreFilterState fw cs = Inr s \<longrightarrow> state_ptr_ok h s"
    and "AddPod fw cs p q ni h = Ret (h', r)"
  shows "RemovePod fw cs p q ni h' = Ret (h, r)"
  using assms by (rule RemovePod_AddPod)

theorem removepod_undoes_addpod_witness:
  "\<exists>h'. AddPod sample_fw sample_written (sample_pod ''p'') (sample_pod ''q'') (sample_nodes3 ! 0) sample_heap
      = Ret (h', NewStatus Success '''')
    \<and> RemovePod sample_fw sample_written (sample_pod ''p'') (sample_pod ''q'') (sample_nodes3 ! 0) h'
      = Ret (sample_heap, NewStatus Success '''')"
proof -
  have r: "AddPod sample_fw sample_written (sample_pod ''p'') (sample_pod ''q'') (sample_nodes3 ! 0) sample_heap
      = Ret (add_int32 0 1 sample_heap, NewStatus Success '''')"
    by (simp add: Reserve_def AddPod_def sample_get_n1 node_of_def)
  from r removepod_undoes_addpod [OF sample_written_ok r] show ?thesis by blast
qed

text \<open>
  C21. A clone is a snapshot. It holds the same numbers in counters of its own, so updates
  of the clone (AddPod and RemovePod of a preemption attempt) are invisible in the original
  state, and updates of the original are invisible in the clone.
\<close>

theorem clone_isolated:
  assumes "state_ok h st" "Clone (Some st) h = (s', h')"
  shows "\<exists>st'. s' = Some st' \<and> state_ok h' st' \<and> counts h' st' = counts h st
    \<and> Constraint st' = Constraint st \<and> st_ScheduleStrategy st' = st_ScheduleStrategy st
    \<and> (\<forall>u p nd d h''. updateWithPod (Some st') u p nd d h' = Ret h''
          \<longrightarrow> counts h'' st = counts h st \<and> state_ok h'' st)
    \<and> (\<forall>u p nd d h''. updateWithPod (Some st) u p nd d h' = Ret h''
          \<longrightarrow> counts h'' st' = counts h st \<and> state_ok h'' st')"
proof -
  obtain st' where st': "s' = Some st'" "state_ok h' st'" "state_ok h' st"
    "counts h' st' = counts h st" "counts h' st = counts h st" "counters st \<inter> counters st' = {}"
    "Constraint st' = Constraint st" "st_ScheduleStrategy st' = st_ScheduleStrategy st"
    using Clone_Some [OF assms] by metis
  have frame: "counts h'' b = counts h' b \<and> state_ok h'' b"
    if "updateWithPod (Some a) u p nd d h' = Ret h''" "state_ok h' a" "state_ok h' b"
      "counters a \<inter> counters b = {}" for a b u p nd d h''
    using that(1) disjoint_update [OF that(2-4)] by blast
  have sym: "counters st' \<inter> counters st = {}" using st'(6) by blast
  show ?thesis
    using st' frame [OF _ st'(2,3) sym] frame [OF _ st'(3,2,6)] by simp
qed

theorem clone_isolated_witness:
  "\<exists>st'. fst (Clone (Some sample_state) sample_heap) = Some st'
    \<and> counts (snd (Clone (Some sample_state) sample_heap)) st' = counts sample_heap sample_state"
  using clone_isolated [OF sample_state_ok prod.collapse [symmetric]] by blast

text \<open>
  C4. A preemption attempt. PreFilter, then a clone of its state, on which RemovePod is called for
  some live pods of an admitted node: Filter with the clone then decides as the arithmetic
  criterion says for the snapshot without these pods, and the counts of the original state are
  what they were.
\<close>

theorem preemption_dry_run:
  assumes "inputs_of fw ts p tsp nodes sel" "nodes_live nodes" "pieces_ok fw" "heap_ok h"
    and "cycle_state_ok fw" "i < length nodes" "admits fw p (TopologyKey (Spec tsp)) v (nodes ! i)"
    and "Node (nodes ! i) = Some nd" "\<forall>q \<in> set qs. DeletionTimestamp q = None"
    and "mset (map Some qs) \<subseteq># mset (Pods (nodes ! i))"
    and "\<forall>v. zone_count (TopologyKey (Spec tsp)) sel (pod_Namespace p) (drop_pods nodes i qs) v < 2 ^ 31"
  shows "\<exists>h' cs' st st' h1 h2 r. PreFilter fw ts cs p h = Ret (h', cs', None)
    \<and> getPreFilterState fw cs' = Inr (Some st) \<and> Clone (Some st) h' = (Some st', h1)
    \<and> remove_pods fw (cs_write fw cs' preFilterStateKey (PreFilterData (Some st'))) p (nodes ! i) qs h1 = Ret h2
    \<and> counts h2 st = counts h' st
    \<and> Filter fw ts h2 (cs_write fw cs' preFilterStateKey (PreFilterData (Some st'))) p (drop_pods nodes i qs ! i) = Ret r
    \<and> (is_success r \<longleftrightarrow> filter_accepts fw p tsp sel (drop_pods nodes i qs) nd)"
proof -
  let ?key = "TopologyKey (Spec tsp)"
  obtain st h' cs' where st: "PreFilter fw ts cs p h = Ret (h', cs', None)"
    "getPreFilterState fw cs' = Inr (Some st)" "computed fw p ?key sel nodes h' st"
    "SchedulePolicyMap (Constraint st) = CovertPolicy (DeployPlacement (Spec tsp))"
    using PreFilter_computed [OF assms(1-5), of cs] by blast
  have ok: "state_ok h' st" using st(3) by (simp add: computed_def)
  obtain s' h1 where cl: "Clone (Some st) h' = (s', h1)" by (cases "Clone (Some st) h'")
  obtain st' where st': "s' = Some st'" "state_ok h1 st'" "state_ok h1 st"
    "counts h1 st' = counts h' st" "counts h1 st = counts h' st" "counters st \<inter> counters st' = {}"
    "Constraint st' = Constraint st"
    using Clone_Some [OF ok cl] by metis
  let ?cs = "cs_write fw cs' preFilterStateKey (PreFilterData (Some st'))"
  have rd: "getPreFilterState fw ?cs = Inr (Some st')" by (rule getPreFilterState_write [OF assms(5)])
  have c': "computed fw p ?key sel nodes h1 st'" using st(3) st'(2,4,7) by (simp add: computed_def)
  have disj: "counters st' \<inter> counters st = {}" using st'(6) by blast
  obtain h2 where h2: "remove_pods fw ?cs p (nodes ! i) qs h1 = Ret h2"
    "computed fw p ?key sel (drop_pods nodes i qs) h2 st'" "counts h2 st = counts h1 st"
    using remove_pods_computed [OF rd inputs_of_require [OF assms(1)] c' assms(6,7,9,10) refl st'(3) disj] by blast
  have pol: "SchedulePolicyMap (Constraint st') = CovertPolicy (DeployPlacement (Spec tsp))"
    using st(4) st'(7) by simp
  have n: "Node (drop_pods nodes i qs ! i) = Some nd" using assms(6,8) by simp
  obtain r where "Filter fw ts h2 ?cs p (drop_pods nodes i qs ! i) = Ret r"
    "is_success r \<longleftrightarrow> filter_accepts fw p tsp sel (drop_pods nodes i qs) nd"
    using Filter_computed [OF h2(2) pol assms(1) rd assms(11) n] by blast
  then show ?thesis using st(1,2) cl st'(1,5) h2(1,3) by auto
qed

theorem preemption_dry_run_witness:
  "\<exists>h' cs' st st' h1 h2. PreFilter sample_fw (plugin_at sample_idx sample_nodes3) sample_cs (sample_pod ''p4'') empty_heap
        = Ret (h', cs', None)
    \<and> getPreFilterState sample_fw cs' = Inr (Some st) \<and> Clone (Some st) h' = (Some st', h1)
    \<and> remove_pods sample_fw (cs_write sample_fw cs' preFilterStateKey (PreFilterData (Some st'))) (sample_pod ''p4'')
        (sample_nodes3 ! 0) [sample_pod ''p1''] h1 = Ret h2
    \<and> counts h2 st = counts h' st
    \<and> (\<exists>r. Filter sample_fw (plugin_at sample_idx sample_nodes3) h2
          (cs_write sample_fw cs' preFilterStateKey (PreFilterData (Some st'))) (sample_pod ''p4'')
          (drop_pods sample_nodes3 0 [sample_pod ''p1''] ! 0) = Ret r \<and> is_success r)"
proof -
  let ?after = "drop_pods sample_nodes3 0 [sample_pod ''p1'']"
  have one: "zone_count ''zone'' sample_sel ''prod'' ?after ''a'' = 1"
    "glookup (CovertPolicy (DeployPlacement (Spec sample_tsp))) ''a'' = Some 2"
    "sample_sel (pod_Labels (sample_pod ''p4''))" "pod_Namespace (sample_pod ''p4'') = ''prod''"
    "mget (node_Labels (sample_node ''n1'' ''a'')) ''zone'' = Some ''a''"
    "pods_total sample_sel ''prod'' ?after = 2"
    by code_simp+
  have n: "Node (sample_nodes3 ! 0) = Some (sample_node ''n1'' ''a'')"
    "mset (map Some [sample_pod ''p1'']) \<subseteq># mset (Pods (sample_nodes3 ! 0))"
    by (simp_all add: sample_nodes3_def sample_nodes2_def sample_nodes1_def sample_nodes_def bind_pod_def)
  have yes: "filter_accepts sample_fw (sample_pod ''p4'') sample_tsp sample_sel ?after (sample_node ''n1'' ''a'')"
    using one by (simp add: filter_accepts_def)
  have small: "\<forall>v. zone_count (TopologyKey (Spec sample_tsp)) sample_sel (pod_Namespace (sample_pod ''p4'')) ?after v < 2 ^ 31"
    using zone_count_le_total [of "''zone''" sample_sel "''prod''" ?after] by (simp add: one) (meson le_less_trans numeral_less_iff semiring_norm)
  have "\<forall>q \<in> set [sample_pod ''p1'']. DeletionTimestamp q = None" by (simp add: sample_pod_def)
  from preemption_dry_run [OF sample_inputs(1) sample_nodes_live(1) sample_fw_ok(2) heap_ok_empty sample_fw_ok(1)
      _ _ n(1) this n(2) small, of "''a''" sample_cs] yes sample_admits(1)
  show ?thesis by simp
qed

text \<open>
  C29. A terminating pod. PreFilter leaves it out of the count, but RemovePod, which the
  preemption logic calls on such a pod as on any other, still takes one off: afterwards the
  counter is one below the number that PreFilter computes with or without that pod.
\<close>

theorem removepod_terminating_miscounts:
  assumes "inputs_of fw ts p tsp nodes sel" "nodes_live nodes" "pieces_ok fw" "heap_ok h"
    and "cycle_state_ok fw" "DeletionTimestamp q \<noteq> None" "pod_Namespace q = pod_Namespace p"
    and "sel (pod_Labels q)" "i < length nodes" "admits fw p (TopologyKey (Spec tsp)) v (nodes ! i)"
  shows "\<exists>h' cs' st h''. PreFilter fw ts cs p h = Ret (h', cs', None)
    \<and> RemovePod fw cs' p q (nodes ! i) h' = Ret (h'', NewStatus Success '''')
    \<and> getPreFilterState fw cs' = Inr (Some st)
    \<and> counts h'' st (topo_pair (TopologyKey (Spec tsp)) v) =
        Some (int32_of (zone_count (TopologyKey (Spec tsp)) sel (pod_Namespace p) nodes v - 1))
    \<and> zone_count (TopologyKey (Spec tsp)) sel (pod_Namespace p) (drop_pod nodes i q) v
        = zone_count (TopologyKey (Spec tsp)) sel (pod_Namespace p) nodes v"
proof -
  let ?key = "TopologyKey (Spec tsp)" and ?ns = "pod_Namespace p"
  obtain st h' cs' where st: "PreFilter fw ts cs p h = Ret (h', cs', None)"
    "getPreFilterState fw cs' = Inr (Some st)" "computed fw p ?key sel nodes h' st"
    using PreFilter_computed [OF assms(1-5), of cs] by blast
  obtain nd where nd: "Node (nodes ! i) = Some nd" "mget (node_Labels nd) ?key = Some v"
    using assms(10) by (auto simp: admits_def)
  obtain h'' where h'': "updateWithPod (Some st) q p (Node (nodes ! i)) (- 1) h' = Ret h''"
    "counts h'' st = (if pod_Namespace q = ?ns \<and> sel (pod_Labels q)
       then (expected_counts fw p ?key sel nodes)
         (topo_pair ?key v \<mapsto> int32_of (zone_count ?key sel ?ns nodes v) + (- 1))
       else expected_counts fw p ?key sel nodes)"
    using updateWithPod_computed [OF st(3) nd admits_tracked [OF assms(9,10)]] .
  have "zone_count ?key sel ?ns (drop_pod nodes i q) v = zone_count ?key sel ?ns nodes v"
    using assms(6,9) by (simp add: drop_pod_def zone_count_uncounted counted_def)
  moreover have "int32_of (n - 1) = int32_of n + (- 1)" for n
    by (simp add: int32_of_def)
  ultimately show ?thesis
    using st h'' assms(7,8) inputs_of_require [OF assms(1)] by (simp add: RemovePod_def)
qed

definition dying_pod :: pod where
  "dying_pod = (sample_pod ''dying'')\<lparr>DeletionTimestamp := Some 7\<rparr>"

theorem removepod_terminating_miscounts_witness:
  "\<exists>h' cs' st h''. PreFilter sample_fw (plugin_at sample_idx (bind_pod sample_nodes3 0 dying_pod)) sample_cs
        (sample_pod ''p'') empty_heap = Ret (h', cs', None)
    \<and> RemovePod sample_fw cs' (sample_pod ''p'') dying_pod (bind_pod sample_nodes3 0 dying_pod ! 0) h'
        = Ret (h'', NewStatus Success '''')
    \<and> getPreFilterState sample_fw cs' = Inr (Some st)
    \<and> counts h'' st (topo_pair (TopologyKey (Spec sample_tsp)) ''a'') =
        Some (int32_of (zone_count (TopologyKey (Spec sample_tsp)) sample_sel (pod_Namespace (sample_pod ''p''))
          (bind_pod sample_nodes3 0 dying_pod) ''a'' - 1))
    \<and> zone_count (TopologyKey (Spec sample_tsp)) sample_sel (pod_Namespace (sample_pod ''p''))
          (drop_pod (bind_pod sample_nodes3 0 dying_pod) 0 dying_pod) ''a''
        = zone_count (TopologyKey (Spec sample_tsp)) sample_sel (pod_Namespace (sample_pod ''p''))
          (bind_pod sample_nodes3 0 dying_pod) ''a''"
proof (rule removepod_terminating_miscounts [OF sample_inputs(1)])
  show "admits sample_fw (sample_pod ''p'') (TopologyKey (Spec sample_tsp)) ''a''
      (bind_pod sample_nodes3 0 dying_pod ! 0)"
    using sample_admits(1) [of "''p''"] by (simp add: admits_def bind_pod_def)
  show "sample_sel (pod_Labels dying_pod)"
    using sample_pod_counted [of "''dying''"] by (simp add: counted_def dying_pod_def)
  show "0 < length (bind_pod sample_nodes3 0 dying_pod)" by (simp add: bind_pod_def)
qed (simp_all add: dying_pod_def sample_pod_def)

section \<open>Score\<close>

text \<open>
  C30. Under the Fill strategy every score is within the framework's range: whatever the
  cycle state holds (counters that are not negative), the score is at least 0 and below 100.
\<close>

theorem fill_score_in_range:
  assumes "getPreFilterState fw cs = Inr (Some st)" "st_ScheduleStrategy st = ScheduleStrategyFill"
    and "\<forall>pair n. counts h st pair = Some n \<longrightarrow> 0 \<le> sint n"
  shows "0 \<le> sint (fst (Score fw ts h cs p name)) \<and> sint (fst (Score fw ts h cs p name)) < 100"
proof -
  have "0 \<le> sint (score (fuses fw) (int64_oob fw) (f64_of_int32 (load h cnt)) (f64_of_int32 d) ScheduleStrategyFill)
      \<and> sint (score (fuses fw) (int64_oob fw) (f64_of_int32 (load h cnt)) (f64_of_int32 d) ScheduleStrategyFill) < 100"
    if "\<not> d \<le>s load h cnt" "glookup (TpPairToMatchNum st) pair = Some cnt" for cnt d pair
  proof (rule fill_bounds)
    have "counts h st pair = Some (load h cnt)" using that(2) by (simp add: counts_def)
    then show "0 \<le> sint (load h cnt)" using assms(3) by blast
    show "sint (load h cnt) < sint d" using that(1) by (simp add: word_sle_eq)
  qed
  then show ?thesis
    by (auto simp: Score_def assms(1,2) split: sum.splits option.splits)
qed

theorem fill_score_in_range_witness:
  "0 \<le> sint (fst (Score sample_fw sample_ts sample_heap sample_written (sample_pod ''p'') ''n1''))
    \<and> sint (fst (Score sample_fw sample_ts sample_heap sample_written (sample_pod ''p'') ''n1'')) < 100"
proof (rule fill_score_in_range [OF sample_written_read])
  show "\<forall>pair n. counts sample_heap sample_state pair = Some n \<longrightarrow> 0 \<le> sint n"
    by (auto simp: counts_def sample_heap_def sample_state_def new_int32_def empty_heap_def load_def
        glookup_def split: if_splits)
qed (simp add: sample_state_def)

text \<open>The state that PreFilter leaves behind, with the parts of the policy that Score reads.\<close>

lemma PreFilter_scored:
  assumes "inputs_of fw ts p tsp nodes sel" "nodes_live nodes" "pieces_ok fw" "heap_ok h" "cycle_state_ok fw"
  obtains st h' cs' where "PreFilter fw ts cs p h = Ret (h', cs', None)"
    "getPreFilterState fw cs' = Inr (Some st)" "computed fw p (TopologyKey (Spec tsp)) sel nodes h' st"
    "SchedulePolicyMap (Constraint st) = CovertPolicy (DeployPlacement (Spec tsp))"
    "st_ScheduleStrategy st = ScheduleStrategy (Spec tsp)"
  using PreFilter_computed [OF assms, of cs] PreFilter_Ret [OF assms, of cs]
  by (metis (no_types, lifting) go.inject(1) prod.inject sum.inject(2) option.inject)

text \<open>
  C34. Fill prefers the fuller value. Under the Fill strategy, of two nodes that the pod may use,
  the one whose value has the greater share of its replicas in place never scores less, as long as
  this value still lacks a pod; the replicas of the two values may differ, and the two
  roundings of the float64 arithmetic do not change the order.
\<close>

theorem fill_prefers_fuller:
  assumes "inputs_of fw ts p tsp nodes sel" "nodes_live nodes" "pieces_ok fw" "heap_ok h" "cycle_state_ok fw"
    and "ScheduleStrategy (Spec tsp) = ScheduleStrategyFill"
    and "snapshot_Get ts a = Inr (Some na)" "na \<in> set nodes" "admits fw p (TopologyKey (Spec tsp)) v na"
    and "snapshot_Get ts b = Inr (Some nb)" "nb \<in> set nodes" "admits fw p (TopologyKey (Spec tsp)) w nb"
    and "glookup (CovertPolicy (DeployPlacement (Spec tsp))) v = Some q"
    and "glookup (CovertPolicy (DeployPlacement (Spec tsp))) w = Some r"
    and "zone_count (TopologyKey (Spec tsp)) sel (pod_Namespace p) nodes v * sint r
      \<le> zone_count (TopologyKey (Spec tsp)) sel (pod_Namespace p) nodes w * sint q"
    and "zone_count (TopologyKey (Spec tsp)) sel (pod_Namespace p) nodes w < sint r"
    and "zone_count (TopologyKey (Spec tsp)) sel (pod_Namespace p) nodes v < 2 ^ 31"
  shows "\<exists>h' cs'. PreFilter fw ts cs p h = Ret (h', cs', None)
    \<and> fst (Score fw ts h' cs' p a) \<le>s fst (Score fw ts h' cs' p b)"
proof -
  let ?n = "zone_count (TopologyKey (Spec tsp)) sel (pod_Namespace p) nodes"
  obtain st h' cs' where st: "PreFilter fw ts cs p h = Ret (h', cs', None)"
    "getPreFilterState fw cs' = Inr (Some st)" "computed fw p (TopologyKey (Spec tsp)) sel nodes h' st"
    "SchedulePolicyMap (Constraint st) = CovertPolicy (DeployPlacement (Spec tsp))"
    "st_ScheduleStrategy st = ScheduleStrategy (Spec tsp)"
    using PreFilter_scored [OF assms(1-5), of cs] by metis
  have small: "?n w < 2 ^ 31" using assms(16) sint_int32_bounds(2) [of r] by linarith
  note sa = Score_computed [OF assms(1) st(2-4) assms(7-9,13,17)]
    and sb = Score_computed [OF assms(1) st(2-4) assms(10-12,14) small]
  have nn: "0 \<le> ?n v" "0 \<le> ?n w" by (rule zone_count_nonneg)+
  define c where "c = int32_of (?n v)"
  define c' where "c' = int32_of (?n w)"
  have c: "sint c = ?n v" "sint c' = ?n w" unfolding c_def c'_def by (rule sa(2), rule sb(2))
  have b: "sint (fst (Score fw ts h' cs' p b)) = \<lfloor>percent (?n w) (sint r)\<rfloor>"
    using score_fill [of c' r "fuses fw" "int64_oob fw"] assms(6,16) nn(2) sb(1)
    by (simp add: c st(5) flip: c'_def)
  have "sint (fst (Score fw ts h' cs' p a)) \<le> \<lfloor>percent (?n w) (sint r)\<rfloor>"
  proof (cases "sint q \<le> ?n v")
    case True
    then show ?thesis using sa(1) percent_nonneg [OF nn(2) assms(16)] by simp
  next
    case False
    then have "sint (fst (Score fw ts h' cs' p a)) = \<lfloor>percent (?n v) (sint q)\<rfloor>"
      using score_fill [of c q "fuses fw" "int64_oob fw"] assms(6) nn(1) sa(1)
      by (simp add: c st(5) flip: c_def)
    then show ?thesis
      using floor_mono [OF percent_mono [OF assms(15)]] False nn assms(16) by simp
  qed
  then show ?thesis using st(1) by (intro exI [of _ h'] exI [of _ cs']) (simp add: word_sle_eq b)
qed

theorem fill_prefers_fuller_witness:
  "\<exists>h' cs'. PreFilter sample_fw (plugin_at sample_idx sample_nodes1) sample_cs (sample_pod ''p2'') empty_heap = Ret (h', cs', None)
    \<and> fst (Score sample_fw (plugin_at sample_idx sample_nodes1) h' cs' (sample_pod ''p2'') ''n2'')
      \<le>s fst (Score sample_fw (plugin_at sample_idx sample_nodes1) h' cs' (sample_pod ''p2'') ''n1'')"
proof -
  let ?na = "sample_nodes1 ! 0" and ?nb = "sample_nodes1 ! 1"
  have c: "zone_count ''zone'' sample_sel ''prod'' sample_nodes1 ''a'' = 1"
    "zone_count ''zone'' sample_sel ''prod'' sample_nodes1 ''b'' = 0" by code_simp+
  have n: "?na \<in> set sample_nodes1" "?nb \<in> set sample_nodes1" by (rule nth_mem, simp)+
  have a: "admits sample_fw (sample_pod ''p2'') (TopologyKey (Spec sample_tsp)) ''a'' ?na"
    "admits sample_fw (sample_pod ''p2'') (TopologyKey (Spec sample_tsp)) ''b'' ?nb"
    by (simp_all add: admits_def sample_nodes1_def sample_nodes_def bind_pod_def sample_node_def mget_def glookup_def)
  have s: "snapshot_Get (plugin_at sample_idx sample_nodes1) ''n1'' = Inr (Some ?na)"
    "snapshot_Get (plugin_at sample_idx sample_nodes1) ''n2'' = Inr (Some ?nb)" by code_simp+
  have q: "glookup (CovertPolicy (DeployPlacement (Spec sample_tsp))) ''a'' = Some 2"
    "glookup (CovertPolicy (DeployPlacement (Spec sample_tsp))) ''b'' = Some 1" by code_simp+
  have l: "nodes_live sample_nodes1"
    by (simp add: nodes_live_def sample_nodes1_def sample_nodes_def bind_pod_def)
  have f: "ScheduleStrategy (Spec sample_tsp) = ScheduleStrategyFill" by (simp add: sample_tsp_def)
  show ?thesis
    by (rule fill_prefers_fuller [OF sample_inputs(1) l _ heap_ok_empty _ f s(2) n(2) a(2) s(1) n(1) a(1) q(2) q(1)])
       (use c in \<open>simp_all add: sample_pod_def sample_tsp_def\<close>)
qed

text \<open>
  C13. The score of a cycle. After PreFilter, a node that the pod may use and whose value is in the
  policy scores 0 when the value has its replicas. Otherwise, with \<open>c\<close> of \<open>d\<close> replicas in place:
  the Fill score is, despite two float64 roundings, the integer percentage, or one less when the
  percentage is a whole number (29 of 100 scores 28); the Balance score \<open>1 - count/desired*100\<close> is
  one minus the percentage, so it is 1 for no pod, 0 for less than 2 percent, and a negative
  number down to -98 from 2 percent on, outside the framework's range, with or without fused
  arithmetic.
\<close>

theorem score_of_cycle:
  assumes "inputs_of fw ts p tsp nodes sel" "nodes_live nodes" "pieces_ok fw" "heap_ok h"
    and "cycle_state_ok fw"
    and "snapshot_Get ts name = Inr (Some ni)" "ni \<in> set nodes" "admits fw p (TopologyKey (Spec tsp)) v ni"
    and "glookup (CovertPolicy (DeployPlacement (Spec tsp))) v = Some q"
    and "zone_count (TopologyKey (Spec tsp)) sel (pod_Namespace p) nodes v < 2 ^ 31"
  shows "\<exists>h' cs'. PreFilter fw ts cs p h = Ret (h', cs', None)
    \<and> (let c = zone_count (TopologyKey (Spec tsp)) sel (pod_Namespace p) nodes v; d = sint q;
           s = sint (fst (Score fw ts h' cs' p name)); percent = 100 * c div d
       in if d \<le> c then s = 0
          else (ScheduleStrategy (Spec tsp) = ScheduleStrategyFill \<longrightarrow>
                  percent - 1 \<le> s \<and> s \<le> percent \<and> (\<not> d dvd 100 * c \<longrightarrow> s = percent))
             \<and> (ScheduleStrategy (Spec tsp) = ScheduleStrategyBalance \<longrightarrow>
                  (c = 0 \<longrightarrow> s = 1) \<and> (0 < c \<and> 50 * c < d \<longrightarrow> s = 0) \<and> (d \<le> 50 * c \<longrightarrow> - 98 \<le> s \<and> s < 0)))"
proof -
  obtain st h' cs' where st: "PreFilter fw ts cs p h = Ret (h', cs', None)"
    "getPreFilterState fw cs' = Inr (Some st)" "computed fw p (TopologyKey (Spec tsp)) sel nodes h' st"
    "SchedulePolicyMap (Constraint st) = CovertPolicy (DeployPlacement (Spec tsp))"
    "st_ScheduleStrategy st = ScheduleStrategy (Spec tsp)"
    using PreFilter_scored [OF assms(1-5), of cs] by metis
  let ?c = "zone_count (TopologyKey (Spec tsp)) sel (pod_Namespace p) nodes v"
  note sc = Score_computed [OF assms(1) st(2,3,4) assms(6-10)]
  define w where "w = int32_of ?c"
  have w: "sint w = ?c" unfolding w_def by (rule sc(2))
  have fill: "100 * ?c div sint q - 1 \<le> s \<and> s \<le> 100 * ?c div sint q \<and> (\<not> sint q dvd 100 * ?c \<longrightarrow> s = 100 * ?c div sint q)"
    if "?c < sint q" "s = sint (score (fuses fw) (int64_oob fw) (f64_of_int32 w) (f64_of_int32 q) ScheduleStrategyFill)" for s
    using fill_floor [of "sint w" "sint q", OF _ _ sint_int32_bounds(2)] score_fill [of w q] that
    by (simp add: w)
  have balance: "(?c = 0 \<longrightarrow> s = 1) \<and> (0 < ?c \<and> 50 * ?c < sint q \<longrightarrow> s = 0) \<and> (sint q \<le> 50 * ?c \<longrightarrow> - 98 \<le> s \<and> s < 0)"
    if "?c < sint q" "s = sint (score (fuses fw) (int64_oob fw) (f64_of_int32 w) (f64_of_int32 q) ScheduleStrategyBalance)" for s
    using balance_zero [of "fuses fw" "sint q"] balance_small [OF _ _ sint_int32_bounds(2), of ?c q "fuses fw"]
      balance_negative [OF _ that(1) sint_int32_bounds(2), of "fuses fw"] score_balance [of w q] that
    by (simp add: w)
  show ?thesis
    using st(1) sc(1) fill balance
    by (intro exI [of _ h'] exI [of _ cs']) (simp add: Let_def st(5) w_def)
qed

theorem score_of_cycle_witness:
  "\<exists>h' cs'. PreFilter sample_fw (plugin_at sample_idx sample_nodes1) sample_cs (sample_pod ''p2'') empty_heap = Ret (h', cs', None)
    \<and> sint (fst (Score sample_fw (plugin_at sample_idx sample_nodes1) h' cs' (sample_pod ''p2'') ''n1'')) \<in> {49, 50}"
proof -
  let ?ni = "sample_nodes1 ! 0"
  have c: "zone_count ''zone'' sample_sel ''prod'' sample_nodes1 ''a'' = 1" by code_simp
  have n: "?ni \<in> set sample_nodes1" by (rule nth_mem) simp
  have a: "admits sample_fw (sample_pod ''p2'') (TopologyKey (Spec sample_tsp)) ''a'' ?ni"
    by (simp add: admits_def sample_nodes1_def sample_nodes_def bind_pod_def sample_node_def mget_def glookup_def)
  have s: "snapshot_Get (plugin_at sample_idx sample_nodes1) ''n1'' = Inr (Some ?ni)" by code_simp
  have q: "glookup (CovertPolicy (DeployPlacement (Spec sample_tsp))) ''a'' = Some 2" by code_simp
  have l: "nodes_live sample_nodes1"
    by (simp add: nodes_live_def sample_nodes1_def sample_nodes_def bind_pod_def)
  from score_of_cycle [OF sample_inputs(1) l _ heap_ok_empty _ s n a q, of sample_cs]
  show ?thesis
    using c by (auto simp: Let_def sample_pod_def sample_tsp_def)
qed

end
