(* ===== verification/Clients.thy ===== *)
theory Clients
  imports Complex_Main Policy_Lister
begin

text \<open>
  The generated clientset: \<open>NewForConfig\<close> of \<open>pkg/generated/clientset/versioned/clientset.go\<close>
  and of \<open>.../typed/scheduling/v1alpha1/scheduling_client.go\<close>, and the typed client of
  \<open>.../typed/scheduling/v1alpha1/topologyschedulingpolicy.go\<close>, whose methods each send one
  REST request.

  client-go's \<open>rest\<close> package is a parameter: a \<open>rest_client\<close> answers a \<open>request\<close>, which is
  what the builder calls (\<open>Namespace\<close>, \<open>Resource\<close>, \<open>Name\<close>, ...) have put together.
\<close>

section \<open>Configurations and client sets\<close>

text \<open>
  The fields of \<open>rest.Config\<close> that the program reads or writes. A float32 QPS is the rational
  it denotes; a rate limiter is known by the numbers it was made from.
\<close>

record rest_config =
  Host :: string
  QPS :: rat
  Burst :: int
  RateLimiter :: "(rat \<times> int) option"
  GroupVersion :: "(string \<times> string) option"
  APIPath :: string
  Serializer :: string
  UserAgent :: string
  ContentType :: string
  AcceptContentTypes :: string
  Timeout :: int

record rest_env =
  DefaultKubernetesUserAgent :: string
  WithoutConversion :: string
  NewTokenBucketRateLimiter :: "rat \<Rightarrow> int \<Rightarrow> rat \<times> int"

datatype http_verb = GET | POST | PUT | DELETE | PATCH string | WATCH

text \<open>What a request carries: the options are the query, the body is the object or patch.\<close>

datatype ('o) request_body = NoBody | ObjectBody TopologySchedulingPolicy | OptionsBody 'o | PatchBody string

record 'o request =
  rq_verb :: http_verb
  rq_namespace :: string
  rq_resource :: string
  rq_name :: "string option"
  rq_subresources :: "string list"
  rq_params :: "'o option"
  rq_timeout :: "int option"
  rq_body :: "'o request_body"

definition setConfigDefaults :: "rest_env \<Rightarrow> rest_config \<Rightarrow> rest_config" where
  "setConfigDefaults env c = c\<lparr>GroupVersion := Some (''scheduling.sigs.k8s.io'', ''v1alpha1''),
     APIPath := ''/apis'', Serializer := WithoutConversion env,
     UserAgent := (if UserAgent c = '''' then DefaultKubernetesUserAgent env else UserAgent c)\<rparr>"

definition SchedulingV1alpha1_NewForConfig ::
    "rest_env \<Rightarrow> (rest_config \<Rightarrow> go_error + 'c) \<Rightarrow> rest_config \<Rightarrow> go_error + 'c" where
  "SchedulingV1alpha1_NewForConfig env RESTClientFor c =
     (let config = setConfigDefaults env c in
      (case RESTClientFor config of Inl err \<Rightarrow> Inl err | Inr client \<Rightarrow> Inr client))"

record ('c, 'd) Clientset =
  schedulingV1alpha1 :: 'c
  DiscoveryClient :: 'd

definition NewForConfig ::
    "rest_env \<Rightarrow> (rest_config \<Rightarrow> go_error + 'c) \<Rightarrow> (rest_config \<Rightarrow> go_error + 'd) \<Rightarrow> rest_config
       \<Rightarrow> go_error + ('c, 'd) Clientset" where
  "NewForConfig env RESTClientFor NewDiscovery c =
     (if RateLimiter c = None \<and> 0 < QPS c \<and> Burst c \<le> 0 then
        Inl (Errorf ''burst is required to be greater than 0 when RateLimiter is not set and QPS is set to greater than 0'')
      else
        (let shallow = (if RateLimiter c = None \<and> 0 < QPS c
               then c\<lparr>RateLimiter := Some (NewTokenBucketRateLimiter env (QPS c) (Burst c))\<rparr> else c)
         in (case SchedulingV1alpha1_NewForConfig env RESTClientFor shallow of
               Inl err \<Rightarrow> Inl err
             | Inr cs \<Rightarrow>
                 (case NewDiscovery shallow of
                    Inl err \<Rightarrow> Inl err
                  | Inr disc \<Rightarrow> Inr \<lparr>schedulingV1alpha1 = cs, DiscoveryClient = disc\<rparr>))))"

text \<open>
  The variants that panic with the error, the constructors from a
  finished REST client, and the accessors. A nil receiver is \<open>None\<close>; \<open>Clientset.SchedulingV1alpha1\<close>
  reads a field of it and panics.
\<close>

definition SchedulingV1alpha1_NewForConfigOrDie ::
    "rest_env \<Rightarrow> (rest_config \<Rightarrow> go_error + 'c) \<Rightarrow> rest_config \<Rightarrow> 'c go" where
  "SchedulingV1alpha1_NewForConfigOrDie env RESTClientFor c =
     (case SchedulingV1alpha1_NewForConfig env RESTClientFor c of
        Inl err \<Rightarrow> Panic (PanicError err)
      | Inr client \<Rightarrow> Ret client)"

definition NewForConfigOrDie ::
    "rest_env \<Rightarrow> (rest_config \<Rightarrow> go_error + 'c) \<Rightarrow> (rest_config \<Rightarrow> 'd go) \<Rightarrow> rest_config
       \<Rightarrow> ('c, 'd) Clientset go" where
  "NewForConfigOrDie env RESTClientFor NewDiscoveryOrDie c =
     go_bind (SchedulingV1alpha1_NewForConfigOrDie env RESTClientFor c)
     (\<lambda>cs. go_bind (NewDiscoveryOrDie c)
     (\<lambda>disc. Ret \<lparr>schedulingV1alpha1 = cs, DiscoveryClient = disc\<rparr>))"

definition Clientset_New :: "('c \<Rightarrow> 'd) \<Rightarrow> 'c \<Rightarrow> ('c, 'd) Clientset" where
  "Clientset_New NewDiscoveryClient c = \<lparr>schedulingV1alpha1 = c, DiscoveryClient = NewDiscoveryClient c\<rparr>"

definition Clientset_SchedulingV1alpha1 :: "('c, 'd) Clientset option \<Rightarrow> 'c go" where
  "Clientset_SchedulingV1alpha1 c = (case c of None \<Rightarrow> Panic NilDeref | Some cs \<Rightarrow> Ret (schedulingV1alpha1 cs))"

definition Clientset_Discovery :: "('c, 'd) Clientset option \<Rightarrow> 'd option" where
  "Clientset_Discovery c = (case c of None \<Rightarrow> None | Some cs \<Rightarrow> Some (DiscoveryClient cs))"

definition SchedulingV1alpha1_RESTClient :: "'c option \<Rightarrow> 'c option" where
  "SchedulingV1alpha1_RESTClient c = (case c of None \<Rightarrow> None | Some client \<Rightarrow> Some client)"

section \<open>The typed client\<close>

text \<open>
  A REST client is the answer it gives to a request; the answer type is the caller's.
  Options are the parameter type \<open>'o\<close>; of list options the code reads \<open>TimeoutSeconds\<close> and
  writes \<open>Watch\<close>, the two functions of \<open>list_options\<close>.
\<close>

record 'o list_options =
  TimeoutSeconds :: "'o \<Rightarrow> int option"
  with_Watch :: "'o \<Rightarrow> 'o"

record topologySchedulingPolicies =
  tc_ns :: string

definition newTopologySchedulingPolicies :: "string \<Rightarrow> topologySchedulingPolicies" where
  "newTopologySchedulingPolicies ns = \<lparr>tc_ns = ns\<rparr>"

text \<open>\<open>TopologySchedulingPolicies\<close> of a client, whose REST client all requests go to.\<close>

definition client_TopologySchedulingPolicies :: "'c \<Rightarrow> string \<Rightarrow> 'c \<times> topologySchedulingPolicies" where
  "client_TopologySchedulingPolicies c ns = (c, newTopologySchedulingPolicies ns)"

definition base_request :: "http_verb \<Rightarrow> topologySchedulingPolicies \<Rightarrow> 'o request" where
  "base_request me c = \<lparr>rq_verb = me, rq_namespace = tc_ns c,
     rq_resource = ''topologyschedulingpolicies'', rq_name = None, rq_subresources = [],
     rq_params = None, rq_timeout = None, rq_body = NoBody\<rparr>"

text \<open>\<open>time.Duration(*TimeoutSeconds) * time.Second\<close>, 0 without a timeout; it wraps at 64 bits.\<close>

definition timeout_of :: "'o list_options \<Rightarrow> 'o \<Rightarrow> int" where
  "timeout_of lo opts = (case TimeoutSeconds lo opts of
     None \<Rightarrow> 0
   | Some s \<Rightarrow> sint (int64_of s * int64_of 1000000000))"

definition tc_Get :: "topologySchedulingPolicies \<Rightarrow> string \<Rightarrow> 'o \<Rightarrow> 'o request" where
  "tc_Get c name opts = (base_request GET c)\<lparr>rq_name := Some name, rq_params := Some opts\<rparr>"

definition tc_List :: "'o list_options \<Rightarrow> topologySchedulingPolicies \<Rightarrow> 'o \<Rightarrow> 'o request" where
  "tc_List lo c opts = (base_request GET c)\<lparr>rq_params := Some opts, rq_timeout := Some (timeout_of lo opts)\<rparr>"

definition tc_Watch :: "'o list_options \<Rightarrow> topologySchedulingPolicies \<Rightarrow> 'o \<Rightarrow> 'o request" where
  "tc_Watch lo c opts = (let timeout = timeout_of lo opts; opts' = with_Watch lo opts in
     (base_request WATCH c)\<lparr>rq_params := Some opts', rq_timeout := Some timeout\<rparr>)"

definition tc_Create :: "topologySchedulingPolicies \<Rightarrow> TopologySchedulingPolicy \<Rightarrow> 'o \<Rightarrow> 'o request" where
  "tc_Create c tsp opts = (base_request POST c)\<lparr>rq_params := Some opts, rq_body := ObjectBody tsp\<rparr>"

definition tc_Update :: "topologySchedulingPolicies \<Rightarrow> TopologySchedulingPolicy \<Rightarrow> 'o \<Rightarrow> 'o request" where
  "tc_Update c tsp opts = (base_request PUT c)\<lparr>rq_name := Some (tsp_Name tsp),
     rq_params := Some opts, rq_body := ObjectBody tsp\<rparr>"

definition tc_UpdateStatus :: "topologySchedulingPolicies \<Rightarrow> TopologySchedulingPolicy \<Rightarrow> 'o \<Rightarrow> 'o request" where
  "tc_UpdateStatus c tsp opts = (base_request PUT c)\<lparr>rq_name := Some (tsp_Name tsp),
     rq_subresources := [''status''], rq_params := Some opts, rq_body := ObjectBody tsp\<rparr>"

definition tc_Delete :: "topologySchedulingPolicies \<Rightarrow> string \<Rightarrow> 'o \<Rightarrow> 'o request" where
  "tc_Delete c name opts = (base_request DELETE c)\<lparr>rq_name := Some name, rq_body := OptionsBody opts\<rparr>"

definition tc_DeleteCollection ::
    "'o list_options \<Rightarrow> topologySchedulingPolicies \<Rightarrow> 'o \<Rightarrow> 'o \<Rightarrow> 'o request" where
  "tc_DeleteCollection lo c opts listOpts = (base_request DELETE c)\<lparr>rq_params := Some listOpts,
     rq_timeout := Some (timeout_of lo listOpts), rq_body := OptionsBody opts\<rparr>"

definition tc_Patch ::
    "topologySchedulingPolicies \<Rightarrow> string \<Rightarrow> string \<Rightarrow> string \<Rightarrow> 'o \<Rightarrow> string list \<Rightarrow> 'o request" where
  "tc_Patch c name pt data opts subresources = (base_request (PATCH pt) c)\<lparr>rq_name := Some name,
     rq_subresources := subresources, rq_params := Some opts, rq_body := PatchBody data\<rparr>"

section \<open>Laws\<close>

lemma NewForConfig_rate_error:
  "RateLimiter c = None \<Longrightarrow> 0 < QPS c \<Longrightarrow> Burst c \<le> 0 \<Longrightarrow>
     \<exists>msg. NewForConfig env rc disc c = Inl (Errorf msg)"
  by (simp add: NewForConfig_def)

lemma NewForConfig_Inr_iff:
  "NewForConfig env rc disc c = Inr cs \<longleftrightarrow>
     \<not> (RateLimiter c = None \<and> 0 < QPS c \<and> Burst c \<le> 0)
     \<and> (let c' = (if RateLimiter c = None \<and> 0 < QPS c
            then c\<lparr>RateLimiter := Some (NewTokenBucketRateLimiter env (QPS c) (Burst c))\<rparr> else c)
        in rc (setConfigDefaults env c') = Inr (schedulingV1alpha1 cs) \<and> disc c' = Inr (DiscoveryClient cs))"
  by (cases cs) (auto simp: NewForConfig_def SchedulingV1alpha1_NewForConfig_def Let_def split: sum.splits)

end
