(* ===== verification/Informers.thy ===== *)
theory Informers
  imports Clients
begin

text \<open>
  The generated shared informer factory (\<open>pkg/generated/informers/externalversions/factory.go\<close>,
  \<open>generic.go\<close>) and the informer of the policies
  (\<open>.../scheduling/v1alpha1/topologyschedulingpolicy.go\<close>, \<open>interface.go\<close>).

  A \<open>cache.SharedIndexInformer\<close> belongs to client-go. Its identity matters, since it is shared:
  it is a number, the position in the list \<open>made\<close> of what the informers were made from. The
  other effect of the factory is \<open>go informer.Run(stopCh)\<close>, recorded in the list \<open>runs\<close>.
  Every method of the factory holds its lock, so methods are atomic steps.
\<close>

section \<open>The policy informer\<close>

record ('c, 'o) informer =
  inf_client :: 'c
  inf_namespace :: string
  inf_resync :: int64
  inf_indexers :: "string list"
  inf_tweak :: "('o \<Rightarrow> 'o) option"

record ('c, 'o) informer_world =
  made :: "('c, 'o) informer list"
  runs :: "nat list"

definition NewFilteredTopologySchedulingPolicyInformer ::
    "'c \<Rightarrow> string \<Rightarrow> int64 \<Rightarrow> string list \<Rightarrow> ('o \<Rightarrow> 'o) option
       \<Rightarrow> ('c, 'o) informer_world \<Rightarrow> nat \<times> ('c, 'o) informer_world" where
  "NewFilteredTopologySchedulingPolicyInformer client ns resyncPeriod indexers tweak w =
     (length (made w), w\<lparr>made := made w @ [\<lparr>inf_client = client, inf_namespace = ns,
        inf_resync = resyncPeriod, inf_indexers = indexers, inf_tweak = tweak\<rparr>]\<rparr>)"

definition NewTopologySchedulingPolicyInformer ::
    "'c \<Rightarrow> string \<Rightarrow> int64 \<Rightarrow> string list
       \<Rightarrow> ('c, 'o) informer_world \<Rightarrow> nat \<times> ('c, 'o) informer_world" where
  "NewTopologySchedulingPolicyInformer client ns resyncPeriod indexers w =
     NewFilteredTopologySchedulingPolicyInformer client ns resyncPeriod indexers None w"

text \<open>The two functions of the \<open>ListWatch\<close>: the request each sends for given options.\<close>

definition apply_tweak :: "('o \<Rightarrow> 'o) option \<Rightarrow> 'o \<Rightarrow> 'o" where
  "apply_tweak t opts = (case t of None \<Rightarrow> opts | Some f \<Rightarrow> f opts)"

definition ListFunc :: "'o list_options \<Rightarrow> ('c, 'o) informer \<Rightarrow> 'o \<Rightarrow> 'o request" where
  "ListFunc lo i opts = tc_List lo (newTopologySchedulingPolicies (inf_namespace i)) (apply_tweak (inf_tweak i) opts)"

definition WatchFunc :: "'o list_options \<Rightarrow> ('c, 'o) informer \<Rightarrow> 'o \<Rightarrow> 'o request" where
  "WatchFunc lo i opts = tc_Watch lo (newTopologySchedulingPolicies (inf_namespace i)) (apply_tweak (inf_tweak i) opts)"

section \<open>The factory\<close>

text \<open>A \<open>reflect.Type\<close> is its name.\<close>

record ('c, 'o) sharedInformerFactory =
  f_client :: 'c
  f_namespace :: string
  f_tweakListOptions :: "('o \<Rightarrow> 'o) option"
  defaultResync :: int64
  customResync :: "(string, int64) gomap"
  informers :: "(string, nat) gomap"
  startedInformers :: "(string, bool) gomap"

definition WithCustomResyncConfig ::
    "(string, int64) gomap \<Rightarrow> ('c, 'o) sharedInformerFactory \<Rightarrow> ('c, 'o) sharedInformerFactory" where
  "WithCustomResyncConfig resyncConfig f =
     f\<lparr>customResync := fold (\<lambda>(k, v). ginsert k v) resyncConfig (customResync f)\<rparr>"

definition WithTweakListOptions ::
    "('o \<Rightarrow> 'o) option \<Rightarrow> ('c, 'o) sharedInformerFactory \<Rightarrow> ('c, 'o) sharedInformerFactory" where
  "WithTweakListOptions t f = f\<lparr>f_tweakListOptions := t\<rparr>"

definition WithNamespace ::
    "string \<Rightarrow> ('c, 'o) sharedInformerFactory \<Rightarrow> ('c, 'o) sharedInformerFactory" where
  "WithNamespace ns f = f\<lparr>f_namespace := ns\<rparr>"

definition NewSharedInformerFactoryWithOptions ::
    "'c \<Rightarrow> int64 \<Rightarrow> (('c, 'o) sharedInformerFactory \<Rightarrow> ('c, 'o) sharedInformerFactory) list
       \<Rightarrow> ('c, 'o) sharedInformerFactory" where
  "NewSharedInformerFactoryWithOptions client resync options =
     fold (\<lambda>opt factory. opt factory) options
       \<lparr>f_client = client, f_namespace = NamespaceAll, f_tweakListOptions = None,
        defaultResync = resync, customResync = gomake, informers = gomake, startedInformers = gomake\<rparr>"

definition NewSharedInformerFactory :: "'c \<Rightarrow> int64 \<Rightarrow> ('c, 'o) sharedInformerFactory" where
  "NewSharedInformerFactory client resync = NewSharedInformerFactoryWithOptions client resync []"

definition NewFilteredSharedInformerFactory ::
    "'c \<Rightarrow> int64 \<Rightarrow> string \<Rightarrow> ('o \<Rightarrow> 'o) option \<Rightarrow> ('c, 'o) sharedInformerFactory" where
  "NewFilteredSharedInformerFactory client resync ns t =
     NewSharedInformerFactoryWithOptions client resync [WithNamespace ns, WithTweakListOptions t]"

definition InformerFor ::
    "string \<Rightarrow> ('c \<Rightarrow> int64 \<Rightarrow> ('c, 'o) informer_world \<Rightarrow> nat \<times> ('c, 'o) informer_world)
       \<Rightarrow> ('c, 'o) sharedInformerFactory \<Rightarrow> ('c, 'o) informer_world
       \<Rightarrow> nat \<times> ('c, 'o) sharedInformerFactory \<times> ('c, 'o) informer_world" where
  "InformerFor informerType newFunc f w =
     (case glookup (informers f) informerType of
        Some i \<Rightarrow> (i, f, w)
      | None \<Rightarrow>
          (let resyncPeriod = (case glookup (customResync f) informerType of Some d \<Rightarrow> d | None \<Rightarrow> defaultResync f);
               (i, w') = newFunc (f_client f) resyncPeriod w
           in (i, f\<lparr>informers := ginsert informerType i (informers f)\<rparr>, w')))"

definition started :: "('c, 'o) sharedInformerFactory \<Rightarrow> string \<Rightarrow> bool" where
  "started f t \<longleftrightarrow> glookup (startedInformers f) t = Some True"

text \<open>The loop of \<open>Start\<close> over the map of informers, in its iteration order.\<close>

fun start_loop ::
    "(string, nat) gomap \<Rightarrow> ('c, 'o) sharedInformerFactory \<Rightarrow> ('c, 'o) informer_world
       \<Rightarrow> ('c, 'o) sharedInformerFactory \<times> ('c, 'o) informer_world" where
  "start_loop [] f w = (f, w)"
| "start_loop ((informerType, i) # rest) f w =
     (if started f informerType then start_loop rest f w
      else start_loop rest
        (f\<lparr>startedInformers := ginsert informerType True (startedInformers f)\<rparr>)
        (w\<lparr>runs := runs w @ [i]\<rparr>))"

definition Start ::
    "('c, 'o) sharedInformerFactory \<Rightarrow> ('c, 'o) informer_world
       \<Rightarrow> ('c, 'o) sharedInformerFactory \<times> ('c, 'o) informer_world" where
  "Start f w = start_loop (informers f) f w"

text \<open>\<open>cache.WaitForCacheSync(stopCh, informer.HasSynced)\<close> is the parameter \<open>synced\<close>.\<close>

definition WaitForCacheSync ::
    "(nat \<Rightarrow> bool) \<Rightarrow> ('c, 'o) sharedInformerFactory \<Rightarrow> (string, bool) gomap" where
  "WaitForCacheSync synced f =
     (let infs = fold (\<lambda>(t, i) m. if started f t then ginsert t i m else m) (informers f) gomake
      in fold (\<lambda>(t, i) res. ginsert t (synced i) res) infs gomake)"

section \<open>The accessors\<close>

text \<open>
  \<open>group\<close>, \<open>version\<close> and \<open>topologySchedulingPolicyInformer\<close> hold the factory, its namespace and
  its list options. The factory is passed explicitly here.
\<close>

record 'o informer_access =
  ia_namespace :: string
  ia_tweakListOptions :: "('o \<Rightarrow> 'o) option"

definition scheduling_New :: "string \<Rightarrow> ('o \<Rightarrow> 'o) option \<Rightarrow> 'o informer_access" where
  "scheduling_New ns t = \<lparr>ia_namespace = ns, ia_tweakListOptions = t\<rparr>"

definition Scheduling :: "('c, 'o) sharedInformerFactory \<Rightarrow> 'o informer_access" where
  "Scheduling f = scheduling_New (f_namespace f) (f_tweakListOptions f)"

definition v1alpha1_New :: "string \<Rightarrow> ('o \<Rightarrow> 'o) option \<Rightarrow> 'o informer_access" where
  "v1alpha1_New ns t = \<lparr>ia_namespace = ns, ia_tweakListOptions = t\<rparr>"

definition V1alpha1 :: "'o informer_access \<Rightarrow> 'o informer_access" where
  "V1alpha1 g = v1alpha1_New (ia_namespace g) (ia_tweakListOptions g)"

definition version_TopologySchedulingPolicies :: "'o informer_access \<Rightarrow> 'o informer_access" where
  "version_TopologySchedulingPolicies v =
     \<lparr>ia_namespace = ia_namespace v, ia_tweakListOptions = ia_tweakListOptions v\<rparr>"

definition policy_type :: string where
  "policy_type = ''*v1alpha1.TopologySchedulingPolicy''"

definition defaultInformer ::
    "'o informer_access \<Rightarrow> 'c \<Rightarrow> int64 \<Rightarrow> ('c, 'o) informer_world \<Rightarrow> nat \<times> ('c, 'o) informer_world" where
  "defaultInformer a client resyncPeriod w =
     NewFilteredTopologySchedulingPolicyInformer client (ia_namespace a) resyncPeriod [''namespace'']
       (ia_tweakListOptions a) w"

definition Informer ::
    "'o informer_access \<Rightarrow> ('c, 'o) sharedInformerFactory \<Rightarrow> ('c, 'o) informer_world
       \<Rightarrow> nat \<times> ('c, 'o) sharedInformerFactory \<times> ('c, 'o) informer_world" where
  "Informer a f w = InformerFor policy_type (defaultInformer a) f w"

text \<open>
  A lister reads the indexer of an informer (\<open>GetIndexer\<close>), a parameter: \<open>'i\<close> is its store, or
  its store as a function of time.
\<close>

definition NewTopologySchedulingPolicyLister :: "'i \<Rightarrow> 'i" where
  "NewTopologySchedulingPolicyLister idx = idx"

definition Lister ::
    "(nat \<Rightarrow> 'i) \<Rightarrow> 'o informer_access \<Rightarrow> ('c, 'o) sharedInformerFactory \<Rightarrow> ('c, 'o) informer_world
       \<Rightarrow> 'i \<times> ('c, 'o) sharedInformerFactory \<times> ('c, 'o) informer_world" where
  "Lister GetIndexer a f w = (let (i, f', w') = Informer a f w
     in (NewTopologySchedulingPolicyLister (GetIndexer i), f', w'))"

abbreviation policy_access :: "('c, 'o) sharedInformerFactory \<Rightarrow> 'o informer_access" where
  "policy_access f \<equiv> version_TopologySchedulingPolicies (V1alpha1 (Scheduling f))"

record gvr =
  gvr_Group :: string
  gvr_Version :: string
  gvr_Resource :: string

text \<open>\<open>genericInformer\<close>: an informer with the group and name of its resource.\<close>

record genericInformer =
  gi_informer :: nat
  gi_resource :: "string \<times> string"

definition generic_Informer :: "genericInformer \<Rightarrow> nat" where
  "generic_Informer f = gi_informer f"

text \<open>\<open>cache.NewGenericLister\<close> is the parameter \<open>NewGenericLister\<close>.\<close>

definition generic_Lister ::
    "(nat \<Rightarrow> 'i) \<Rightarrow> ('i \<Rightarrow> string \<times> string \<Rightarrow> 'l) \<Rightarrow> genericInformer \<Rightarrow> 'l" where
  "generic_Lister GetIndexer NewGenericLister f =
     NewGenericLister (GetIndexer (generic_Informer f)) (gi_resource f)"

definition ForResource ::
    "(gvr \<Rightarrow> string) \<Rightarrow> gvr \<Rightarrow> ('c, 'o) sharedInformerFactory \<Rightarrow> ('c, 'o) informer_world
       \<Rightarrow> (go_error + genericInformer) \<times> ('c, 'o) sharedInformerFactory \<times> ('c, 'o) informer_world" where
  "ForResource gvr_text resource f w =
     (if resource = \<lparr>gvr_Group = ''scheduling.sigs.k8s.io'', gvr_Version = ''v1alpha1'',
           gvr_Resource = ''topologyschedulingpolicies''\<rparr> then
        (let (i, f', w') = Informer (policy_access f) f w
         in (Inr \<lparr>gi_informer = i, gi_resource = (gvr_Group resource, gvr_Resource resource)\<rparr>, f', w'))
      else (Inl (Errorf (''no informer found for '' @ gvr_text resource)), f, w))"

end
