(* ===== verification/Informer_Laws.thy ===== *)
theory Informer_Laws
  imports Informers
begin

text \<open>
  How the shared informer factory behaves over its life: the states that any sequence of
  \<open>InformerFor\<close> and \<open>Start\<close> calls can reach, their invariant, and what \<open>Start\<close> and
  \<open>WaitForCacheSync\<close> do in such a state.
\<close>

section \<open>Reachable factories\<close>

text \<open>Every \<open>NewInformerFunc\<close> of the program makes one informer; \<open>mk\<close> says which.\<close>

definition makes ::
    "('c \<Rightarrow> int64 \<Rightarrow> ('c, 'o) informer) \<Rightarrow> 'c \<Rightarrow> int64 \<Rightarrow> ('c, 'o) informer_world
       \<Rightarrow> nat \<times> ('c, 'o) informer_world" where
  "makes mk client d w = (length (made w), w\<lparr>made := made w @ [mk client d]\<rparr>)"

lemma defaultInformer_makes:
  "defaultInformer a = makes (\<lambda>client d. \<lparr>inf_client = client, inf_namespace = ia_namespace a,
     inf_resync = d, inf_indexers = [''namespace''], inf_tweak = ia_tweakListOptions a\<rparr>)"
  by (simp add: fun_eq_iff defaultInformer_def NewFilteredTopologySchedulingPolicyInformer_def makes_def)

definition no_informers :: "('c, 'o) informer_world" where
  "no_informers = \<lparr>made = [], runs = []\<rparr>"

inductive factory_run ::
    "('c, 'o) sharedInformerFactory \<Rightarrow> ('c, 'o) sharedInformerFactory \<Rightarrow> ('c, 'o) informer_world \<Rightarrow> bool"
  for f0 where
  start: "factory_run f0 f0 no_informers"
| get: "factory_run f0 f w \<Longrightarrow> InformerFor t (makes mk) f w = (i, f', w') \<Longrightarrow> factory_run f0 f' w'"
| go: "factory_run f0 f w \<Longrightarrow> Start f w = (f', w') \<Longrightarrow> factory_run f0 f' w'"

definition fresh_factory :: "('c, 'o) sharedInformerFactory \<Rightarrow> bool" where
  "fresh_factory f \<longleftrightarrow> informers f = gomake \<and> startedInformers f = gomake"

text \<open>
  The invariant: registered informers are distinct and have been made; the ones that run are
  those whose type is marked as started, and each runs once.
\<close>

definition factory_inv :: "('c, 'o) sharedInformerFactory \<Rightarrow> ('c, 'o) informer_world \<Rightarrow> bool" where
  "factory_inv f w \<longleftrightarrow>
     gmap_ok (informers f) \<and> distinct (map snd (informers f))
     \<and> (\<forall>i \<in> snd ` set (informers f). i < length (made w))
     \<and> distinct (runs w)
     \<and> set (runs w) = {i. \<exists>t. (t, i) \<in> set (informers f) \<and> started f t}
     \<and> (\<forall>t. started f t \<longrightarrow> t \<in> fst ` set (informers f))"

section \<open>Start\<close>

lemma start_loop_spec:
  assumes "start_loop m f w = (f', w')" "distinct (map fst m)"
  shows "informers f' = informers f \<and> made w' = made w
    \<and> runs w' = runs w @ map snd (filter (\<lambda>(t, i). \<not> started f t) m)
    \<and> (\<forall>t. started f' t \<longleftrightarrow> started f t \<or> t \<in> fst ` set m)"
  using assms
proof (induction m arbitrary: f w)
  case (Cons ti m)
  obtain t i where ti: "ti = (t, i)" by (cases ti)
  show ?case
  proof (cases "started f t")
    case True
    then have "start_loop m f w = (f', w')" using Cons.prems(1) by (simp add: ti)
    from Cons.IH [OF this] Cons.prems(2) True show ?thesis by (auto simp: ti)
  next
    case False
    define f1 where "f1 = f\<lparr>startedInformers := ginsert t True (startedInformers f)\<rparr>"
    have st1: "started f1 t' \<longleftrightarrow> t' = t \<or> started f t'" for t'
      by (simp add: f1_def started_def)
    have inf1: "informers f1 = informers f" by (simp add: f1_def)
    have same: "filter (\<lambda>(t, i). \<not> started f1 t) m = filter (\<lambda>(t, i). \<not> started f t) m"
      using Cons.prems(2) by (intro filter_cong) (force simp: st1 ti)+
    have "start_loop m f1 (w\<lparr>runs := runs w @ [i]\<rparr>) = (f', w')"
      using Cons.prems(1) False by (simp add: ti f1_def)
    from Cons.IH [OF this] Cons.prems(2) show ?thesis
      unfolding same by (auto simp: ti st1 inf1 False)
  qed
qed simp

lemma start_loop_all_started:
  "\<forall>t \<in> fst ` set m. started f t \<Longrightarrow> start_loop m f w = (f, w)"
  by (induction m) auto

lemma Start_spec:
  assumes "gmap_ok (informers f)" "Start f w = (f', w')"
  shows "informers f' = informers f" "made w' = made w"
    "runs w' = runs w @ map snd (filter (\<lambda>(t, i). \<not> started f t) (informers f))"
    "started f' t \<longleftrightarrow> started f t \<or> t \<in> fst ` set (informers f)"
proof -
  have d: "distinct (map fst (informers f))" using assms(1) by (simp add: gmap_ok_def)
  have "start_loop (informers f) f w = (f', w')" using assms(2) by (simp add: Start_def)
  from start_loop_spec [OF this d]
  show "informers f' = informers f" "made w' = made w"
    "runs w' = runs w @ map snd (filter (\<lambda>(t, i). \<not> started f t) (informers f))"
    "started f' t \<longleftrightarrow> started f t \<or> t \<in> fst ` set (informers f)"
    by simp_all
qed

lemma Start_inv:
  assumes "factory_inv f w" "Start f w = (f', w')"
  shows "factory_inv f' w'" "set (runs w') = snd ` set (informers f')"
proof -
  have ok: "gmap_ok (informers f)" using assms(1) by (simp add: factory_inv_def)
  note sp = Start_spec [OF ok assms(2)]
  have di: "distinct (map snd (informers f))" using assms(1) by (simp add: factory_inv_def)
  then have dn: "distinct (map snd (filter (\<lambda>(t, i). \<not> started f t) (informers f)))"
    by (simp add: distinct_map_filter)
  have one: "t = t'" if "(t, i) \<in> set (informers f)" "(t', i) \<in> set (informers f)" for t t' i
    using di that by (metis distinct_map inj_onD fst_conv snd_conv)
  have dis: "set (runs w) \<inter> set (map snd (filter (\<lambda>(t, i). \<not> started f t) (informers f))) = {}"
    using assms(1) one by (fastforce simp: factory_inv_def)
  have old: "set (runs w) = {i. \<exists>t. (t, i) \<in> set (informers f) \<and> started f t}"
    using assms(1) by (simp add: factory_inv_def)
  show set_eq: "set (runs w') = snd ` set (informers f')"
    unfolding sp set_append old by (auto simp: image_iff) force+
  show "factory_inv f' w'"
    unfolding factory_inv_def
  proof (intro conjI)
    show "set (runs w') = {i. \<exists>t. (t, i) \<in> set (informers f') \<and> started f' t}"
      unfolding set_eq using sp by force
    show "distinct (runs w')" using assms(1) sp dn dis by (simp add: factory_inv_def)
  qed (use assms(1) sp in \<open>auto simp: factory_inv_def\<close>)
qed

lemma Start_idem:
  assumes "factory_inv f w" "Start f w = (f', w')"
  shows "Start f' w' = (f', w')"
proof -
  have ok: "gmap_ok (informers f)" using assms(1) by (simp add: factory_inv_def)
  show ?thesis unfolding Start_def
    by (rule start_loop_all_started) (simp add: Start_spec [OF ok assms(2)])
qed

section \<open>Registering\<close>

lemma InformerFor_inv:
  assumes "factory_inv f w" "InformerFor t (makes mk) f w = (i, f', w')"
  shows "factory_inv f' w'"
proof (cases "glookup (informers f) t")
  case (Some j)
  then show ?thesis using assms by (simp add: InformerFor_def)
next
  case None
  then have t: "t \<notin> dom (glookup (informers f))" by auto
  then have tn: "t \<notin> fst ` set (informers f)" by (simp add: set_gkeys [symmetric] gkeys_def)
  have eq: "informers f' = informers f @ [(t, length (made w))]" "startedInformers f' = startedInformers f"
    "runs w' = runs w" "length (made w') = Suc (length (made w))"
    using assms(2) None by (auto simp: InformerFor_def makes_def Let_def ginsert_new [OF t])
  have st: "started f' u = started f u" for u by (simp add: started_def eq)
  have "\<not> started f t" using assms(1) tn by (auto simp: factory_inv_def)
  then have "set (runs w') = {i. \<exists>t. (t, i) \<in> set (informers f') \<and> started f' t}"
    using assms(1) by (auto simp: factory_inv_def eq st)
  moreover have "length (made w) \<notin> snd ` set (informers f)" using assms(1) by (auto simp: factory_inv_def)
  ultimately show ?thesis
    using assms(1) tn by (auto simp: factory_inv_def eq st gmap_ok_def)
qed

text \<open>Asking again for a type yields the same informer and changes nothing.\<close>

lemma InformerFor_shared:
  assumes "InformerFor t nf f w = (i, f', w')"
  shows "glookup (informers f') t = Some i" "InformerFor t nf' f' w'' = (i, f', w'')"
  using assms by (auto simp: InformerFor_def Let_def split: option.splits prod.splits)

lemma factory_run_inv: "factory_run f0 f w \<Longrightarrow> fresh_factory f0 \<Longrightarrow> factory_inv f w"
proof (induction rule: factory_run.induct)
  case start
  then show ?case
    by (simp add: factory_inv_def fresh_factory_def no_informers_def started_def)
next
  case get
  then show ?case using InformerFor_inv by blast
next
  case go
  then show ?case using Start_inv(1) by blast
qed

section \<open>WaitForCacheSync\<close>

lemma fold_ginsert_if:
  assumes "distinct (map fst m)" "fst ` set m \<inter> dom (glookup acc) = {}"
  shows "fold (\<lambda>(t, i) m. if P t then ginsert t i m else m) m acc = acc @ filter (\<lambda>(t, i). P t) m"
  using assms
proof (induction m arbitrary: acc)
  case (Cons ti m)
  obtain t i where ti: "ti = (t, i)" by (cases ti)
  have "ginsert t i acc = acc @ [(t, i)]" using Cons.prems by (intro ginsert_new) (simp add: ti)
  moreover have "fst ` set m \<inter> dom (glookup (ginsert t i acc)) = {}"
    using Cons.prems by (auto simp: ti glookup_insert)
  ultimately show ?case using Cons by (auto simp: ti)
qed simp

lemma glookup_filter:
  "distinct (map fst m) \<Longrightarrow> glookup (filter (\<lambda>(t, i). P t) m) t = (if P t then glookup m t else None)"
  unfolding glookup_def by (induction m) auto

lemma WaitForCacheSync_lookup:
  assumes "gmap_ok (informers f)"
  shows "glookup (WaitForCacheSync synced f) t =
     (if started f t then map_option synced (glookup (informers f) t) else None)"
proof -
  have d: "distinct (map fst (informers f))" using assms by (simp add: gmap_ok_def)
  let ?m = "filter (\<lambda>(t, i). started f t) (informers f)"
  have 1: "fold (\<lambda>(t, i) m. if started f t then ginsert t i m else m) (informers f) gomake = ?m"
    using fold_ginsert_if [OF d, of gomake] by simp
  have dm: "distinct (map fst ?m)" using d by (simp add: distinct_map_filter)
  have lm: "glookup ?m t = (if started f t then glookup (informers f) t else None)"
    using glookup_filter [of "informers f" "started f" t] d by simp
  have "fold (\<lambda>(t, i) res. ginsert t (synced i) res) ?m gomake
      = fold (\<lambda>x. ginsert (fst x) (synced (snd x))) ?m gomake"
    by (rule fold_cong) auto
  then have "glookup (WaitForCacheSync synced f) t = Some b \<longleftrightarrow> (\<exists>i. (t, i) \<in> set ?m \<and> synced i = b)" for b
    using gm.fold_insert_distinct [of fst ?m "\<lambda>x. synced (snd x)" t b] dm
    by (auto simp: WaitForCacheSync_def 1 Bex_def)
  moreover have "(t, i) \<in> set ?m \<longleftrightarrow> glookup ?m t = Some i" for i
    using dm by (intro gmem_iff) (simp add: gmap_ok_def)
  ultimately have "glookup (WaitForCacheSync synced f) t = Some b \<longleftrightarrow> map_option synced (glookup ?m t) = Some b" for b
    by auto
  then have "glookup (WaitForCacheSync synced f) t = map_option synced (glookup ?m t)"
    by (metis not_Some_eq)
  then show ?thesis by (simp add: lm)
qed

section \<open>A fresh factory\<close>

text \<open>
  What the plugin and the descheduler do with a factory: ask for the policy informer, ask for
  its lister, start.
\<close>

definition new_informer :: "'c \<Rightarrow> ('c, 'o) informer" where
  "new_informer client = \<lparr>inf_client = client, inf_namespace = NamespaceAll, inf_resync = 0,
     inf_indexers = [''namespace''], inf_tweak = None\<rparr>"

lemma policy_access_eq [simp]:
  "policy_access f = \<lparr>ia_namespace = f_namespace f, ia_tweakListOptions = f_tweakListOptions f\<rparr>"
  by (simp add: version_TopologySchedulingPolicies_def V1alpha1_def v1alpha1_New_def Scheduling_def scheduling_New_def)

text \<open>The first request for the policy informer of a fresh factory, and a start after it.\<close>

lemma fresh_Informer:
  assumes "f = NewSharedInformerFactory client 0" "Informer (policy_access f) f w = (i, f1, w1)"
  shows "i = length (made w)" "informers f1 = [(policy_type, i)]" "startedInformers f1 = gomake"
    "made w1 = made w @ [new_informer client]" "runs w1 = runs w"
    "f_namespace f1 = NamespaceAll" "f_tweakListOptions f1 = None"
  using assms(2)
  by (auto simp: assms(1) Informer_def InformerFor_def NewSharedInformerFactory_def
      NewSharedInformerFactoryWithOptions_def defaultInformer_makes makes_def new_informer_def
      Let_def ginsert_def)

lemma one_Start:
  assumes "informers f = [(t, i)]" "startedInformers f = gomake" "Start f w = (f', w')"
  shows "made w' = made w" "runs w' = runs w @ [i]" "started f' t"
  using assms by (auto simp: Start_def started_def)

lemma Informer_again: "informers f = [(policy_type, i)] \<Longrightarrow> Informer a f w = (i, f, w)"
  by (simp add: Informer_def InformerFor_def glookup_def)

end
