(* ===== verification/Descheduler_Strategy.thy ===== *)
theory Descheduler_Strategy
  imports Policy_Lister "HOL-Library.List_Lexorder" "HOL-Library.Char_ord"
begin

text \<open>
  The descheduler strategy RemovePodsViolatingTopologySchedulingPolicy
  (\<open>pkg/descheduler/strategies/topologyscheduling.go\<close>): group the live pods of every policy
  by topology value, and evict from the values that exceed the policy when another value
  falls short.

  The effect of the strategy is the sequence of \<open>EvictPod\<close> calls it makes; the results of
  these calls are ignored by the code. The record \<open>desched_env\<close> holds the parameters: the
  pod list of the API server (which may depend on the evictions already made), the two
  functions of apimachinery on label selectors, the iteration orders of the two \<open>range\<close> loops
  over the map of counters (Go chooses an order for every loop anew), and \<open>sort.Sort\<close> on a
  \<open>ByCostom\<close>.
\<close>

section \<open>The sort order\<close>

definition Len :: "pod list \<Rightarrow> nat" where
  "Len p = length p"

definition Less :: "pod list \<Rightarrow> nat \<Rightarrow> nat \<Rightarrow> bool" where
  "Less p i j =
     (if Phase (p ! i) = PodFailed \<or> Phase (p ! i) = PodSucceeded then True
      else if Phase (p ! i) = PodPending then True
      else if Phase (p ! j) = PodFailed \<or> Phase (p ! j) = PodSucceeded then False
      else if Phase (p ! j) = PodPending then False
      else pod_Name (p ! i) < pod_Name (p ! j))"

definition Swap :: "pod list \<Rightarrow> nat \<Rightarrow> nat \<Rightarrow> pod list" where
  "Swap p i j = p[i := p ! j, j := p ! i]"

section \<open>Counting\<close>

record TopoPairCount =
  tpc_count :: int32
  tpc_pods :: "pod list"

record eviction =
  ev_pod :: pod
  ev_node :: "node option"

record desched_env =
  list_pods :: "eviction list \<Rightarrow> string \<Rightarrow> string \<Rightarrow> go_error + pod list"
  FormatLabelSelector :: "LabelSelector option \<Rightarrow> string"
  ds_LabelSelectorAsSelector :: "LabelSelector option \<Rightarrow> go_error + selector"
  range_check :: "(TopologyPair, TopoPairCount) gomap \<Rightarrow> (TopologyPair, TopoPairCount) gomap"
  range_pairs :: "(TopologyPair, TopoPairCount) gomap \<Rightarrow> (TopologyPair, TopoPairCount) gomap"
  sort_Sort :: "pod list \<Rightarrow> pod list"

definition build_nodeMap :: "node list \<Rightarrow> (string, node) gomap" where
  "build_nodeMap nodes = fold (\<lambda>nd m. ginsert (node_Name nd) nd m) nodes gomake"

text \<open>One iteration over \<open>pods.Items\<close>.\<close>

definition add_to_pair ::
    "string \<Rightarrow> (string, node) gomap \<Rightarrow> pod \<Rightarrow> (TopologyPair, TopoPairCount) gomap
       \<Rightarrow> (TopologyPair, TopoPairCount) gomap" where
  "add_to_pair key nodeMap p m =
     (if DeletionTimestamp p \<noteq> None then m
      else (case glookup nodeMap (NodeName p) of
        None \<Rightarrow> m
      | Some nd \<Rightarrow>
          (let pair = \<lparr>Key = key, Value = mget_zero (node_Labels nd) key\<rparr> in
           (case glookup m pair of
              None \<Rightarrow> ginsert pair \<lparr>tpc_count = 1, tpc_pods = [p]\<rparr> m
            | Some c \<Rightarrow>
                ginsert pair \<lparr>tpc_count = tpc_count c + 1, tpc_pods = tpc_pods c @ [p]\<rparr> m))))"

text \<open>A read of \<open>SchedulePolicy\<close> for a missing value yields zero.\<close>

definition desired_of :: "(string, int32) gomap \<Rightarrow> string \<Rightarrow> int32" where
  "desired_of pol v = (case glookup pol v of None \<Rightarrow> 0 | Some r \<Rightarrow> r)"

text \<open>The loop of \<open>checkTopoReached\<close> with its two flags.\<close>

fun check_flags ::
    "(string, int32) gomap \<Rightarrow> (TopologyPair, TopoPairCount) gomap \<Rightarrow> bool \<Rightarrow> bool \<Rightarrow> bool \<times> bool" where
  "check_flags pol [] satisfied notSatisfied = (satisfied, notSatisfied)"
| "check_flags pol ((pair, counter) # rest) satisfied notSatisfied =
     (let diff = desired_of pol (Value pair) - tpc_count counter in
      if 0 <s diff then check_flags pol rest satisfied True
      else if diff <s 0 then check_flags pol rest True notSatisfied
      else check_flags pol rest satisfied notSatisfied)"

definition checkTopoReached ::
    "(TopologyPair, TopoPairCount) gomap \<Rightarrow> TopologySchedulingConstraint \<Rightarrow> bool" where
  "checkTopoReached m constraint =
     (let (satisfied, notSatisfied) = check_flags (SchedulePolicyMap constraint) m True False
      in if satisfied \<and> \<not> notSatisfied then True else False)"

section \<open>Evicting\<close>

text \<open>
  The loops below return the calls made so far and, when the code panics, the panic. The
  innermost loop runs \<open>i\<close> from 0 to \<open>int(toDeleteCount) - 1\<close>; its second argument is the
  number of iterations left.
\<close>

fun evict_loop ::
    "(string, node) gomap \<Rightarrow> pod list \<Rightarrow> nat \<Rightarrow> nat \<Rightarrow> eviction list \<Rightarrow> eviction list \<times> go_panic option" where
  "evict_loop nodeMap pods 0 i tr = (tr, None)"
| "evict_loop nodeMap pods (Suc left) i tr =
     (if i < length pods then
        evict_loop nodeMap pods left (Suc i)
          (tr @ [\<lparr>ev_pod = pods ! i, ev_node = glookup nodeMap (NodeName (pods ! i))\<rparr>])
      else (tr, Some IndexOutOfRange))"

fun evict_pairs ::
    "desched_env \<Rightarrow> (string, node) gomap \<Rightarrow> (string, int32) gomap \<Rightarrow> (TopologyPair, TopoPairCount) gomap
       \<Rightarrow> eviction list \<Rightarrow> eviction list \<times> go_panic option" where
  "evict_pairs env nodeMap pol [] tr = (tr, None)"
| "evict_pairs env nodeMap pol ((pair, counter) # rest) tr =
     (let diff = desired_of pol (Value pair) - tpc_count counter in
      if 0 \<le>s diff then evict_pairs env nodeMap pol rest tr
      else (let toDeleteCount = - diff;
                sorted = sort_Sort env (tpc_pods counter)
            in (case evict_loop nodeMap sorted (nat (sint toDeleteCount)) 0 tr of
                  (tr', None) \<Rightarrow> evict_pairs env nodeMap pol rest tr'
                | (tr', Some e) \<Rightarrow> (tr', Some e))))"

text \<open>The body of the loop over the policies.\<close>

definition process_policy ::
    "desched_env \<Rightarrow> (string, node) gomap \<Rightarrow> TopologySchedulingPolicy \<Rightarrow> eviction list
       \<Rightarrow> eviction list \<times> go_panic option" where
  "process_policy env nodeMap tsp tr =
     (case ds_LabelSelectorAsSelector env (spec_LabelSelector (Spec tsp)) of
        Inl err \<Rightarrow> (tr, None)
      | Inr sel \<Rightarrow>
          (let constraint = \<lparr>c_TopologyKey = TopologyKey (Spec tsp),
                 SchedulePolicyMap = CovertPolicy (DeployPlacement (Spec tsp)),
                 Selector = sel\<rparr> in
           (case list_pods env tr (tsp_Namespace tsp)
                   (FormatLabelSelector env (spec_LabelSelector (Spec tsp))) of
              Inl err \<Rightarrow> (tr, None)
            | Inr items \<Rightarrow>
                (let m = fold (add_to_pair (TopologyKey (Spec tsp)) nodeMap) items gomake in
                 if checkTopoReached (range_check env m) constraint then (tr, None)
                 else evict_pairs env nodeMap (SchedulePolicyMap constraint) (range_pairs env m) tr))))"

fun process_policies ::
    "desched_env \<Rightarrow> (string, node) gomap \<Rightarrow> TopologySchedulingPolicy list \<Rightarrow> eviction list
       \<Rightarrow> eviction list \<times> go_panic option" where
  "process_policies env nodeMap [] tr = (tr, None)"
| "process_policies env nodeMap (tsp # tsps) tr =
     (case process_policy env nodeMap tsp tr of
        (tr', None) \<Rightarrow> process_policies env nodeMap tsps tr'
      | (tr', Some e) \<Rightarrow> (tr', Some e))"

definition RemovePodsViolatingTopologySchedulingPolicy ::
    "desched_env \<Rightarrow> node list \<Rightarrow> indexer option \<Rightarrow> eviction list \<Rightarrow> eviction list \<times> go_panic option" where
  "RemovePodsViolatingTopologySchedulingPolicy env nodes tspLister tr = (case tspLister of
     None \<Rightarrow> (tr, None)
   | Some idx \<Rightarrow>
       (case ns_List (TopologySchedulingPolicies idx NamespaceAll) Everything of
          (tsps, Some err) \<Rightarrow> (tr, None)
        | (tsps, None) \<Rightarrow> process_policies env (build_nodeMap nodes) tsps tr))"

end
