(* ===== verification/Descheduler_Laws.thy ===== *)
theory Descheduler_Laws
  imports Descheduler_Strategy
begin

text \<open>
  What the descheduler strategy does: the contract of \<open>sort.Sort\<close> as a locale, with Go's
  insertion sort (the branch for at most twelve elements) as an interpretation for \<open>ByCostom\<close>;
  the grouping of pods by topology value; the evictions per value.
\<close>

section \<open>The order of ByCostom\<close>

definition finished :: "pod \<Rightarrow> bool" where
  "finished p \<longleftrightarrow> Phase p = PodFailed \<or> Phase p = PodSucceeded \<or> Phase p = PodPending"

definition less_pods :: "pod \<Rightarrow> pod \<Rightarrow> bool" where
  "less_pods a b \<longleftrightarrow> finished a \<or> (\<not> finished b \<and> pod_Name a < pod_Name b)"

lemma Less_iff: "Less p i j = less_pods (p ! i) (p ! j)"
  by (auto simp: Less_def less_pods_def finished_def)

text \<open>
  \<open>Less\<close> compares by a rank: finished and pending pods share the lowest one, the others are
  ranked by name. The ranks are linearly ordered although \<open>Less\<close> itself is no order.
\<close>

datatype pod_rank = Early | ByName string

instantiation pod_rank :: linorder
begin

fun less_eq_pod_rank :: "pod_rank \<Rightarrow> pod_rank \<Rightarrow> bool" where
  "less_eq_pod_rank Early _ = True"
| "less_eq_pod_rank (ByName _) Early = False"
| "less_eq_pod_rank (ByName a) (ByName b) = (a \<le> b)"

definition less_pod_rank :: "pod_rank \<Rightarrow> pod_rank \<Rightarrow> bool" where
  "less_pod_rank a b \<longleftrightarrow> a \<le> b \<and> \<not> b \<le> a"

instance
proof
  fix a b c :: pod_rank
  show "a < b \<longleftrightarrow> a \<le> b \<and> \<not> b \<le> a" by (rule less_pod_rank_def)
  show "a \<le> a" by (cases a) simp_all
  show "a \<le> b \<Longrightarrow> b \<le> c \<Longrightarrow> a \<le> c" by (cases a; cases b; cases c) auto
  show "a \<le> b \<Longrightarrow> b \<le> a \<Longrightarrow> a = b" by (cases a; cases b) auto
  show "a \<le> b \<or> b \<le> a" by (cases a; cases b) auto
qed

end

definition rank :: "pod \<Rightarrow> pod_rank" where
  "rank p = (if finished p then Early else ByName (pod_Name p))"

lemma less_rank: "less_pods a b \<Longrightarrow> rank a \<le> rank b"
  by (auto simp: less_pods_def rank_def)

lemma not_less_rank: "\<not> less_pods a b \<Longrightarrow> rank b \<le> rank a"
  by (auto simp: less_pods_def rank_def)

lemma rank_le_iff: "rank a \<le> rank b \<longleftrightarrow> (less_pods b a \<longrightarrow> less_pods a b)"
  by (auto simp: less_pods_def rank_def)

section \<open>The contract of sort.Sort\<close>

text \<open>
  The result is a permutation, and no element comes after one that it strictly precedes
  (\<open>Less\<close> one way and not the other). Antisymmetry of \<open>Less\<close> is not assumed.
\<close>

locale go_sorter =
  fixes less :: "'a \<Rightarrow> 'a \<Rightarrow> bool" and sort :: "'a list \<Rightarrow> 'a list"
  assumes sort_perm: "mset (sort xs) = mset xs"
    and sort_order: "i < j \<Longrightarrow> j < length xs \<Longrightarrow>
      less (sort xs ! j) (sort xs ! i) \<Longrightarrow> less (sort xs ! i) (sort xs ! j)"
begin

lemma sort_length [simp]: "length (sort xs) = length xs"
  using sort_perm mset_eq_length by blast

lemma sort_set [simp]: "set (sort xs) = set xs"
  using sort_perm mset_eq_setD by blast

lemma sort_distinct [simp]: "distinct (sort xs) = distinct xs"
  using sort_perm mset_eq_imp_distinct_iff by blast

lemma chosen_first:
  assumes "x \<in> set (take n (sort xs))" "y \<in> set (drop n (sort xs))" "less y x"
  shows "less x y"
proof -
  obtain i where i: "i < n" "i < length xs" "sort xs ! i = x"
    using assms(1) by (auto simp: in_set_conv_nth)
  obtain k where k: "k < length xs - n" "sort xs ! (n + k) = y"
    using assms(2) by (auto simp: in_set_conv_nth)
  show ?thesis using sort_order [of i "n + k" xs] i k assms(3) by simp
qed

end

section \<open>Go's insertion sort\<close>

text \<open>
  \<open>sort.Sort\<close> of Go 1.15 for at most twelve elements: one Shell pass with gap 6, then
  insertion sort; both only use \<open>Len\<close>, \<open>Less\<close> and \<open>Swap\<close>.
\<close>

fun insert_back :: "pod list \<Rightarrow> nat \<Rightarrow> pod list" where
  "insert_back p 0 = p"
| "insert_back p (Suc j) = (if Less p (Suc j) j then insert_back (Swap p (Suc j) j) j else p)"

definition shell_pass :: "pod list \<Rightarrow> pod list" where
  "shell_pass p = fold (\<lambda>i q. if Less q i (i - 6) then Swap q i (i - 6) else q) [6..<Len p] p"

definition insertionSort :: "pod list \<Rightarrow> pod list" where
  "insertionSort p = fold (\<lambda>i q. insert_back q i) [1..<Len p] p"

definition go_sort_small :: "pod list \<Rightarrow> pod list" where
  "go_sort_small p = (if 1 < Len p then insertionSort (shell_pass p) else p)"

lemma Swap_mset: "i < length p \<Longrightarrow> j < length p \<Longrightarrow> mset (Swap p i j) = mset p"
  by (simp add: Swap_def mset_swap)

lemma Swap_length [simp]: "length (Swap p i j) = length p"
  by (simp add: Swap_def)

lemma shell_pass_mset: "mset (shell_pass p) = mset p"
proof -
  have "mset (fold (\<lambda>i q. if Less q i (i - 6) then Swap q i (i - 6) else q) is q) = mset q"
    if "\<forall>i \<in> set is. i < length q" for "is" q
    using that by (induction "is" arbitrary: q) (auto simp: Swap_mset less_imp_diff_less)
  then show ?thesis by (simp add: shell_pass_def Len_def)
qed

lemma insert_back_mset: "j < length p \<Longrightarrow> mset (insert_back p j) = mset p"
  by (induction p j rule: insert_back.induct) (simp_all add: Swap_mset)

lemma insert_back_length [simp]: "length (insert_back p j) = length p"
  by (induction p j rule: insert_back.induct) simp_all

text \<open>The part behind the inserted element is untouched, the part up to it becomes sorted.\<close>

lemma insert_back_frame: "j < k \<Longrightarrow> insert_back p j ! k = p ! k"
  by (induction p j rule: insert_back.induct) (auto simp: Swap_def)

lemma insert_back_take: "j < n \<Longrightarrow> n \<le> length p \<Longrightarrow> drop n (insert_back p j) = drop n p"
  by (rule nth_equalityI) (simp_all add: insert_back_frame)

lemma swap_down:
  assumes "Suc j < length p" "sorted (map rank (take (Suc j) p))"
  shows "sorted (map rank (take j (Swap p (Suc j) j)))"
proof -
  have "take j (Swap p (Suc j) j) = take j p" by (simp add: Swap_def)
  moreover have "take j (map rank (take (Suc j) p)) = map rank (take j p)" by (simp add: take_map)
  ultimately show ?thesis using assms(2) sorted_wrt_take [of "(\<le>)" "map rank (take (Suc j) p)" j] by simp
qed

lemma insert_back_sorted:
  assumes "j < length p" "sorted (map rank (take j p))"
  shows "sorted (map rank (take (Suc j) (insert_back p j)))"
  using assms
proof (induction p j rule: insert_back.induct)
  case (1 p)
  then show ?case by (simp add: take_Suc)
next
  case (2 p j)
  show ?case
  proof (cases "Less p (Suc j) j")
    case False
    then have "rank (p ! j) \<le> rank (p ! Suc j)" by (simp add: Less_iff not_less_rank)
    moreover have "x \<le> rank (p ! j)" if "x \<in> set (map rank (take (Suc j) p))" for x
      using that 2(2,3) by (auto simp: take_Suc_conv_app_nth sorted_append)
    ultimately have "sorted (map rank (take (Suc j) p) @ [rank (p ! Suc j)])"
      using 2(3) by (auto simp: sorted_append intro: order_trans)
    then show ?thesis using False 2(2) by (simp add: take_Suc_conv_app_nth)
  next
    case True
    let ?q = "Swap p (Suc j) j"
    have j: "j < length ?q" using 2(2) by simp
    have IH: "sorted (map rank (take (Suc j) (insert_back ?q j)))"
      using 2(1) [OF True j swap_down [OF 2(2,3)]] .
    have last: "insert_back ?q j ! Suc j = p ! j" "?q ! j = p ! Suc j"
      using 2(2) by (simp_all add: insert_back_frame Swap_def)
    have "mset (take (Suc j) (insert_back ?q j)) = mset (take (Suc j) ?q)"
    proof -
      have "mset (take (Suc j) (insert_back ?q j) @ drop (Suc j) ?q) = mset (take (Suc j) ?q @ drop (Suc j) ?q)"
        using insert_back_mset [OF j] insert_back_take [of j "Suc j" ?q] 2(2)
        by (metis append_take_drop_id lessI Swap_length less_or_eq_imp_le)
      then show ?thesis unfolding mset_append by (rule add_right_imp_eq)
    qed
    then have "set (take (Suc j) (insert_back ?q j)) = set (take (Suc j) ?q)" by (rule mset_eq_setD)
    also have "\<dots> = insert (p ! Suc j) (set (take j p))"
      using 2(2) by (simp add: take_Suc_conv_app_nth last(2)) (simp add: Swap_def)
    finally have S: "set (take (Suc j) (insert_back ?q j)) = insert (p ! Suc j) (set (take j p))" .
    have "rank (p ! Suc j) \<le> rank (p ! j)" using True by (simp add: Less_iff less_rank)
    moreover have "rank x \<le> rank (p ! j)" if "x \<in> set (take j p)" for x
      using that 2(2,3) by (auto simp: take_Suc_conv_app_nth sorted_append)
    ultimately have "sorted (map rank (take (Suc j) (insert_back ?q j)) @ [rank (p ! j)])"
      using IH S by (auto simp: sorted_append)
    then show ?thesis using True 2(2) last(1) by (simp add: take_Suc_conv_app_nth)
  qed
qed

lemma insertionSort_correct:
  "mset (insertionSort p) = mset p \<and> sorted (map rank (insertionSort p))"
proof -
  have "n \<le> length p \<Longrightarrow> 0 < n \<Longrightarrow> (let q = fold (\<lambda>i q. insert_back q i) [1..<n] p
      in mset q = mset p \<and> length q = length p \<and> sorted (map rank (take n q)))" for n
  proof (induction n)
    case (Suc n)
    show ?case
    proof (cases "n = 0")
      case True
      then show ?thesis using Suc.prems by (cases p) simp_all
    next
      case False
      with Suc show ?thesis
        using insert_back_sorted [of n "fold (\<lambda>i q. insert_back q i) [1..<n] p"]
        by (simp add: Let_def insert_back_mset)
    qed
  qed simp
  from this [of "length p"] show ?thesis
    by (cases p) (auto simp: insertionSort_def Len_def Let_def)
qed

lemma go_sort_small_correct:
  "mset (go_sort_small p) = mset p \<and> sorted (map rank (go_sort_small p))"
proof (cases "1 < Len p")
  case True
  then show ?thesis
    using insertionSort_correct [of "shell_pass p"] shell_pass_mset [of p] by (simp add: go_sort_small_def)
next
  case False
  then show ?thesis by (cases p) (auto simp: go_sort_small_def Len_def)
qed

interpretation bc: go_sorter less_pods go_sort_small
proof unfold_locales
  fix xs i j
  show m: "mset (go_sort_small xs) = mset xs" using go_sort_small_correct by blast
  assume ij: "i < j" "j < length xs" and l: "less_pods (go_sort_small xs ! j) (go_sort_small xs ! i)"
  have "j < length (go_sort_small xs)" using ij(2) mset_eq_length [OF m] by simp
  then have "rank (go_sort_small xs ! i) \<le> rank (go_sort_small xs ! j)"
    using go_sort_small_correct [of xs] ij(1) by (auto simp: sorted_iff_nth_mono_less)
  then show "less_pods (go_sort_small xs ! i) (go_sort_small xs ! j)"
    using l rank_le_iff by blast
qed

end
