(* ===== verification/Descheduler_Evictions.thy ===== *)
theory Descheduler_Evictions
  imports Descheduler_Laws
begin

text \<open>
  The numbers and the evictions of one policy, and of several that share no pods. \<open>zone_pods\<close> are the live pods of a topology
  value; the lemmas compute the map of counters, the decision of \<open>checkTopoReached\<close> and the
  calls of the eviction loops from them.
\<close>

section \<open>Grouping\<close>

definition placed :: "string \<Rightarrow> (string, node) gomap \<Rightarrow> string \<Rightarrow> pod \<Rightarrow> bool" where
  "placed key nodeMap v p \<longleftrightarrow> DeletionTimestamp p = None
     \<and> (case glookup nodeMap (NodeName p) of
           None \<Rightarrow> False
         | Some nd \<Rightarrow> mget_zero (node_Labels nd) key = v)"

lemma placed_iff: "placed key nodeMap v p \<longleftrightarrow> DeletionTimestamp p = None
     \<and> (\<exists>nd. glookup nodeMap (NodeName p) = Some nd \<and> mget_zero (node_Labels nd) key = v)"
  by (auto simp: placed_def split: option.splits)

definition zone_pods :: "string \<Rightarrow> (string, node) gomap \<Rightarrow> pod list \<Rightarrow> string \<Rightarrow> pod list" where
  "zone_pods key nodeMap items v = filter (placed key nodeMap v) items"

definition grouped :: "string \<Rightarrow> (string, node) gomap \<Rightarrow> pod list \<Rightarrow> (TopologyPair, TopoPairCount) gomap" where
  "grouped key nodeMap items = fold (add_to_pair key nodeMap) items gomake"

lemma placed_unique: "placed key nm v p \<Longrightarrow> placed key nm w p \<Longrightarrow> v = w"
  by (auto simp: placed_iff)

lemma zone_pods_snoc:
  "zone_pods key nm (items @ [p]) v = zone_pods key nm items v @ (if placed key nm v p then [p] else [])"
  by (simp add: zone_pods_def)

lemma zone_pods_Nil [simp]: "zone_pods key nm [] v = []"
  by (simp add: zone_pods_def)

definition counter_of :: "pod list \<Rightarrow> TopoPairCount option" where
  "counter_of ps = (if ps = [] then None else Some \<lparr>tpc_count = int32_of (int (length ps)), tpc_pods = ps\<rparr>)"

lemma counter_of_snoc:
  "counter_of (ps @ [p]) = Some (case counter_of ps of
     None \<Rightarrow> \<lparr>tpc_count = 1, tpc_pods = [p]\<rparr>
   | Some c \<Rightarrow> \<lparr>tpc_count = tpc_count c + 1, tpc_pods = tpc_pods c @ [p]\<rparr>)"
proof -
  have one: "int32_of 1 = 1" by (simp add: int32_of_def)
  show ?thesis by (simp add: counter_of_def int32_of_add one)
qed

lemma add_to_pair_unplaced: "(\<And>v. \<not> placed key nm v p) \<Longrightarrow> add_to_pair key nm p m = m"
proof -
  assume n: "\<And>v. \<not> placed key nm v p"
  have "DeletionTimestamp p \<noteq> None \<or> glookup nm (NodeName p) = None"
  proof (rule ccontr)
    assume "\<not> ?thesis"
    then obtain nd where "DeletionTimestamp p = None" "glookup nm (NodeName p) = Some nd" by auto
    then have "placed key nm (mget_zero (node_Labels nd) key) p" by (simp add: placed_iff)
    then show False using n by blast
  qed
  then show ?thesis by (auto simp: add_to_pair_def)
qed

lemma add_to_pair_placed:
  assumes "placed key nm v p"
  shows "glookup (add_to_pair key nm p m) = (glookup m)(\<lparr>Key = key, Value = v\<rparr> \<mapsto>
     (case glookup m \<lparr>Key = key, Value = v\<rparr> of
        None \<Rightarrow> \<lparr>tpc_count = 1, tpc_pods = [p]\<rparr>
      | Some c \<Rightarrow> \<lparr>tpc_count = tpc_count c + 1, tpc_pods = tpc_pods c @ [p]\<rparr>))"
proof -
  obtain nd where nd: "DeletionTimestamp p = None" "glookup nm (NodeName p) = Some nd"
    "mget_zero (node_Labels nd) key = v"
    using assms unfolding placed_iff by blast
  show ?thesis
    unfolding add_to_pair_def Let_def
    by (cases "glookup m \<lparr>Key = key, Value = v\<rparr>") (simp_all add: nd glookup_insert)
qed

lemma gmap_ok_add_to_pair: "gmap_ok m \<Longrightarrow> gmap_ok (add_to_pair key nm p m)"
  by (simp add: add_to_pair_def Let_def split: option.split)

lemma gmap_ok_grouped [simp]: "gmap_ok (grouped key nm items)"
proof -
  have "gmap_ok m \<Longrightarrow> gmap_ok (fold (add_to_pair key nm) items m)" for m
    by (induction items arbitrary: m) (simp_all add: gmap_ok_add_to_pair)
  then show ?thesis by (simp add: grouped_def)
qed

lemma grouped_lookup:
  "glookup (grouped key nm items) q = (if Key q = key then counter_of (zone_pods key nm items (Value q)) else None)"
proof (induction items arbitrary: q rule: rev_induct)
  case Nil
  show ?case by (simp add: grouped_def counter_of_def)
next
  case (snoc p items)
  have g: "grouped key nm (items @ [p]) = add_to_pair key nm p (grouped key nm items)"
    by (simp add: grouped_def)
  show ?case
  proof (cases "\<exists>v. placed key nm v p")
    case False
    then show ?thesis by (simp add: g add_to_pair_unplaced zone_pods_snoc snoc.IH)
  next
    case True
    then obtain v where v: "placed key nm v p" by blast
    then have w: "placed key nm w p \<longleftrightarrow> w = v" for w using placed_unique by blast
    show ?thesis
    proof (cases "q = \<lparr>Key = key, Value = v\<rparr>")
      case True
      then show ?thesis
        by (simp add: g add_to_pair_placed [OF v] zone_pods_snoc w snoc.IH counter_of_snoc)
    next
      case False
      then have "Key q = key \<Longrightarrow> Value q \<noteq> v" by (cases q) auto
      then show ?thesis
        using False by (simp add: g add_to_pair_placed [OF v] zone_pods_snoc w snoc.IH)
    qed
  qed
qed

lemma grouped_mem:
  "(q, c) \<in> set (grouped key nm items) \<longleftrightarrow>
     Key q = key \<and> zone_pods key nm items (Value q) \<noteq> []
     \<and> c = \<lparr>tpc_count = int32_of (int (length (zone_pods key nm items (Value q)))),
            tpc_pods = zone_pods key nm items (Value q)\<rparr>"
  by (auto simp: gmem_iff grouped_lookup counter_of_def)

lemma grouped_ball:
  "(\<forall>(q, c) \<in> set (grouped key nm items). P q c) \<longleftrightarrow>
     (\<forall>v. zone_pods key nm items v \<noteq> [] \<longrightarrow> P \<lparr>Key = key, Value = v\<rparr>
        \<lparr>tpc_count = int32_of (int (length (zone_pods key nm items v))), tpc_pods = zone_pods key nm items v\<rparr>)"
proof (intro iffI ballI allI impI)
  fix v
  assume "\<forall>(q, c) \<in> set (grouped key nm items). P q c" "zone_pods key nm items v \<noteq> []"
  then show "P \<lparr>Key = key, Value = v\<rparr>
      \<lparr>tpc_count = int32_of (int (length (zone_pods key nm items v))), tpc_pods = zone_pods key nm items v\<rparr>"
    using grouped_mem [of "\<lparr>Key = key, Value = v\<rparr>"] by fastforce
next
  fix x
  assume all: "\<forall>v. zone_pods key nm items v \<noteq> [] \<longrightarrow> P \<lparr>Key = key, Value = v\<rparr>
      \<lparr>tpc_count = int32_of (int (length (zone_pods key nm items v))), tpc_pods = zone_pods key nm items v\<rparr>"
    and x: "x \<in> set (grouped key nm items)"
  obtain q c where qc: "x = (q, c)" by (cases x)
  have "q = \<lparr>Key = key, Value = Value q\<rparr>" using x unfolding qc grouped_mem by (cases q) simp
  then show "case x of (q, c) \<Rightarrow> P q c" using x all unfolding qc grouped_mem by (metis prod.case)
qed

section \<open>The decision\<close>

lemma check_flags_eq:
  "check_flags pol m True b = (True, b \<or> (\<exists>(q, c) \<in> set m. 0 <s desired_of pol (Value q) - tpc_count c))"
  by (induction m arbitrary: b) (auto simp: Let_def)

lemma checkTopoReached_iff:
  "checkTopoReached m con \<longleftrightarrow>
     (\<forall>(q, c) \<in> set m. \<not> 0 <s desired_of (SchedulePolicyMap con) (Value q) - tpc_count c)"
  by (auto simp: checkTopoReached_def check_flags_eq)

text \<open>Without negative replicas the 32-bit difference does not wrap.\<close>

definition want :: "(string, int32) gomap \<Rightarrow> string \<Rightarrow> int" where
  "want pol v = sint (desired_of pol v)"

lemma want_bounds: "- (2 ^ 31) \<le> want pol v" "want pol v < 2 ^ 31"
  unfolding want_def by (rule sint_int32_bounds)+

lemma diff_int32:
  assumes "- (2 ^ 31) \<le> want pol v - int n"
  shows "desired_of pol v - int32_of (int n) = int32_of (want pol v - int n)"
    "sint (desired_of pol v - int32_of (int n)) = want pol v - int n"
proof -
  show e: "desired_of pol v - int32_of (int n) = int32_of (want pol v - int n)"
    by (simp add: want_def int32_of_diff)
  have "want pol v - int n < 2 ^ 31" using want_bounds(2) [of pol v] by linarith
  then show "sint (desired_of pol v - int32_of (int n)) = want pol v - int n"
    using assms unfolding e by (intro sint_int32_of) auto
qed

lemma minus_diff_int32:
  assumes "- (2 ^ 31) < want pol v - int n" "want pol v - int n < 0"
  shows "sint (- (desired_of pol v - int32_of (int n))) = int n - want pol v"
proof -
  have "- (desired_of pol v - int32_of (int n)) = - int32_of (want pol v - int n)"
    using diff_int32(1) assms(1) by (simp only: less_imp_le)
  also have "\<dots> = int32_of (- (want pol v - int n))" by (rule int32_of_minus [symmetric])
  finally have "- (desired_of pol v - int32_of (int n)) = int32_of (int n - want pol v)"
    by (simp only: minus_diff_eq)
  then show ?thesis using assms by (simp add: sint_int32_of)
qed

section \<open>The calls\<close>

definition evict :: "(string, node) gomap \<Rightarrow> pod \<Rightarrow> eviction" where
  "evict nodeMap p = \<lparr>ev_pod = p, ev_node = glookup nodeMap (NodeName p)\<rparr>"

lemma ev_pod_evict [simp]: "ev_pod (evict nm p) = p"
  by (simp add: evict_def)

lemma evict_loop_eq:
  "evict_loop nm pods n i tr =
     (tr @ map (evict nm) (take n (drop i pods)),
      if i + n \<le> length pods \<or> n = 0 then None else Some IndexOutOfRange)"
proof (induction n arbitrary: i tr)
  case (Suc n)
  show ?case
  proof (cases "i < length pods")
    case True
    then have "take (Suc n) (drop i pods) = pods ! i # take n (drop (Suc i) pods)"
      by (simp flip: Cons_nth_drop_Suc)
    then show ?thesis using True by (auto simp: Suc.IH evict_def)
  qed simp
qed simp

text \<open>The number of pods above the replicas, and the pods that a value loses.\<close>

definition surplus :: "(string, int32) gomap \<Rightarrow> string \<Rightarrow> nat \<Rightarrow> nat" where
  "surplus pol v n = nat (int n - want pol v)"

definition victims :: "desched_env \<Rightarrow> (string, int32) gomap \<Rightarrow> string \<Rightarrow> pod list \<Rightarrow> pod list" where
  "victims env pol v ps = take (surplus pol v (length ps)) (sort_Sort env ps)"

definition counters_ok :: "(string, int32) gomap \<Rightarrow> (TopologyPair, TopoPairCount) gomap \<Rightarrow> bool" where
  "counters_ok pol m \<longleftrightarrow> (\<forall>(q, c) \<in> set m. 0 \<le> want pol (Value q)
     \<and> tpc_count c = int32_of (int (length (tpc_pods c))) \<and> int (length (tpc_pods c)) < 2 ^ 31)"

lemma evict_pairs_step:
  assumes "0 \<le> want pol v" "n = length ps" "int n < 2 ^ 31" "length (sort_Sort env ps) = length ps"
  shows "evict_pairs env nm pol ((\<lparr>Key = k, Value = v\<rparr>, \<lparr>tpc_count = int32_of (int n), tpc_pods = ps\<rparr>) # m) tr
    = evict_pairs env nm pol m (tr @ map (evict nm) (victims env pol v ps))"
proof -
  have b: "- (2 ^ 31) < want pol v - int n" using assms(1,3) by linarith
  note d = diff_int32(2) [OF less_imp_le [OF b]]
  show ?thesis
  proof (cases "int n \<le> want pol v")
    case True
    then have "0 \<le>s desired_of pol v - int32_of (int n)" by (simp add: word_sle_eq d)
    then show ?thesis using True assms(2) by (simp add: Let_def victims_def surplus_def)
  next
    case False
    then have "\<not> 0 \<le>s desired_of pol v - int32_of (int n)" by (simp add: word_sle_eq d)
    moreover have "sint (- (desired_of pol v - int32_of (int n))) = int n - want pol v"
      using minus_diff_int32 [OF b] False by simp
    ultimately show ?thesis
      using assms(1,2,4) by (simp add: Let_def evict_loop_eq victims_def surplus_def nat_le_iff
          del: minus_diff_eq)
  qed
qed

lemma evict_pairs_eq:
  assumes "go_sorter less_pods (sort_Sort env)" "counters_ok pol m"
  shows "evict_pairs env nm pol m tr =
    (tr @ concat (map (\<lambda>(q, c). map (evict nm) (victims env pol (Value q) (tpc_pods c))) m), None)"
  using assms(2)
proof (induction m arbitrary: tr)
  case (Cons qc m)
  obtain k v cnt ps where qc: "qc = (\<lparr>Key = k, Value = v\<rparr>, \<lparr>tpc_count = cnt, tpc_pods = ps\<rparr>)"
    by (metis TopoPairCount.cases TopologyPair.cases surj_pair)
  have c: "0 \<le> want pol v" "cnt = int32_of (int (length ps))" "int (length ps) < 2 ^ 31" "counters_ok pol m"
    using Cons.prems by (auto simp: counters_ok_def qc)
  show ?case
    using evict_pairs_step [OF c(1) refl c(3), of env nm k m tr] Cons.IH [OF c(4)]
      go_sorter.sort_length [OF assms(1), of ps]
    by (simp add: qc c(2) del: evict_pairs.simps)
qed simp

text \<open>A surplus larger than the number of pods (negative replicas) runs off the list.\<close>

lemma evict_pairs_panic:
  assumes "go_sorter less_pods (sort_Sort env)" "(q, c) \<in> set m"
    and "tpc_count c = int32_of (int (length (tpc_pods c)))" "want pol (Value q) < 0"
    and "tpc_pods c \<noteq> []" "- (2 ^ 31) < want pol (Value q) - int (length (tpc_pods c))"
  shows "snd (evict_pairs env nm pol m tr) = Some IndexOutOfRange"
  using assms(2)
proof (induction m arbitrary: tr)
  case (Cons qc m)
  show ?case
  proof (cases "qc = (q, c)")
    case True
    let ?n = "length (tpc_pods c)"
    note d = diff_int32(2) [OF less_imp_le [OF assms(6)]]
    have "\<not> 0 \<le>s desired_of pol (Value q) - int32_of (int ?n)"
      using assms(4) by (simp add: word_sle_eq d)
    moreover have "sint (- (desired_of pol (Value q) - int32_of (int ?n))) = int ?n - want pol (Value q)"
      using minus_diff_int32 [OF assms(6)] assms(4) by simp
    moreover have "\<not> nat (int ?n - want pol (Value q)) \<le> ?n" using assms(4) by simp
    moreover have "nat (int ?n - want pol (Value q)) \<noteq> 0" using assms(4) by simp
    ultimately show ?thesis
      using go_sorter.sort_length [OF assms(1), of "tpc_pods c"]
      by (simp add: True assms(3) Let_def evict_loop_eq del: minus_diff_eq)
  next
    case False
    then have "(q, c) \<in> set m" using Cons.prems by auto
    note IH = Cons.IH [OF this]
    obtain q' c' where "qc = (q', c')" by (cases qc)
    then show ?thesis using IH by (simp add: Let_def evict_loop_eq)
  qed
qed simp

section \<open>One policy\<close>

text \<open>
  The assumptions about the parameters: \<open>sort.Sort\<close> meets its contract and \<open>range\<close> visits
  every entry of a map once.
\<close>

definition desched_ok :: "desched_env \<Rightarrow> bool" where
  "desched_ok env \<longleftrightarrow> go_sorter less_pods (sort_Sort env)
     \<and> (\<forall>m. gmap_ok m \<longrightarrow> gsame m (range_check env m) \<and> gsame m (range_pairs env m))"

text \<open>Some value that has pods has fewer than its replicas.\<close>

definition short_of ::
    "(string, int32) gomap \<Rightarrow> string \<Rightarrow> (string, node) gomap \<Rightarrow> pod list \<Rightarrow> bool" where
  "short_of pol key nodeMap items \<longleftrightarrow>
     (\<exists>v. zone_pods key nodeMap items v \<noteq> [] \<and> int (length (zone_pods key nodeMap items v)) < want pol v)"

text \<open>The pods that the API server returns for a policy, when the code gets that far.\<close>

definition desched_inputs ::
    "desched_env \<Rightarrow> TopologySchedulingPolicy \<Rightarrow> eviction list \<Rightarrow> pod list \<Rightarrow> bool" where
  "desched_inputs env tsp tr items \<longleftrightarrow>
     (\<exists>sel. ds_LabelSelectorAsSelector env (spec_LabelSelector (Spec tsp)) = Inr sel)
     \<and> list_pods env tr (tsp_Namespace tsp) (FormatLabelSelector env (spec_LabelSelector (Spec tsp))) = Inr items"

lemma length_zone_pods: "length (zone_pods key nm items v) \<le> length items"
  by (simp add: zone_pods_def)

lemma check_grouped:
  assumes "gsame (grouped key nm items) m" "\<forall>v. 0 \<le> want (SchedulePolicyMap con) v"
    and "int (length items) < 2 ^ 31"
  shows "checkTopoReached m con \<longleftrightarrow> \<not> short_of (SchedulePolicyMap con) key nm items"
proof -
  let ?pol = "SchedulePolicyMap con" and ?z = "zone_pods key nm items"
  have d: "0 <s desired_of ?pol v - int32_of (int (length (?z v))) \<longleftrightarrow> int (length (?z v)) < want ?pol v" for v
  proof -
    have "- (2 ^ 31) \<le> want ?pol v - int (length (?z v))"
      using spec [OF assms(2), of v] length_zone_pods [of key nm items v] assms(3) by linarith
    from diff_int32(2) [OF this] show ?thesis by (simp add: word_sless_alt)
  qed
  have "set m = set (grouped key nm items)" using assms(1) by (simp add: gsame_def)
  then have "checkTopoReached m con \<longleftrightarrow> (\<forall>v. ?z v \<noteq> [] \<longrightarrow> \<not> int (length (?z v)) < want ?pol v)"
    by (auto simp: checkTopoReached_iff grouped_mem Ball_def d)
       (metis TopologyPair.select_convs)
  then show ?thesis by (auto simp: short_of_def)
qed

lemma counters_ok_grouped:
  assumes "gsame (grouped key nm items) m" "\<forall>v. 0 \<le> want pol v" "int (length items) < 2 ^ 31"
  shows "counters_ok pol m"
proof -
  have "set m = set (grouped key nm items)" using assms(1) by (simp add: gsame_def)
  moreover have "int (length (zone_pods key nm items v)) < 2 ^ 31" for v
    using length_zone_pods [of key nm items v] assms(3) by linarith
  ultimately show ?thesis using assms(2) by (auto simp: counters_ok_def grouped_mem)
qed

lemma process_policy_unfold:
  assumes "desched_inputs env tsp tr items"
  shows "process_policy env nm tsp tr =
    (let pol = CovertPolicy (DeployPlacement (Spec tsp));
         m = grouped (TopologyKey (Spec tsp)) nm items
     in if checkTopoReached (range_check env m) \<lparr>c_TopologyKey = TopologyKey (Spec tsp), SchedulePolicyMap = pol,
             Selector = projr (ds_LabelSelectorAsSelector env (spec_LabelSelector (Spec tsp)))\<rparr>
        then (tr, None) else evict_pairs env nm pol (range_pairs env m) tr)"
  using assms by (auto simp: desched_inputs_def process_policy_def grouped_def Let_def)

text \<open>The calls made for a policy, as a list.\<close>

definition policy_calls ::
    "desched_env \<Rightarrow> (string, node) gomap \<Rightarrow> TopologySchedulingPolicy \<Rightarrow> pod list \<Rightarrow> eviction list" where
  "policy_calls env nm tsp items =
     (let pol = CovertPolicy (DeployPlacement (Spec tsp)); key = TopologyKey (Spec tsp) in
      if short_of pol key nm items
      then concat (map (\<lambda>(q, c). map (evict nm) (victims env pol (Value q) (tpc_pods c)))
             (range_pairs env (grouped key nm items)))
      else [])"

lemma process_policy_calls:
  assumes env: "desched_ok env" and inp: "desched_inputs env tsp tr items"
    and pol: "\<forall>v. 0 \<le> want (CovertPolicy (DeployPlacement (Spec tsp))) v"
    and len: "int (length items) < 2 ^ 31"
  shows "process_policy env nm tsp tr = (tr @ policy_calls env nm tsp items, None)"
proof -
  let ?key = "TopologyKey (Spec tsp)"
  have s: "go_sorter less_pods (sort_Sort env)" using env by (simp add: desched_ok_def)
  have g: "gsame (grouped ?key nm items) (range_check env (grouped ?key nm items))"
    "gsame (grouped ?key nm items) (range_pairs env (grouped ?key nm items))"
    using env gmap_ok_grouped by (simp_all add: desched_ok_def)
  show ?thesis
    unfolding process_policy_unfold [OF inp] policy_calls_def Let_def
    using check_grouped [OF g(1) _ len] pol evict_pairs_eq [OF s counters_ok_grouped [OF g(2) pol len]]
    by simp
qed

lemma victims_subset: "go_sorter less_pods (sort_Sort env) \<Longrightarrow> set (victims env pol v ps) \<subseteq> set ps"
  using go_sorter.sort_set [of less_pods "sort_Sort env" ps]
    set_take_subset [of "surplus pol v (length ps)" "sort_Sort env ps"]
  by (simp add: victims_def)

lemma victims_Nil [simp]: "go_sorter less_pods (sort_Sort env) \<Longrightarrow> victims env pol v [] = []"
  using victims_subset [of env pol v "[]"] by simp

lemma length_victims:
  assumes "go_sorter less_pods (sort_Sort env)" "0 \<le> want pol v"
  shows "length (victims env pol v ps) = surplus pol v (length ps)"
  using go_sorter.sort_length [OF assms(1), of ps] assms(2) by (simp add: victims_def surplus_def)

text \<open>The loop over the values calls nothing exactly when no value with pods has a surplus.\<close>

lemma evict_pairs_none:
  assumes "go_sorter less_pods (sort_Sort env)" "gsame (grouped key nm items) m"
    and "\<forall>v. 0 \<le> want pol v" "int (length items) < 2 ^ 31"
  shows "fst (evict_pairs env nm pol m tr) = tr \<longleftrightarrow>
    (\<forall>v. zone_pods key nm items v \<noteq> [] \<longrightarrow> int (length (zone_pods key nm items v)) \<le> want pol v)"
proof -
  have "victims env pol v ps = [] \<longleftrightarrow> int (length ps) \<le> want pol v" for v ps
    using length_victims [OF assms(1) spec [OF assms(3), of v], of ps]
    by (metis length_0_conv nat_0_iff surplus_def diff_le_0_iff_le)
  then have "fst (evict_pairs env nm pol m tr) = tr \<longleftrightarrow>
      (\<forall>(q, c) \<in> set m. int (length (tpc_pods c)) \<le> want pol (Value q))"
    by (simp add: evict_pairs_eq [OF assms(1) counters_ok_grouped [OF assms(2-4)]] split_def)
  also have "set m = set (grouped key nm items)" using assms(2) by (simp add: gsame_def)
  finally show ?thesis unfolding grouped_ball by simp
qed

lemma concat_at_key:
  "distinct (map fst m) \<Longrightarrow>
     concat (map (\<lambda>(q, c). if q = k then f c else []) m) = (case map_of m k of None \<Rightarrow> [] | Some c \<Rightarrow> f c)"
proof (induction m)
  case (Cons qc m)
  obtain q c where qc: "qc = (q, c)" by (cases qc)
  show ?case
  proof (cases "q = k")
    case True
    then have "map_of m k = None" using Cons.prems qc by (simp add: map_of_eq_None_iff)
    then show ?thesis using Cons True qc by simp
  qed (use Cons qc in simp)
qed simp

lemma filter_calls_pair:
  assumes "go_sorter less_pods (sort_Sort env)" "(q, c) \<in> set (grouped key nm items)"
  shows "filter (\<lambda>e. placed key nm v (ev_pod e)) (map (evict nm) (victims env pol (Value q) (tpc_pods c)))
    = (if q = \<lparr>Key = key, Value = v\<rparr> then map (evict nm) (victims env pol v (tpc_pods c)) else [])"
proof -
  have q: "Key q = key" "tpc_pods c = zone_pods key nm items (Value q)"
    using assms(2) by (auto simp: grouped_mem)
  have p: "placed key nm (Value q) x" if "x \<in> set (victims env pol (Value q) (tpc_pods c))" for x
    using that victims_subset [OF assms(1), of pol "Value q" "tpc_pods c"] by (auto simp: q(2) zone_pods_def)
  show ?thesis
  proof (cases "Value q = v")
    case True
    then have "q = \<lparr>Key = key, Value = v\<rparr>" using q(1) by (cases q) simp
    then show ?thesis using p by (simp add: filter_id_conv)
  next
    case False
    then have "q \<noteq> \<lparr>Key = key, Value = v\<rparr>" by auto
    then show ?thesis using p placed_unique False by (fastforce simp: filter_empty_conv)
  qed
qed

lemma policy_calls_zone:
  assumes "desched_ok env"
  shows "filter (\<lambda>e. placed (TopologyKey (Spec tsp)) nm v (ev_pod e)) (policy_calls env nm tsp items) =
    (if short_of (CovertPolicy (DeployPlacement (Spec tsp))) (TopologyKey (Spec tsp)) nm items
     then map (evict nm) (victims env (CovertPolicy (DeployPlacement (Spec tsp))) v
            (zone_pods (TopologyKey (Spec tsp)) nm items v))
     else [])"
proof -
  let ?key = "TopologyKey (Spec tsp)" and ?pol = "CovertPolicy (DeployPlacement (Spec tsp))"
  let ?m = "range_pairs env (grouped ?key nm items)" and ?k = "\<lparr>Key = ?key, Value = v\<rparr>"
  have s: "go_sorter less_pods (sort_Sort env)" using assms by (simp add: desched_ok_def)
  have g: "gsame (grouped ?key nm items) ?m" using assms gmap_ok_grouped by (simp add: desched_ok_def)
  have mem: "set ?m = set (grouped ?key nm items)" and d: "distinct (map fst ?m)"
    using g by (auto simp: gsame_def gmap_ok_def)
  have look: "map_of ?m ?k = counter_of (zone_pods ?key nm items v)"
    using gsame_lookup [OF g] by (simp add: glookup_def [symmetric] grouped_lookup flip: gsame_lookup [OF g])
  let ?f = "\<lambda>e. placed ?key nm v (ev_pod e)"
  let ?calls = "\<lambda>(q, c). map (evict nm) (victims env ?pol (Value q) (tpc_pods c))"
  have "filter ?f (concat (map ?calls ?m)) = concat (map (\<lambda>qc. filter ?f (?calls qc)) ?m)"
    by (simp add: filter_concat comp_def)
  also have "map (\<lambda>qc. filter ?f (?calls qc)) ?m
      = map (\<lambda>(q, c). if q = ?k then map (evict nm) (victims env ?pol v (tpc_pods c)) else []) ?m"
    using filter_calls_pair [OF s] by (intro map_cong refl) (auto simp: mem)
  also have "concat \<dots> = map (evict nm) (victims env ?pol v (zone_pods ?key nm items v))"
    unfolding concat_at_key [OF d] look using s by (simp add: counter_of_def)
  finally show ?thesis by (simp add: policy_calls_def Let_def)
qed

lemma policy_calls_live:
  assumes "desched_ok env" "e \<in> set (policy_calls env nm tsp items)"
  shows "\<exists>v. ev_pod e \<in> set (zone_pods (TopologyKey (Spec tsp)) nm items v)"
    "ev_node e = glookup nm (NodeName (ev_pod e))"
proof -
  let ?key = "TopologyKey (Spec tsp)" and ?pol = "CovertPolicy (DeployPlacement (Spec tsp))"
  have s: "go_sorter less_pods (sort_Sort env)" using assms(1) by (simp add: desched_ok_def)
  have "gsame (grouped ?key nm items) (range_pairs env (grouped ?key nm items))"
    using assms(1) gmap_ok_grouped by (simp add: desched_ok_def)
  then have mem: "set (range_pairs env (grouped ?key nm items)) = set (grouped ?key nm items)"
    by (simp add: gsame_def)
  obtain q c p where "(q, c) \<in> set (grouped ?key nm items)" "p \<in> set (victims env ?pol (Value q) (tpc_pods c))"
    "e = evict nm p"
    using assms(2) by (auto simp: policy_calls_def Let_def mem split: if_splits)
  then show "\<exists>v. ev_pod e \<in> set (zone_pods ?key nm items v)" "ev_node e = glookup nm (NodeName (ev_pod e))"
    using victims_subset [OF s, of ?pol "Value q" "tpc_pods c"] by (auto simp: grouped_mem evict_def)
qed

section \<open>After the evictions\<close>

lemma no_surplus_no_calls:
  assumes "\<forall>v. int (length (zone_pods (TopologyKey (Spec tsp)) nm items v))
      \<le> want (CovertPolicy (DeployPlacement (Spec tsp))) v" "desched_ok env"
  shows "policy_calls env nm tsp items = []"
proof (rule ccontr)
  assume "policy_calls env nm tsp items \<noteq> []"
  then obtain e where e: "e \<in> set (policy_calls env nm tsp items)" by (meson list.set_sel(1))
  obtain v where "ev_pod e \<in> set (zone_pods (TopologyKey (Spec tsp)) nm items v)"
    using policy_calls_live(1) [OF assms(2) e] by blast
  then have "e \<in> set (filter (\<lambda>e. placed (TopologyKey (Spec tsp)) nm v (ev_pod e)) (policy_calls env nm tsp items))"
    using e by (simp add: zone_pods_def)
  then show False
    using spec [OF assms(1), of v]
    by (simp add: policy_calls_zone [OF assms(2)] victims_def surplus_def split: if_splits)
qed

lemma victims_of_zone:
  assumes "desched_ok env" "short_of (CovertPolicy (DeployPlacement (Spec tsp))) (TopologyKey (Spec tsp)) nm items"
    and "p \<in> set (zone_pods (TopologyKey (Spec tsp)) nm items v)"
  shows "p \<in> ev_pod ` set (policy_calls env nm tsp items) \<longleftrightarrow>
    p \<in> set (victims env (CovertPolicy (DeployPlacement (Spec tsp))) v (zone_pods (TopologyKey (Spec tsp)) nm items v))"
proof -
  let ?f = "\<lambda>e. placed (TopologyKey (Spec tsp)) nm v (ev_pod e)"
  let ?V = "victims env (CovertPolicy (DeployPlacement (Spec tsp))) v (zone_pods (TopologyKey (Spec tsp)) nm items v)"
  have "map ev_pod (filter ?f (policy_calls env nm tsp items)) = ?V"
    using assms(2) by (simp add: policy_calls_zone [OF assms(1)] comp_def)
  then have "set ?V = ev_pod ` {e \<in> set (policy_calls env nm tsp items). ?f e}"
    by (metis (no_types) list.set_map set_filter)
  moreover have "placed (TopologyKey (Spec tsp)) nm v p" using assms(3) by (simp add: zone_pods_def)
  ultimately show ?thesis by auto
qed

lemma length_filter_notin:
  "distinct xs \<Longrightarrow> distinct ys \<Longrightarrow> set ys \<subseteq> set xs \<Longrightarrow>
     length (filter (\<lambda>x. x \<notin> set ys) xs) = length xs - length ys"
proof -
  assume a: "distinct xs" "distinct ys" "set ys \<subseteq> set xs"
  have "length (filter (\<lambda>x. x \<notin> set ys) xs) = card (set xs - set ys)"
    using distinct_card [OF distinct_filter [OF a(1)], of "\<lambda>x. x \<notin> set ys"]
    by (simp only: set_filter set_diff_eq)
  also have "\<dots> = length xs - length ys"
    using a by (simp add: card_Diff_subset distinct_card)
  finally show ?thesis .
qed

text \<open>What a value is left with: its replicas, or all of its pods when it has fewer.\<close>

lemma left_after_calls:
  assumes env: "desched_ok env" and dist: "distinct items"
    and pol: "0 \<le> want (CovertPolicy (DeployPlacement (Spec tsp))) v"
    and short: "short_of (CovertPolicy (DeployPlacement (Spec tsp))) (TopologyKey (Spec tsp)) nm items"
  shows "int (length (zone_pods (TopologyKey (Spec tsp)) nm
      (filter (\<lambda>p. p \<notin> ev_pod ` set (policy_calls env nm tsp items)) items) v))
    = min (int (length (zone_pods (TopologyKey (Spec tsp)) nm items v)))
        (want (CovertPolicy (DeployPlacement (Spec tsp))) v)"
proof -
  let ?key = "TopologyKey (Spec tsp)" and ?pol = "CovertPolicy (DeployPlacement (Spec tsp))"
  let ?z = "zone_pods ?key nm items v" and ?V = "victims env ?pol v (zone_pods ?key nm items v)"
  have s: "go_sorter less_pods (sort_Sort env)" using env by (simp add: desched_ok_def)
  have "zone_pods ?key nm (filter (\<lambda>p. p \<notin> ev_pod ` set (policy_calls env nm tsp items)) items) v
      = filter (\<lambda>p. p \<notin> ev_pod ` set (policy_calls env nm tsp items)) ?z"
    by (simp add: zone_pods_def filter_filter conj_commute)
  also have "\<dots> = filter (\<lambda>p. p \<notin> set ?V) ?z"
    using victims_of_zone [OF env short] by (intro filter_cong refl) blast
  finally have "length (zone_pods ?key nm (filter (\<lambda>p. p \<notin> ev_pod ` set (policy_calls env nm tsp items)) items) v)
      = length (filter (\<lambda>p. p \<notin> set ?V) ?z)" by simp
  also have "\<dots> = length ?z - length ?V"
  proof (rule length_filter_notin)
    show d: "distinct ?z" using dist by (simp add: zone_pods_def)
    show "distinct ?V"
      unfolding victims_def by (rule distinct_take) (simp add: go_sorter.sort_distinct [OF s] d)
    show "set ?V \<subseteq> set ?z" by (rule victims_subset [OF s])
  qed
  finally show ?thesis using length_victims [OF s pol, of ?z] pol by (simp add: surplus_def)
qed

text \<open>
  The evicted pods gone, there is nothing left to evict; the second look at the policy may
  range over the maps and sort in another way (\<open>env'\<close>).
\<close>

lemma policy_calls_settle:
  assumes env: "desched_ok env" "desched_ok env'"
    and pol: "\<forall>v. 0 \<le> want (CovertPolicy (DeployPlacement (Spec tsp))) v"
    and dist: "distinct items"
  shows "policy_calls env' nm tsp (filter (\<lambda>p. p \<notin> ev_pod ` set (policy_calls env nm tsp items)) items) = []"
proof (cases "short_of (CovertPolicy (DeployPlacement (Spec tsp))) (TopologyKey (Spec tsp)) nm items")
  case False
  then have "policy_calls env nm tsp items = []" "policy_calls env' nm tsp items = []"
    by (simp_all add: policy_calls_def Let_def)
  then show ?thesis by simp
next
  case True
  then have "\<forall>v. int (length (zone_pods (TopologyKey (Spec tsp)) nm
      (filter (\<lambda>p. p \<notin> ev_pod ` set (policy_calls env nm tsp items)) items) v))
      \<le> want (CovertPolicy (DeployPlacement (Spec tsp))) v"
    using left_after_calls [OF env(1) dist] pol by simp
  then show ?thesis by (rule no_surplus_no_calls [OF _ env(2)])
qed

section \<open>The node map\<close>

lemma build_nodeMap_lookup:
  assumes "glookup (build_nodeMap nodes) n = Some nd"
  shows "nd \<in> set nodes \<and> node_Name nd = n"
proof -
  have "map_of (rev (map (\<lambda>nd. (node_Name nd, nd)) nodes)) n = Some nd"
    using assms gm.fold_insert_empty [of node_Name "\<lambda>nd. nd" nodes] by (simp add: build_nodeMap_def)
  then show ?thesis by (auto dest: map_of_SomeD)
qed

lemma policy_calls_on_nodes:
  assumes "desched_ok env" "e \<in> set (policy_calls env (build_nodeMap nodes) tsp items)"
  shows "DeletionTimestamp (ev_pod e) = None
    \<and> (\<exists>nd \<in> set nodes. ev_node e = Some nd \<and> node_Name nd = NodeName (ev_pod e))"
proof -
  obtain v where "placed (TopologyKey (Spec tsp)) (build_nodeMap nodes) v (ev_pod e)"
    using policy_calls_live(1) [OF assms] by (auto simp: zone_pods_def)
  then show ?thesis
    using policy_calls_live(2) [OF assms] build_nodeMap_lookup by (fastforce simp: placed_iff)
qed

lemma want_nonneg:
  assumes "\<forall>q \<in> set dp. 0 \<le> sint (Replicas q)"
  shows "\<forall>v. 0 \<le> want (CovertPolicy dp) v"
  using assms by (auto simp: want_def desired_of_def split: option.split dest: CovertPolicy_range)

text \<open>
  The whole strategy on policies without negative replicas: it returns, and its calls are for
  live pods on nodes it was given.
\<close>

lemma strategy_calls:
  assumes "desched_ok env" "ns_List (TopologySchedulingPolicies idx NamespaceAll) Everything = (tsps, None)"
    and "\<forall>tsp \<in> set tsps. \<forall>q \<in> set (DeployPlacement (Spec tsp)). 0 \<le> sint (Replicas q)"
    and "\<forall>tr ns fmt items. list_pods env tr ns fmt = Inr items \<longrightarrow> int (length items) < 2 ^ 31"
  shows "\<exists>ev. RemovePodsViolatingTopologySchedulingPolicy env nodes (Some idx) tr = (tr @ ev, None)
    \<and> (\<forall>e \<in> set ev. DeletionTimestamp (ev_pod e) = None
        \<and> (\<exists>nd \<in> set nodes. ev_node e = Some nd \<and> node_Name nd = NodeName (ev_pod e)))"
proof -
  let ?nm = "build_nodeMap nodes"
  let ?good = "\<lambda>ev. \<forall>e \<in> set ev. DeletionTimestamp (ev_pod e) = None
        \<and> (\<exists>nd \<in> set nodes. ev_node e = Some nd \<and> node_Name nd = NodeName (ev_pod e))"
  have one: "\<exists>ev. process_policy env ?nm tsp tr = (tr @ ev, None) \<and> ?good ev"
    if t: "tsp \<in> set tsps" for tsp tr
  proof (cases "\<exists>items. desched_inputs env tsp tr items")
    case True
    then obtain items where i: "desched_inputs env tsp tr items" by blast
    then have "int (length items) < 2 ^ 31" using assms(4) by (auto simp: desched_inputs_def)
    from process_policy_calls [OF assms(1) i want_nonneg this] assms(3) t
    have "process_policy env ?nm tsp tr = (tr @ policy_calls env ?nm tsp items, None)" by blast
    moreover have "?good (policy_calls env ?nm tsp items)"
      using policy_calls_on_nodes [OF assms(1)] by blast
    ultimately show ?thesis by blast
  next
    case False
    then have "process_policy env ?nm tsp tr = (tr, None)"
      by (cases "ds_LabelSelectorAsSelector env (spec_LabelSelector (Spec tsp))";
          cases "list_pods env tr (tsp_Namespace tsp) (FormatLabelSelector env (spec_LabelSelector (Spec tsp)))")
         (simp_all add: process_policy_def desched_inputs_def Let_def)
    then show ?thesis by (intro exI [of _ "[]"]) simp
  qed
  have "\<exists>ev. process_policies env ?nm ts tr = (tr @ ev, None) \<and> ?good ev"
    if "set ts \<subseteq> set tsps" for ts tr
    using that
  proof (induction ts arbitrary: tr)
    case (Cons tsp ts)
    obtain ev where ev: "process_policy env ?nm tsp tr = (tr @ ev, None)" "?good ev"
      using one [of tsp tr] Cons.prems by auto
    obtain ev' where "process_policies env ?nm ts (tr @ ev) = ((tr @ ev) @ ev', None)" "?good ev'"
      using Cons.IH [of "tr @ ev"] Cons.prems by auto
    then show ?case using ev by (intro exI [of _ "ev @ ev'"]) auto
  qed simp
  from this [OF subset_refl] show ?thesis
    by (simp add: RemovePodsViolatingTopologySchedulingPolicy_def assms(2) del: ns_List_eq)
qed

section \<open>Several policies\<close>

text \<open>
  An API server from whose lists the pods evicted so far have disappeared; \<open>base\<close> are its lists
  before. \<open>items_of\<close> are the pods that it lists for a policy.
\<close>

definition api_lists :: "desched_env \<Rightarrow> (string \<Rightarrow> string \<Rightarrow> pod list) \<Rightarrow> bool" where
  "api_lists env base \<longleftrightarrow> (\<forall>tr ns fmt.
     list_pods env tr ns fmt = Inr (filter (\<lambda>p. p \<notin> ev_pod ` set tr) (base ns fmt)))"

definition items_of ::
    "desched_env \<Rightarrow> (string \<Rightarrow> string \<Rightarrow> pod list) \<Rightarrow> TopologySchedulingPolicy \<Rightarrow> pod list" where
  "items_of env base tsp = base (tsp_Namespace tsp) (FormatLabelSelector env (spec_LabelSelector (Spec tsp)))"

definition policy_ok :: "desched_env \<Rightarrow> TopologySchedulingPolicy \<Rightarrow> bool" where
  "policy_ok env tsp \<longleftrightarrow> (\<exists>sel. ds_LabelSelectorAsSelector env (spec_LabelSelector (Spec tsp)) = Inr sel)
     \<and> (\<forall>q \<in> set (DeployPlacement (Spec tsp)). 0 \<le> sint (Replicas q))"

lemma policy_calls_items:
  "desched_ok env \<Longrightarrow> ev_pod ` set (policy_calls env nm tsp items) \<subseteq> set items"
  using policy_calls_live(1) by (fastforce simp: zone_pods_def)

lemma process_policies_calls:
  assumes env: "desched_ok env" "api_lists env base"
    and "\<forall>tsp \<in> set tsps. policy_ok env tsp \<and> int (length (items_of env base tsp)) < 2 ^ 31"
    and "sorted_wrt (\<lambda>a b. set (items_of env base a) \<inter> set (items_of env base b) = {}) tsps"
    and "\<forall>tsp \<in> set tsps. ev_pod ` set tr \<inter> set (items_of env base tsp) = {}"
  shows "process_policies env nm tsps tr =
    (tr @ concat (map (\<lambda>tsp. policy_calls env nm tsp (items_of env base tsp)) tsps), None)"
  using assms(3-)
proof (induction tsps arbitrary: tr)
  case (Cons tsp tsps)
  let ?items = "items_of env base tsp" and ?calls = "policy_calls env nm tsp (items_of env base tsp)"
  have "filter (\<lambda>p. p \<notin> ev_pod ` set tr) ?items = ?items"
    using Cons.prems(3) by (auto simp: filter_id_conv)
  then have "desched_inputs env tsp tr ?items"
    using Cons.prems(1) env(2) by (simp add: desched_inputs_def policy_ok_def api_lists_def items_of_def)
  then have "process_policy env nm tsp tr = (tr @ ?calls, None)"
    using process_policy_calls [OF env(1)] want_nonneg Cons.prems(1) by (simp add: policy_ok_def)
  moreover have "process_policies env nm tsps (tr @ ?calls) =
    ((tr @ ?calls) @ concat (map (\<lambda>tsp. policy_calls env nm tsp (items_of env base tsp)) tsps), None)"
  proof (rule Cons.IH)
    show "\<forall>t \<in> set tsps. ev_pod ` set (tr @ ?calls) \<inter> set (items_of env base t) = {}"
      using Cons.prems(2,3) policy_calls_items [OF env(1), of nm tsp ?items] by fastforce
  qed (use Cons.prems in auto)
  ultimately show ?case by simp
qed simp

lemma filter_calls_of_policy:
  assumes "sorted_wrt (\<lambda>a b. I a \<inter> I b = {}) tsps" "tsp \<in> set tsps"
    and "\<And>t. t \<in> set tsps \<Longrightarrow> g ` set (f t) \<subseteq> I t"
  shows "filter (\<lambda>e. g e \<in> I tsp \<and> Q e) (concat (map f tsps)) = filter Q (f tsp)"
  using assms
proof (induction tsps)
  case (Cons t tsps)
  have here: "filter (\<lambda>e. g e \<in> I t \<and> Q e) (f t) = filter Q (f t)"
    using Cons.prems(3) [of t] by (intro filter_cong) auto
  have none: "filter (\<lambda>e. g e \<in> I a \<and> Q e) (concat (map f ts)) = []"
    if "\<forall>b \<in> set ts. I a \<inter> I b = {}" "\<forall>b \<in> set ts. g ` set (f b) \<subseteq> I b" for a ts
    using that by (fastforce simp: filter_empty_conv)
  show ?case
  proof (cases "tsp = t")
    case True
    then have "filter (\<lambda>e. g e \<in> I tsp \<and> Q e) (concat (map f tsps)) = []"
      using none [of tsps tsp] Cons.prems(1,3) by simp
    then show ?thesis using True here by simp
  next
    case False
    then have t: "tsp \<in> set tsps" using Cons.prems(2) by simp
    then have "I tsp \<inter> I t = {}" using Cons.prems(1) by auto
    then have "filter (\<lambda>e. g e \<in> I tsp \<and> Q e) (f t) = []"
      using Cons.prems(3) [of t] by (fastforce simp: filter_empty_conv)
    then show ?thesis using Cons.IH [OF _ t] Cons.prems(1,3) by simp
  qed
qed simp

text \<open>All calls of a run, and what they are for one policy.\<close>

definition all_calls ::
    "desched_env \<Rightarrow> node list \<Rightarrow> (string \<Rightarrow> string \<Rightarrow> pod list) \<Rightarrow> TopologySchedulingPolicy list \<Rightarrow> eviction list" where
  "all_calls env nodes base tsps =
     concat (map (\<lambda>tsp. policy_calls env (build_nodeMap nodes) tsp (items_of env base tsp)) tsps)"

lemma sorted_wrt_disjoint:
  "sorted_wrt (\<lambda>a b. I a \<inter> I b = {}) xs \<Longrightarrow> x \<in> set xs \<Longrightarrow> y \<in> set xs \<Longrightarrow> x = y \<or> I x \<inter> I y = {}"
  by (induction xs) auto

lemma UN_unique:
  "A = (\<Union>t \<in> T. F t) \<Longrightarrow> x \<in> T \<Longrightarrow> (\<And>t. t \<in> T \<Longrightarrow> p \<in> F t \<Longrightarrow> t = x) \<Longrightarrow> p \<in> A \<longleftrightarrow> p \<in> F x"
  by blast

text \<open>Among the pods of a policy the calls of a run take those made for this policy.\<close>

lemma all_calls_of_policy:
  assumes "desched_ok env" "tsp \<in> set tsps" "p \<in> set (items_of env base tsp)"
    and "sorted_wrt (\<lambda>a b. set (items_of env base a) \<inter> set (items_of env base b) = {}) tsps"
  shows "p \<in> ev_pod ` set (all_calls env nodes base tsps)
    \<longleftrightarrow> p \<in> ev_pod ` set (policy_calls env (build_nodeMap nodes) tsp (items_of env base tsp))"
proof -
  have "t = tsp" if "t \<in> set tsps" "p \<in> ev_pod ` set (policy_calls env (build_nodeMap nodes) t (items_of env base t))" for t
  proof -
    have "p \<in> set (items_of env base t)"
      using that(2) policy_calls_items [OF assms(1), of "build_nodeMap nodes" t "items_of env base t"] by (rule subsetD [rotated])
    then show ?thesis using sorted_wrt_disjoint [OF assms(4) that(1) assms(2)] assms(3) by blast
  qed
  note same = this
  have "ev_pod ` set (all_calls env nodes base tsps)
      = (\<Union>t \<in> set tsps. ev_pod ` set (policy_calls env (build_nodeMap nodes) t (items_of env base t)))"
    by (simp add: all_calls_def image_UN)
  from UN_unique [OF this assms(2) same] show ?thesis .
qed

lemma all_calls_zone:
  assumes "desched_ok env" "tsp \<in> set tsps"
    and "sorted_wrt (\<lambda>a b. set (items_of env base a) \<inter> set (items_of env base b) = {}) tsps"
  shows "map ev_pod (filter (\<lambda>e. ev_pod e \<in> set (items_of env base tsp)
        \<and> placed (TopologyKey (Spec tsp)) (build_nodeMap nodes) v (ev_pod e)) (all_calls env nodes base tsps)) =
    (let pol = CovertPolicy (DeployPlacement (Spec tsp)); key = TopologyKey (Spec tsp);
         nm = build_nodeMap nodes; ps = zone_pods key nm (items_of env base tsp) v
     in if short_of pol key nm (items_of env base tsp)
        then take (nat (int (length ps) - want pol v)) (sort_Sort env ps) else [])"
  unfolding all_calls_def filter_calls_of_policy [OF assms(3,2) policy_calls_items [OF assms(1)]]
  by (simp add: policy_calls_zone [OF assms(1)] victims_def surplus_def comp_def Let_def)

lemma strategy_all_calls:
  assumes "desched_ok env" "api_lists env base"
    and "ns_List (TopologySchedulingPolicies idx NamespaceAll) Everything = (tsps, None)"
    and "\<And>tsp. tsp \<in> set tsps \<Longrightarrow> policy_ok env tsp"
    and "\<And>tsp. tsp \<in> set tsps \<Longrightarrow> int (length (items_of env base tsp)) < 2 ^ 31"
    and "sorted_wrt (\<lambda>a b. set (items_of env base a) \<inter> set (items_of env base b) = {}) tsps"
  shows "RemovePodsViolatingTopologySchedulingPolicy env nodes (Some idx) [] = (all_calls env nodes base tsps, None)"
proof -
  have "process_policies env (build_nodeMap nodes) tsps [] =
    ([] @ concat (map (\<lambda>tsp. policy_calls env (build_nodeMap nodes) tsp (items_of env base tsp)) tsps), None)"
    by (rule process_policies_calls [OF assms(1,2) _ assms(6)]) (use assms(4,5) in blast, simp)
  then show ?thesis
    using assms(3) by (simp add: RemovePodsViolatingTopologySchedulingPolicy_def all_calls_def)
qed

end
