(* ===== verification/Durations.thy ===== *)
theory Durations
  imports Float64 "HOL-Library.Signed_Division"
begin

text \<open>
  \<open>time.Duration.Seconds\<close> of Go's standard library: whole seconds and nanoseconds are divided as
  \<open>int64\<close> values and added as \<open>float64\<close> values. The program compares the result with zero, which
  is exact: it is zero for the zero duration only.
\<close>

fun f64_add :: "f64 \<Rightarrow> f64 \<Rightarrow> f64" where
  "f64_add (Fin a) (Fin b) = f64_of (a + b)"
| "f64_add (Fin a) y = y"
| "f64_add x (Fin b) = x"
| "f64_add PosInf PosInf = PosInf"
| "f64_add NegInf NegInf = NegInf"
| "f64_add _ _ = NaN"

definition Seconds :: "int64 \<Rightarrow> f64" where
  "Seconds d = (let sec = sint d sdiv 1000000000; nsec = sint d smod 1000000000
     in f64_add (f64_of (of_int sec)) (f64_div (f64_of (of_int nsec)) (Fin 1000000000)))"

section \<open>Rounding keeps away from zero\<close>

lemma ilog2_tiny: "ilog2 (1 / 1073741824) = - 30"
  by (rule ilog2_unique) (simp_all add: power_int_def power_one_over)

lemma f64_round_tiny: "f64_round (1 / 1073741824) = 1 / 1073741824"
proof (rule f64_round_exact)
  have "ulp (1 / 1073741824) = 1 / 2 ^ 82" by (simp add: ulp_def ilog2_tiny power_int_def power_one_over)
  then show "1 / 1073741824 / ulp (1 / 1073741824) = of_int (2 ^ 52)" by (simp only:) simp
qed

lemma f64_round_away:
  "1 / 1073741824 \<le> x \<Longrightarrow> 1 / 1073741824 \<le> f64_round x"
  using f64_round_mono [of "1 / 1073741824" x] by (simp add: f64_round_tiny)

lemma f64_round_upper: "\<bar>m\<bar> < 2 ^ 53 \<Longrightarrow> y \<le> of_int m \<Longrightarrow> f64_round y \<le> of_int m"
  using f64_round_mono [of y "of_int m"] f64_round_of_int [of m] by simp

text \<open>\<open>away x\<close>: a value that is zero or not tiny, with a bound on its size.\<close>

definition away :: "int \<Rightarrow> rat \<Rightarrow> bool" where
  "away m x \<longleftrightarrow> (x = 0 \<or> 1 / 1073741824 \<le> \<bar>x\<bar>) \<and> \<bar>x\<bar> \<le> of_int m"

lemma f64_of_zero [simp]: "f64_of 0 = Fin 0"
  using f64_of_small [of 0] by simp

lemma f64_of_away:
  assumes "away m x" "0 \<le> m" "m \<le> 2 ^ 50"
  obtains r where "f64_of x = Fin r" "away m r" "r = 0 \<longleftrightarrow> x = 0" "0 \<le> x \<longleftrightarrow> 0 \<le> r"
proof -
  have up: "f64_round y \<le> of_int m" if "y \<le> of_int m" for y
    using that assms(2,3) by (intro f64_round_upper) simp_all
  have "\<bar>x\<bar> \<le> of_int (2 ^ 50)" using assms(1,3) unfolding away_def by (meson of_int_le_iff order_trans)
  then have fin: "f64_of x = Fin (f64_round x)" by (intro f64_of_small) simp
  consider "x = 0" | "1 / 1073741824 \<le> x" "x \<le> of_int m" | "1 / 1073741824 \<le> - x" "- x \<le> of_int m"
    using assms(1) by (auto simp: away_def abs_if split: if_splits)
  then show ?thesis
  proof cases
    case 1
    then show ?thesis using that [of 0] fin assms by (simp add: away_def)
  next
    case 2
    then show ?thesis using that [OF fin] f64_round_away [of x] up [of x] by (simp add: away_def)
  next
    case 3
    then show ?thesis using that [OF fin] f64_round_away [of "- x"] up [of "- x"]
      by (simp add: away_def f64_round_minus)
  qed
qed

lemma f64_of_integer: "\<bar>n\<bar> \<le> 2 ^ 50 \<Longrightarrow> f64_of (of_int n) = Fin (of_int n)"
proof -
  assume n: "\<bar>n\<bar> \<le> 2 ^ 50"
  then have "\<bar>of_int n :: rat\<bar> \<le> of_int (2 ^ 50)" by (metis of_int_abs of_int_le_iff)
  then have "f64_of (of_int n) = Fin (f64_round (of_int n))" by (intro f64_of_small) simp
  then show ?thesis using n by (simp add: f64_round_of_int)
qed

section \<open>Zero seconds\<close>

text \<open>Seconds and nanoseconds never have opposite signs.\<close>

lemma sdiv_smod_signs:
  fixes x :: int
  shows "x = x sdiv 1000000000 * 1000000000 + x smod 1000000000"
    "\<bar>x smod 1000000000\<bar> < 1000000000"
    "0 \<le> x \<Longrightarrow> 0 \<le> x sdiv 1000000000 \<and> 0 \<le> x smod 1000000000"
    "x \<le> 0 \<Longrightarrow> x sdiv 1000000000 \<le> 0 \<and> x smod 1000000000 \<le> 0"
  using sdiv_mult_smod_eq [of x 1000000000]
  by (auto simp: signed_divide_int_def signed_modulo_int_def sgn_if abs_if)

lemma of_int_add_away:
  fixes r :: rat
  assumes "away 1 r" "0 \<le> n \<and> 0 \<le> r \<or> n \<le> 0 \<and> r \<le> 0" "\<bar>n\<bar> \<le> m"
  shows "away (m + 1) (of_int n + r) \<and> (of_int n + r = 0 \<longleftrightarrow> n = 0 \<and> r = 0)"
proof -
  have m: "\<bar>of_int n :: rat\<bar> \<le> of_int m" using assms(3) by (metis of_int_abs of_int_le_iff)
  have one: "n = 0 \<or> (1 :: rat) \<le> of_int n \<or> (of_int n :: rat) \<le> - 1"
    by (metis int_one_le_iff_zero_less linorder_neqE of_int_1_le_iff of_int_le_iff of_int_minus of_int_1
        neg_0_less_iff_less neg_le_iff_le minus_minus)
  show ?thesis using assms(1,2) m one by (auto simp: away_def abs_if split: if_splits)
qed

lemma Seconds_eq_0: "Seconds d = Fin 0 \<longleftrightarrow> d = 0"
proof -
  define x sec nsec where "x = sint d" and "sec = x sdiv 1000000000" and "nsec = x smod 1000000000"
  note sg = sdiv_smod_signs [of x, folded sec_def nsec_def]
  have "\<bar>x\<bar> \<le> 9223372036854775808" using sint_range_size [of d] by (simp add: x_def word_size abs_if)
  then have sb: "\<bar>sec\<bar> \<le> 17179869184" using sg(1,2) by linarith
  have "of_int \<bar>nsec\<bar> \<le> (1000000000 :: rat)" using sg(2) by simp
  moreover have "nsec \<noteq> 0 \<Longrightarrow> (1 :: rat) \<le> of_int \<bar>nsec\<bar>" by simp
  ultimately have "away 1 (of_int nsec / 1000000000)" by (auto simp: away_def field_simps)
  then obtain r where r: "f64_of (of_int nsec / 1000000000) = Fin r" "away 1 r"
      "r = 0 \<longleftrightarrow> of_int nsec / 1000000000 = (0 :: rat)" "(0 :: rat) \<le> of_int nsec / 1000000000 \<longleftrightarrow> 0 \<le> r"
    by (rule f64_of_away) simp_all
  have S: "Seconds d = f64_of (of_int sec + r)"
    using r(1) sb sg(2) by (simp add: Seconds_def Let_def x_def [symmetric] sec_def [symmetric] nsec_def [symmetric] f64_of_integer)
  have "0 \<le> sec \<and> 0 \<le> r \<or> sec \<le> 0 \<and> r \<le> 0"
    using sg(3,4) r(3,4) by (cases "0 \<le> x") (auto simp: divide_le_0_iff zero_le_divide_iff)
  from of_int_add_away [OF r(2) this sb]
  have a: "away 17179869185 (of_int sec + r)" "of_int sec + r = 0 \<longleftrightarrow> sec = 0 \<and> r = 0" by simp_all
  obtain q where q: "f64_of (of_int sec + r) = Fin q" "q = 0 \<longleftrightarrow> of_int sec + r = 0"
    by (rule f64_of_away [OF a(1)]) simp_all
  have "Seconds d = Fin 0 \<longleftrightarrow> sec = 0 \<and> nsec = 0" using S q a(2) r(3) by simp
  also have "\<dots> \<longleftrightarrow> x = 0" using sg by (auto simp: signed_divide_int_def sec_def nsec_def signed_modulo_int_def)
  also have "\<dots> \<longleftrightarrow> d = 0" unfolding x_def by (metis signed_0 signed_word_eqI)
  finally show ?thesis .
qed

end
