(* ===== verification/Descheduler_Run.thy ===== *)
theory Descheduler_Run
  imports Informer_Laws Descheduler_Evictions Durations
begin

text \<open>
  The descheduler process (\<open>pkg/descheduler/descheduler.go\<close>): \<open>CreateClient\<close>, \<open>Run\<close> and the loop
  of \<open>RunDeschedulerStrategies\<close>.

  The state \<open>run_world\<close> is what the loop changes: the stop channel, the informers, and the trace
  of its calls. Everything the code calls outside the repository is a field of \<open>run_env\<close>: the
  clients, the policy file, the ready nodes of every iteration, the other eight strategies, the
  iteration order over the map of strategies, and \<open>wait.Until\<close>, of which the locale \<open>wait_loop\<close>
  states the documented behaviour. The node informer belongs to client-go: starting its factory is
  an entry of the trace, reading it is part of \<open>ReadyNodes\<close>. The code waits for the caches and
  ignores the answer.
\<close>

section \<open>Data\<close>

text \<open>A client of Kubernetes is known by the kubeconfig it was made from, a REST client by its configuration.\<close>

type_synonym kube_client = string
type_synonym versioned_client = "(rest_config, rest_config) Clientset"

record DeschedulerStrategy =
  Enabled :: bool
  Params :: string

record DeschedulerPolicy =
  Strategies :: "(string, DeschedulerStrategy) gomap"
  pol_NodeSelector :: "string option"
  pol_EvictLocalStoragePods :: "bool option"
  pol_MaxNoOfPodsToEvictPerNode :: "int option"

record DeschedulerServer =
  KubeconfigFile :: string
  PolicyConfigFile :: string
  DryRun :: bool
  rs_NodeSelector :: string
  MaxNoOfPodsToEvictPerNode :: int
  EvictLocalStoragePods :: bool
  DeschedulingInterval :: int64
  Client :: "kube_client option"
  TopologySchedulingClient :: "versioned_client option"

record PodEvictor =
  pe_client :: "kube_client option"
  pe_policyGroupVersion :: string
  pe_dryRun :: bool
  pe_maxPodsToEvict :: int
  pe_nodes :: "node list"
  pe_evictLocalStoragePods :: bool

datatype run_event =
    StartNodeInformers "kube_client option"
  | WaitedForCacheSync "(string, bool) gomap"
  | CallReadyNodes string
  | CallStrategy string DeschedulerStrategy "node list" PodEvictor

record run_world =
  stop_closed :: bool
  iterations :: nat
  run_events :: "run_event list"
  run_evictions :: "eviction list"
  policy_informers :: "(versioned_client option, unit) informer_world"

type_synonym strategy_fun =
  "DeschedulerStrategy \<Rightarrow> node list \<Rightarrow> PodEvictor \<Rightarrow> eviction list \<Rightarrow> eviction list \<times> go_panic option"

text \<open>The parameters; iterations are numbered from 0.\<close>

record run_env =
  client_CreateClient :: "string \<Rightarrow> go_error + kube_client"
  GetMasterFromKubeconfig :: "string \<Rightarrow> go_error + string"
  run_BuildConfigFromFlags :: "string \<Rightarrow> string \<Rightarrow> go_error + rest_config"
  InClusterConfig :: "go_error + rest_config"
  run_rest :: rest_env
  run_RESTClientFor :: "rest_config \<Rightarrow> go_error + rest_config"
  run_DiscoveryClientForConfig :: "rest_config \<Rightarrow> go_error + rest_config"
  LoadPolicyConfig :: "string \<Rightarrow> go_error + DeschedulerPolicy option"
  SupportEviction :: "kube_client option \<Rightarrow> go_error + string"
  ReadyNodes :: "nat \<Rightarrow> kube_client option \<Rightarrow> string \<Rightarrow> go_error + node list"
  range_funcs :: "nat \<Rightarrow> string list \<Rightarrow> string list"
  other_strategy :: "string \<Rightarrow> strategy_fun"
  strategy_env :: "nat \<Rightarrow> desched_env"
  run_GetIndexer :: "nat \<Rightarrow> nat \<Rightarrow> indexer"
  run_HasSynced :: "nat \<Rightarrow> bool"
  wait_Until :: "(run_world \<Rightarrow> run_world \<times> go_panic option) \<Rightarrow> int64 \<Rightarrow> run_world
     \<Rightarrow> (run_world \<times> go_panic option) option"

section \<open>The loop\<close>

text \<open>Closing a channel a second time panics.\<close>

definition close_stop :: "run_world \<Rightarrow> run_world \<times> go_panic option" where
  "close_stop w = (if stop_closed w then (w, Some CloseOfClosedChannel) else (w\<lparr>stop_closed := True\<rparr>, None))"

definition NewPodEvictor ::
    "kube_client option \<Rightarrow> string \<Rightarrow> bool \<Rightarrow> int \<Rightarrow> node list \<Rightarrow> bool \<Rightarrow> PodEvictor" where
  "NewPodEvictor client gv dryRun maxPods nodes local =
     \<lparr>pe_client = client, pe_policyGroupVersion = gv, pe_dryRun = dryRun, pe_maxPodsToEvict = maxPods,
      pe_nodes = nodes, pe_evictLocalStoragePods = local\<rparr>"

text \<open>The map of strategies; \<open>tspLister k\<close> is the store that the policy lister reads in iteration \<open>k\<close>.\<close>

definition strategyFuncs :: "run_env \<Rightarrow> (nat \<Rightarrow> indexer) \<Rightarrow> nat \<Rightarrow> (string, strategy_fun) gomap" where
  "strategyFuncs env tspLister k =
     [(''RemoveDuplicates'', other_strategy env ''RemoveDuplicatePods''),
      (''LowNodeUtilization'', other_strategy env ''LowNodeUtilization''),
      (''RemovePodsViolatingInterPodAntiAffinity'', other_strategy env ''RemovePodsViolatingInterPodAntiAffinity''),
      (''RemovePodsViolatingNodeAffinity'', other_strategy env ''RemovePodsViolatingNodeAffinity''),
      (''RemovePodsViolatingNodeTaints'', other_strategy env ''RemovePodsViolatingNodeTaints''),
      (''RemovePodsHavingTooManyRestarts'', other_strategy env ''RemovePodsHavingTooManyRestarts''),
      (''PodLifeTime'', other_strategy env ''PodLifeTime''),
      (''RemovePodsViolatingTopologySpreadConstraint'', other_strategy env ''RemovePodsViolatingTopologySpreadConstraint''),
      (''RemovePodsViolatingTopologySchedulingPolicy'',
         \<lambda>strategy nodes podEvictor.
           RemovePodsViolatingTopologySchedulingPolicy (strategy_env env k) nodes (Some (tspLister k)))]"

text \<open>A strategy that the policy does not name is the zero value, which is disabled.\<close>

definition strategy_of :: "DeschedulerPolicy \<Rightarrow> string \<Rightarrow> DeschedulerStrategy" where
  "strategy_of policy name =
     (case glookup (Strategies policy) name of Some s \<Rightarrow> s | None \<Rightarrow> \<lparr>Enabled = False, Params = ''''\<rparr>)"

fun run_strategies ::
    "(string, strategy_fun) gomap \<Rightarrow> DeschedulerPolicy \<Rightarrow> node list \<Rightarrow> PodEvictor \<Rightarrow> string list
       \<Rightarrow> run_world \<Rightarrow> run_world \<times> go_panic option" where
  "run_strategies funcs policy nodes podEvictor [] w = (w, None)"
| "run_strategies funcs policy nodes podEvictor (name # names) w =
     (case glookup funcs name of
        None \<Rightarrow> run_strategies funcs policy nodes podEvictor names w
      | Some f \<Rightarrow>
          (let strategy = strategy_of policy name in
           if Enabled strategy then
             (let (evs, r) = f strategy nodes podEvictor (run_evictions w);
                  w' = w\<lparr>run_evictions := evs,
                    run_events := run_events w @ [CallStrategy name strategy nodes podEvictor]\<rparr>
              in (case r of
                    None \<Rightarrow> run_strategies funcs policy nodes podEvictor names w'
                  | Some p \<Rightarrow> (w', Some p)))
           else run_strategies funcs policy nodes podEvictor names w))"

text \<open>The values of the server that the policy file may override.\<close>

definition nodeSelector :: "DeschedulerServer \<Rightarrow> DeschedulerPolicy \<Rightarrow> string" where
  "nodeSelector rs policy = (case pol_NodeSelector policy of Some s \<Rightarrow> s | None \<Rightarrow> rs_NodeSelector rs)"

definition evictLocalStoragePods :: "DeschedulerServer \<Rightarrow> DeschedulerPolicy \<Rightarrow> bool" where
  "evictLocalStoragePods rs policy =
     (case pol_EvictLocalStoragePods policy of Some b \<Rightarrow> b | None \<Rightarrow> EvictLocalStoragePods rs)"

definition maxNoOfPodsToEvictPerNode :: "DeschedulerServer \<Rightarrow> DeschedulerPolicy \<Rightarrow> int" where
  "maxNoOfPodsToEvictPerNode rs policy =
     (case pol_MaxNoOfPodsToEvictPerNode policy of Some m \<Rightarrow> m | None \<Rightarrow> MaxNoOfPodsToEvictPerNode rs)"

text \<open>The function passed to \<open>wait.Until\<close>.\<close>

definition deschedule ::
    "run_env \<Rightarrow> DeschedulerServer \<Rightarrow> DeschedulerPolicy \<Rightarrow> string \<Rightarrow> (nat \<Rightarrow> indexer)
       \<Rightarrow> run_world \<Rightarrow> run_world \<times> go_panic option" where
  "deschedule env rs policy gv tspLister w =
     (let k = iterations w;
          selector = nodeSelector rs policy;
          w1 = w\<lparr>iterations := Suc k, run_events := run_events w @ [CallReadyNodes selector]\<rparr>
      in (case ReadyNodes env k (Client rs) selector of
            Inl err \<Rightarrow> close_stop w1
          | Inr nodes \<Rightarrow>
              if length nodes \<le> 1 then close_stop w1
              else
                (let podEvictor = NewPodEvictor (Client rs) gv (DryRun rs)
                       (maxNoOfPodsToEvictPerNode rs policy) nodes (evictLocalStoragePods rs policy);
                     funcs = strategyFuncs env tspLister k
                 in (case run_strategies funcs policy nodes podEvictor (range_funcs env k (gkeys funcs)) w1 of
                       (w2, Some p) \<Rightarrow> (w2, Some p)
                     | (w2, None) \<Rightarrow>
                         if Seconds (DeschedulingInterval rs) = Fin 0 then close_stop w2 else (w2, None)))))"

datatype run_result = Returned "go_error option" | Panicked go_panic

text \<open>\<open>None\<close>: the call does not return.\<close>

definition RunDeschedulerStrategies ::
    "run_env \<Rightarrow> DeschedulerServer \<Rightarrow> DeschedulerPolicy \<Rightarrow> string \<Rightarrow> run_world \<Rightarrow> (run_world \<times> run_result) option" where
  "RunDeschedulerStrategies env rs policy gv w =
     (let f = NewSharedInformerFactory (TopologySchedulingClient rs) 0;
          tspInformer = policy_access f;
          (i, f1, w1) = Informer tspInformer f (policy_informers w);
          (tspLister, f2, w2) = Lister (run_GetIndexer env) tspInformer f1 w1;
          (f3, w3) = Start f2 w2;
          synced = WaitForCacheSync (run_HasSynced env) f3;
          w' = w\<lparr>policy_informers := w3,
            run_events := run_events w @ [StartNodeInformers (Client rs), WaitedForCacheSync synced]\<rparr>
      in (case wait_Until env (deschedule env rs policy gv tspLister) (DeschedulingInterval rs) w' of
            None \<Rightarrow> None
          | Some (w', None) \<Rightarrow> Some (w', Returned None)
          | Some (w', Some p) \<Rightarrow> Some (w', Panicked p)))"

section \<open>Starting\<close>

definition CreateClient :: "run_env \<Rightarrow> string \<Rightarrow> go_error + versioned_client" where
  "CreateClient env kubeconfig =
     (case (if length kubeconfig \<noteq> 0 then
              (case GetMasterFromKubeconfig env kubeconfig of
                 Inl err \<Rightarrow> Inl (Wrapf ''Failed to parse kubeconfig file: '' err)
               | Inr master \<Rightarrow>
                   (case run_BuildConfigFromFlags env master kubeconfig of
                      Inl err \<Rightarrow> Inl (Wrapf ''Unable to build config: '' err)
                    | Inr cfg \<Rightarrow> Inr cfg))
            else
              (case InClusterConfig env of
                 Inl err \<Rightarrow> Inl (Wrapf ''Unable to build in cluster config: '' err)
               | Inr cfg \<Rightarrow> Inr cfg)) of
        Inl err \<Rightarrow> Inl err
      | Inr cfg \<Rightarrow> NewForConfig (run_rest env) (run_RESTClientFor env) (run_DiscoveryClientForConfig env) cfg)"

definition Run :: "run_env \<Rightarrow> DeschedulerServer \<Rightarrow> run_world \<Rightarrow> (run_world \<times> run_result) option" where
  "Run env rs w =
     (case client_CreateClient env (KubeconfigFile rs) of
        Inl err \<Rightarrow> Some (w, Returned (Some err))
      | Inr rsclient \<Rightarrow>
     (let rs = rs\<lparr>Client := Some rsclient\<rparr> in
      (case CreateClient env (KubeconfigFile rs) of
        Inl err \<Rightarrow> Some (w, Returned (Some err))
      | Inr tspclient \<Rightarrow>
     (let rs = rs\<lparr>TopologySchedulingClient := Some tspclient\<rparr> in
      (case LoadPolicyConfig env (PolicyConfigFile rs) of
        Inl err \<Rightarrow> Some (w, Returned (Some err))
      | Inr None \<Rightarrow> Some (w, Returned (Some (Errorf ''deschedulerPolicy is nil'')))
      | Inr (Some deschedulerPolicy) \<Rightarrow>
     (case SupportEviction env (Client rs) of
        Inl err \<Rightarrow> Some (w, Returned (Some err))
      | Inr gv \<Rightarrow>
          if length gv = 0 then Some (w, Returned None)
          else RunDeschedulerStrategies env rs deschedulerPolicy gv (w\<lparr>stop_closed := False\<rparr>)))))))"

end
