(* ===== verification/Descheduler_Loop.thy ===== *)
theory Descheduler_Loop
  imports Descheduler_Run
begin

text \<open>
  The descheduler loop: the contract of \<open>wait.Until\<close> as a locale with a total-correctness rule,
  its interpretation on a loop function that satisfies it, and the facts about one iteration
  and about the whole run.
\<close>

section \<open>The contract of wait.Until\<close>

text \<open>
  \<open>wait.Until(f, period, stopCh)\<close> returns when the channel is closed and otherwise calls \<open>f\<close> and
  goes on; a panic of \<open>f\<close> passes through. \<open>None\<close> is a loop that never returns, so the laws do
  not say that it returns.
\<close>

locale wait_loop =
  fixes until :: "('w \<Rightarrow> 'w \<times> 'p option) \<Rightarrow> 't \<Rightarrow> 'w \<Rightarrow> ('w \<times> 'p option) option"
    and closed :: "'w \<Rightarrow> bool"
  assumes until_stop: "closed w \<Longrightarrow> until f t w = Some (w, None)"
    and until_go: "\<not> closed w \<Longrightarrow> f w = (w', None) \<Longrightarrow> until f t w = until f t w'"
    and until_panic: "\<not> closed w \<Longrightarrow> f w = (w', Some p) \<Longrightarrow> until f t w = Some (w', Some p)"
begin

text \<open>
  Total correctness: \<open>n\<close> iterations keep the invariant and the channel open, the next one
  establishes the result and closes the channel.
\<close>

lemma until_after:
  assumes "Inv 0 w"
    and "\<And>i w. i < n \<Longrightarrow> Inv i w \<Longrightarrow> \<not> closed w \<and> (\<exists>w'. f w = (w', None) \<and> Inv (Suc i) w')"
    and "\<And>w. Inv n w \<Longrightarrow> \<not> closed w \<and> (\<exists>w'. f w = (w', None) \<and> closed w' \<and> Post w')"
  shows "\<exists>w'. until f t w = Some (w', None) \<and> closed w' \<and> Post w'"
proof -
  have "\<exists>w'. until f t v = Some (w', None) \<and> closed w' \<and> Post w'" if "Inv (n - j) v" "j \<le> n" for j v
    using that
  proof (induction j arbitrary: v)
    case 0
    then obtain v' where v': "\<not> closed v" "f v = (v', None)" "closed v'" "Post v'"
      using assms(3) [of v] by auto
    then have "until f t v = Some (v', None)"
      using until_go [of v f v' t] until_stop [OF v'(3)] v'(1,2) by simp
    then show ?case using v' by blast
  next
    case (Suc j)
    then have lt: "n - Suc j < n" by simp
    obtain v' where v': "\<not> closed v" "f v = (v', None)" "Inv (Suc (n - Suc j)) v'"
      using assms(2) [OF lt Suc.prems(1)] by blast
    have "Suc (n - Suc j) = n - j" using Suc.prems(2) by simp
    then show ?case using Suc.IH [of v'] Suc.prems(2) v' until_go [of v f v' t] by simp
  qed
  from this [of n w] assms(1) show ?thesis by simp
qed

end

partial_function (option) go_Until ::
    "(run_world \<Rightarrow> run_world \<times> go_panic option) \<Rightarrow> int64 \<Rightarrow> run_world \<Rightarrow> (run_world \<times> go_panic option) option" where
  "go_Until f period w =
     (if stop_closed w then Some (w, None)
      else (case f w of
          (w', None) \<Rightarrow> go_Until f period w'
        | (w', Some p) \<Rightarrow> Some (w', Some p)))"

interpretation lp: wait_loop go_Until stop_closed
  by unfold_locales (simp_all add: go_Until.simps)

section \<open>Names of strategies\<close>

definition strategy_names :: "string list" where
  "strategy_names = [''RemoveDuplicates'', ''LowNodeUtilization'', ''RemovePodsViolatingInterPodAntiAffinity'',
     ''RemovePodsViolatingNodeAffinity'', ''RemovePodsViolatingNodeTaints'', ''RemovePodsHavingTooManyRestarts'',
     ''PodLifeTime'', ''RemovePodsViolatingTopologySpreadConstraint'', ''RemovePodsViolatingTopologySchedulingPolicy'']"

lemma gkeys_strategyFuncs [simp]: "gkeys (strategyFuncs env l k) = strategy_names"
  by (simp add: gkeys_def strategyFuncs_def strategy_names_def)

lemma distinct_strategy_names [simp]: "distinct strategy_names"
  by (simp add: strategy_names_def)

text \<open>A Go map is iterated in some order, each key once.\<close>

definition range_ok :: "run_env \<Rightarrow> bool" where
  "range_ok env \<longleftrightarrow> (\<forall>k xs. mset (range_funcs env k xs) = mset xs)"

lemma range_funcs_names:
  assumes "range_ok env"
  shows "distinct (range_funcs env k strategy_names)" "set (range_funcs env k strategy_names) = set strategy_names"
  using assms unfolding range_ok_def
  by (metis distinct_strategy_names mset_eq_imp_distinct_iff, metis mset_eq_setD)

section \<open>The strategies of one iteration\<close>

text \<open>No strategy panics: an assumption on the eight others, a fact for the repository's own.\<close>

definition quiet :: "(string, strategy_fun) gomap \<Rightarrow> node list \<Rightarrow> bool" where
  "quiet funcs nodes \<longleftrightarrow> (\<forall>name f st pe tr. glookup funcs name = Some f \<longrightarrow> snd (f st nodes pe tr) = None)"

lemma run_strategies_quiet:
  assumes "quiet funcs nodes" "set names \<subseteq> fst ` set funcs"
  shows "\<exists>w'. run_strategies funcs policy nodes pe names w = (w', None)
    \<and> run_events w' = run_events w
        @ map (\<lambda>n. CallStrategy n (strategy_of policy n) nodes pe) (filter (\<lambda>n. Enabled (strategy_of policy n)) names)
    \<and> iterations w' = iterations w \<and> stop_closed w' = stop_closed w \<and> policy_informers w' = policy_informers w"
  using assms(2)
proof (induction names arbitrary: w)
  case (Cons name names)
  have "name \<in> dom (glookup funcs)" using Cons.prems by (simp add: set_gkeys [symmetric] gkeys_def)
  then obtain f where f: "glookup funcs name = Some f" by blast
  have sub: "set names \<subseteq> fst ` set funcs" using Cons.prems by simp
  show ?case
  proof (cases "Enabled (strategy_of policy name)")
    case False
    then show ?thesis using Cons.IH [OF sub, of w] f by simp
  next
    case True
    obtain evs where evs: "f (strategy_of policy name) nodes pe (run_evictions w) = (evs, None)"
      using assms(1) f by (metis quiet_def prod.collapse)
    define w1 where "w1 = w\<lparr>run_evictions := evs,
        run_events := run_events w @ [CallStrategy name (strategy_of policy name) nodes pe]\<rparr>"
    have "run_strategies funcs policy nodes pe (name # names) w = run_strategies funcs policy nodes pe names w1"
      using True f evs by (simp add: w1_def)
    then show ?thesis using Cons.IH [OF sub, of w1] True by (simp add: w1_def)
  qed
qed simp

text \<open>What the environment has to guarantee for the whole run.\<close>

definition run_ok :: "run_env \<Rightarrow> (nat \<Rightarrow> indexer) \<Rightarrow> bool" where
  "run_ok env tspLister \<longleftrightarrow> range_ok env
     \<and> (\<forall>name st nodes pe tr. snd (other_strategy env name st nodes pe tr) = None)
     \<and> (\<forall>k. desched_ok (strategy_env env k)
         \<and> (\<exists>tsps. ns_List (TopologySchedulingPolicies (tspLister k) NamespaceAll) Everything = (tsps, None)
              \<and> (\<forall>tsp \<in> set tsps. \<forall>q \<in> set (DeployPlacement (Spec tsp)). 0 \<le> sint (Replicas q)))
         \<and> (\<forall>tr ns fmt items. list_pods (strategy_env env k) tr ns fmt = Inr items \<longrightarrow> int (length items) < 2 ^ 31))"

lemma quiet_strategyFuncs:
  assumes "run_ok env tspLister"
  shows "quiet (strategyFuncs env tspLister k) nodes"
proof -
  obtain tsps where t: "ns_List (TopologySchedulingPolicies (tspLister k) NamespaceAll) Everything = (tsps, None)"
    "\<forall>tsp \<in> set tsps. \<forall>q \<in> set (DeployPlacement (Spec tsp)). 0 \<le> sint (Replicas q)"
    using assms unfolding run_ok_def by blast
  have env: "desched_ok (strategy_env env k)"
    "\<forall>tr ns fmt items. list_pods (strategy_env env k) tr ns fmt = Inr items \<longrightarrow> int (length items) < 2 ^ 31"
    using assms unfolding run_ok_def by blast+
  have own: "snd (RemovePodsViolatingTopologySchedulingPolicy (strategy_env env k) nodes (Some (tspLister k)) tr) = None"
    for tr
    using strategy_calls [OF env(1) t env(2), of nodes tr] by auto
  have other: "snd (other_strategy env name st nodes pe tr) = None" for name st pe tr
    using assms unfolding run_ok_def by blast
  show ?thesis
    unfolding quiet_def
  proof (intro allI impI)
    fix name f st pe tr
    assume "glookup (strategyFuncs env tspLister k) name = Some f"
    then have "f \<in> snd ` set (strategyFuncs env tspLister k)" by (metis glookup_mem image_eqI snd_conv)
    then show "snd (f st nodes pe tr) = None"
      by (auto simp: strategyFuncs_def other own)
  qed
qed

section \<open>One iteration\<close>

text \<open>An iteration with at least two ready nodes evicts; any other one ends the run.\<close>

definition usable :: "run_env \<Rightarrow> DeschedulerServer \<Rightarrow> DeschedulerPolicy \<Rightarrow> nat \<Rightarrow> bool" where
  "usable env rs policy k =
     (case ReadyNodes env k (Client rs) (nodeSelector rs policy) of Inl err \<Rightarrow> False | Inr nodes \<Rightarrow> 1 < length nodes)"

lemma close_stop_open: "\<not> stop_closed w \<Longrightarrow> close_stop w = (w\<lparr>stop_closed := True\<rparr>, None)"
  by (simp add: close_stop_def)

lemma deschedule_unusable:
  assumes "\<not> usable env rs policy (iterations w)" "\<not> stop_closed w"
  shows "\<exists>w'. deschedule env rs policy gv l w = (w', None) \<and> stop_closed w' \<and> iterations w' = Suc (iterations w)
    \<and> run_evictions w' = run_evictions w \<and> policy_informers w' = policy_informers w"
  using assms by (auto simp: deschedule_def usable_def close_stop_def Let_def split: sum.splits)

text \<open>The evictor that an iteration uses: the values of the policy file win over the flags.\<close>

abbreviation run_evictor :: "DeschedulerServer \<Rightarrow> DeschedulerPolicy \<Rightarrow> string \<Rightarrow> node list \<Rightarrow> PodEvictor" where
  "run_evictor rs policy gv nodes \<equiv> NewPodEvictor (Client rs) gv (DryRun rs)
     (maxNoOfPodsToEvictPerNode rs policy) nodes (evictLocalStoragePods rs policy)"

lemma deschedule_usable:
  assumes "ReadyNodes env (iterations w) (Client rs) (nodeSelector rs policy) = Inr nodes" "1 < length nodes"
    and "run_ok env l" "\<not> stop_closed w"
  shows "\<exists>w' names. deschedule env rs policy gv l w = (w', None)
    \<and> distinct names \<and> set names = {n \<in> set strategy_names. Enabled (strategy_of policy n)}
    \<and> run_events w' = run_events w @ CallReadyNodes (nodeSelector rs policy)
        # map (\<lambda>n. CallStrategy n (strategy_of policy n) nodes (run_evictor rs policy gv nodes)) names
    \<and> iterations w' = Suc (iterations w) \<and> stop_closed w' = (DeschedulingInterval rs = 0)
    \<and> policy_informers w' = policy_informers w"
proof -
  define k funcs w1 where "k = iterations w" and "funcs = strategyFuncs env l k"
    and "w1 = w\<lparr>iterations := Suc k, run_events := run_events w @ [CallReadyNodes (nodeSelector rs policy)]\<rparr>"
  define all where "all = range_funcs env k strategy_names"
  have rg: "range_ok env" using assms(3) by (simp add: run_ok_def)
  have fs: "fst ` set funcs = set strategy_names"
    using gkeys_strategyFuncs [of env l k] by (metis gkeys_def funcs_def set_map)
  have sub: "set all \<subseteq> fst ` set funcs"
    using range_funcs_names(2) [OF rg, of k] by (simp add: fs all_def)
  obtain w2 where w2: "run_strategies funcs policy nodes (run_evictor rs policy gv nodes) all w1 = (w2, None)"
      "run_events w2 = run_events w1 @ map (\<lambda>n. CallStrategy n (strategy_of policy n) nodes (run_evictor rs policy gv nodes))
         (filter (\<lambda>n. Enabled (strategy_of policy n)) all)"
      "iterations w2 = iterations w1" "stop_closed w2 = stop_closed w1" "policy_informers w2 = policy_informers w1"
    using run_strategies_quiet [OF _ sub, where nodes = nodes] quiet_strategyFuncs [OF assms(3)]
    unfolding funcs_def by metis
  have run: "deschedule env rs policy gv l w
      = (if DeschedulingInterval rs = 0 then close_stop w2 else (w2, None))"
    using assms(1,2) w2(1)
    by (simp add: deschedule_def Let_def Seconds_eq_0 k_def [symmetric] funcs_def [symmetric] w1_def [symmetric]
        all_def [symmetric] gkeys_strategyFuncs [of env l k, folded funcs_def])
  have open_w2: "\<not> stop_closed w2" using w2(4) assms(4) by (simp add: w1_def)
  have names: "distinct (filter (\<lambda>n. Enabled (strategy_of policy n)) all)"
      "set (filter (\<lambda>n. Enabled (strategy_of policy n)) all) = {n \<in> set strategy_names. Enabled (strategy_of policy n)}"
    using range_funcs_names [OF rg, of k] by (auto simp: all_def)
  show ?thesis
    unfolding run close_stop_open [OF open_w2]
    using names w2(2,3,5) open_w2
    by (intro exI [of _ "if DeschedulingInterval rs = 0 then w2\<lparr>stop_closed := True\<rparr> else w2"]
        exI [of _ "filter (\<lambda>n. Enabled (strategy_of policy n)) all"]) (simp add: w1_def k_def)
qed

section \<open>The whole run\<close>

text \<open>
  \<open>n\<close> usable iterations, then one that ends the run: because there is no interval, or because
  the nodes are not usable any more.
\<close>

lemma wait_Until_returns:
  assumes "wait_loop (wait_Until env) stop_closed" "run_ok env l" "\<not> stop_closed w"
    and "\<forall>j<n. usable env rs policy (iterations w + j)"
    and "n = 0 \<or> DeschedulingInterval rs \<noteq> 0"
    and "DeschedulingInterval rs = 0 \<or> \<not> usable env rs policy (iterations w + n)"
  shows "\<exists>w'. wait_Until env (deschedule env rs policy gv l) t w = Some (w', None) \<and> stop_closed w'
    \<and> iterations w' = iterations w + Suc n \<and> policy_informers w' = policy_informers w"
proof (rule wait_loop.until_after [OF assms(1),
      where Inv = "\<lambda>i v. \<not> stop_closed v \<and> iterations v = iterations w + i \<and> policy_informers v = policy_informers w"
        and n = n])
  fix i and v :: run_world
  assume i: "i < n" and inv: "\<not> stop_closed v \<and> iterations v = iterations w + i \<and> policy_informers v = policy_informers w"
  then have "usable env rs policy (iterations v)" using assms(4) by simp
  then obtain nodes where "ReadyNodes env (iterations v) (Client rs) (nodeSelector rs policy) = Inr nodes" "1 < length nodes"
    by (auto simp: usable_def split: sum.splits)
  from deschedule_usable [OF this assms(2), of gv] inv i assms(5)
  show "\<not> stop_closed v \<and> (\<exists>w'. deschedule env rs policy gv l v = (w', None)
      \<and> \<not> stop_closed w' \<and> iterations w' = iterations w + Suc i \<and> policy_informers w' = policy_informers w)"
    by fastforce
next
  fix v :: run_world
  assume inv: "\<not> stop_closed v \<and> iterations v = iterations w + n \<and> policy_informers v = policy_informers w"
  have "\<exists>w'. deschedule env rs policy gv l v = (w', None) \<and> stop_closed w'
      \<and> iterations w' = Suc (iterations v) \<and> policy_informers w' = policy_informers v"
  proof (cases "usable env rs policy (iterations v)")
    case True
    then obtain nodes where "ReadyNodes env (iterations v) (Client rs) (nodeSelector rs policy) = Inr nodes" "1 < length nodes"
      by (auto simp: usable_def split: sum.splits)
    from deschedule_usable [OF this assms(2), of gv] True assms(6) inv show ?thesis by fastforce
  next
    case False
    from deschedule_unusable [OF this, of gv l] inv show ?thesis by blast
  qed
  then show "\<not> stop_closed v \<and> (\<exists>w'. deschedule env rs policy gv l v = (w', None) \<and> stop_closed w'
      \<and> iterations w' = iterations w + Suc n \<and> policy_informers w' = policy_informers w)"
    using inv by auto
qed (use assms(3) in simp)

text \<open>The server with its clients, as \<open>Run\<close> hands it to the loop.\<close>

definition with_clients :: "DeschedulerServer \<Rightarrow> kube_client \<Rightarrow> versioned_client \<Rightarrow> DeschedulerServer" where
  "with_clients rs kc tc = rs\<lparr>Client := Some kc, TopologySchedulingClient := Some tc\<rparr>"

text \<open>\<open>Run\<close> gets as far as the loop.\<close>

definition run_starts ::
    "run_env \<Rightarrow> DeschedulerServer \<Rightarrow> kube_client \<Rightarrow> versioned_client \<Rightarrow> DeschedulerPolicy \<Rightarrow> string \<Rightarrow> bool" where
  "run_starts env rs kc tc policy gv \<longleftrightarrow>
     client_CreateClient env (KubeconfigFile rs) = Inr kc \<and> CreateClient env (KubeconfigFile rs) = Inr tc
     \<and> LoadPolicyConfig env (PolicyConfigFile rs) = Inr (Some policy)
     \<and> SupportEviction env (Some kc) = Inr gv \<and> gv \<noteq> ''''"

lemma Run_starts:
  assumes "run_starts env rs kc tc policy gv"
  shows "Run env rs w = RunDeschedulerStrategies env (with_clients rs kc tc) policy gv (w\<lparr>stop_closed := False\<rparr>)"
  using assms by (simp add: Run_def run_starts_def with_clients_def Let_def)

text \<open>The loop starts with one running policy informer, whose store the lister reads.\<close>

lemma RunDeschedulerStrategies_unfold:
  fixes w :: run_world
  defines "pinf \<equiv> policy_informers w"
  obtains w0 where "policy_informers w0
        = \<lparr>made = made pinf @ [new_informer (TopologySchedulingClient rs)], runs = runs pinf @ [length (made pinf)]\<rparr>"
    "stop_closed w0 = stop_closed w" "iterations w0 = iterations w" "run_evictions w0 = run_evictions w"
    "RunDeschedulerStrategies env rs policy gv w =
      (case wait_Until env (deschedule env rs policy gv (run_GetIndexer env (length (made pinf)))) (DeschedulingInterval rs) w0 of
         None \<Rightarrow> None
       | Some (w', None) \<Rightarrow> Some (w', Returned None)
       | Some (w', Some p) \<Rightarrow> Some (w', Panicked p))"
proof -
  define f :: "(versioned_client option, unit) sharedInformerFactory"
    where "f = NewSharedInformerFactory (TopologySchedulingClient rs) 0"
  obtain i f1 w1 where 1: "Informer (policy_access f) f pinf = (i, f1, w1)" by (cases "Informer (policy_access f) f pinf")
  note fi = fresh_Informer [OF f_def 1]
  obtain f2 w2 where 2: "Start f1 w1 = (f2, w2)" by (cases "Start f1 w1")
  let ?w = "w\<lparr>policy_informers := w2, run_events := run_events w
      @ [StartNodeInformers (Client rs), WaitedForCacheSync (WaitForCacheSync (run_HasSynced env) f2)]\<rparr>"
  show ?thesis
  proof (rule that [of ?w])
    show "policy_informers ?w
        = \<lparr>made = made pinf @ [new_informer (TopologySchedulingClient rs)], runs = runs pinf @ [length (made pinf)]\<rparr>"
      using one_Start [OF fi(2,3) 2] fi(1,4,5) by (cases w2) simp
    show "RunDeschedulerStrategies env rs policy gv w =
      (case wait_Until env (deschedule env rs policy gv (run_GetIndexer env (length (made pinf)))) (DeschedulingInterval rs)
          ?w of
         None \<Rightarrow> None
       | Some (w', None) \<Rightarrow> Some (w', Returned None)
       | Some (w', Some p) \<Rightarrow> Some (w', Panicked p))"
      using 1 2 fi(1) Informer_again [OF fi(2), of "policy_access f" w1]
      by (simp del: policy_access_eq add: RunDeschedulerStrategies_def f_def [symmetric] pinf_def [symmetric]
          Lister_def NewTopologySchedulingPolicyLister_def)
  qed simp_all
qed

end
