(* ===== verification/Descheduler_Settles.thy ===== *)
theory Descheduler_Settles
  imports Descheduler_Loop
begin

text \<open>
  The evictions of a whole run of the descheduler process in which the repository's strategy is
  the only one enabled, on a cluster that nobody else changes: the first iteration makes the calls
  that \<open>policy_calls\<close> lists, and the iterations after it make none.
\<close>

abbreviation topology_strategy :: string where
  "topology_strategy \<equiv> ''RemovePodsViolatingTopologySchedulingPolicy''"

definition only_topology :: "DeschedulerPolicy \<Rightarrow> bool" where
  "only_topology policy \<longleftrightarrow>
     (\<forall>n \<in> set strategy_names. Enabled (strategy_of policy n) \<longleftrightarrow> n = topology_strategy)"

section \<open>One enabled strategy\<close>

lemma run_strategies_disabled:
  "\<forall>n \<in> set xs. \<not> Enabled (strategy_of policy n) \<Longrightarrow>
     run_strategies funcs policy nodes pe (xs @ ys) w = run_strategies funcs policy nodes pe ys w"
  by (induction xs) (simp_all split: option.split)

lemma run_strategies_one:
  assumes "distinct names" "name \<in> set names" "glookup funcs name = Some f"
    and "\<forall>n \<in> set names. Enabled (strategy_of policy n) \<longleftrightarrow> n = name"
    and "f (strategy_of policy name) nodes pe (run_evictions w) = (evs, None)"
  shows "run_strategies funcs policy nodes pe names w =
    (w\<lparr>run_evictions := evs,
       run_events := run_events w @ [CallStrategy name (strategy_of policy name) nodes pe]\<rparr>, None)"
proof -
  obtain xs ys where names: "names = xs @ name # ys" using assms(2) by (meson split_list)
  have off: "\<forall>n \<in> set xs. \<not> Enabled (strategy_of policy n)" "\<forall>n \<in> set ys. \<not> Enabled (strategy_of policy n)"
    using assms(1,4) by (auto simp: names)
  have on: "Enabled (strategy_of policy name)" using assms(2,4) by blast
  show ?thesis
    using run_strategies_disabled [OF off(2), of funcs nodes pe "[]"]
    by (simp add: names run_strategies_disabled [OF off(1)] assms(3,5) on)
qed

text \<open>One iteration, for any result of the strategy.\<close>

lemma deschedule_topology:
  assumes "range_ok env" "only_topology policy" "\<not> stop_closed w"
    and "ReadyNodes env (iterations w) (Client rs) (nodeSelector rs policy) = Inr nodes" "1 < length nodes"
    and "RemovePodsViolatingTopologySchedulingPolicy (strategy_env env (iterations w)) nodes
      (Some (l (iterations w))) (run_evictions w) = (evs, None)"
  shows "\<exists>w'. deschedule env rs policy gv l w = (w', None) \<and> run_evictions w' = evs
    \<and> iterations w' = Suc (iterations w) \<and> stop_closed w' = (DeschedulingInterval rs = 0)"
proof -
  define k where "k = iterations w"
  define funcs where "funcs = strategyFuncs env l k"
  define pe where "pe = run_evictor rs policy gv nodes"
  define w1 where "w1 = w\<lparr>iterations := Suc k, run_events := run_events w @ [CallReadyNodes (nodeSelector rs policy)]\<rparr>"
  note rg = range_funcs_names [OF assms(1), of k]
  have top: "topology_strategy \<in> set (range_funcs env k strategy_names)"
    using rg(2) by (simp add: strategy_names_def)
  have on: "\<forall>n \<in> set (range_funcs env k strategy_names). Enabled (strategy_of policy n) \<longleftrightarrow> n = topology_strategy"
    using assms(2) rg(2) by (simp add: only_topology_def)
  obtain f where f: "glookup funcs topology_strategy = Some f"
    "\<And>st pe tr. f st nodes pe tr =
       RemovePodsViolatingTopologySchedulingPolicy (strategy_env env k) nodes (Some (l k)) tr"
    by (simp add: funcs_def strategyFuncs_def glookup_def)
  have "f (strategy_of policy topology_strategy) nodes pe (run_evictions w1) = (evs, None)"
    using assms(6) by (simp add: f(2) w1_def k_def)
  note run = run_strategies_one [OF rg(1) top f(1) on this]
  have "deschedule env rs policy gv l w = (case run_strategies funcs policy nodes pe (range_funcs env k strategy_names) w1 of
      (w2, Some p) \<Rightarrow> (w2, Some p)
    | (w2, None) \<Rightarrow> if DeschedulingInterval rs = 0 then close_stop w2 else (w2, None))"
    using assms(4,5) unfolding deschedule_def Let_def k_def [symmetric] funcs_def [symmetric] w1_def [symmetric]
      pe_def [symmetric] Seconds_eq_0
    unfolding funcs_def by (simp add: pe_def)
  then show ?thesis
    unfolding run using assms(3) by (simp add: close_stop_def w1_def k_def)
qed

section \<open>A cluster that nobody else changes\<close>

text \<open>
  In all iterations the API server lists the pods \<open>base\<close> without those evicted so far, and the
  policies are \<open>tsps\<close>. The orders of iteration and the sorting may differ.
\<close>

definition steady ::
    "run_env \<Rightarrow> (nat \<Rightarrow> indexer) \<Rightarrow> (string \<Rightarrow> string \<Rightarrow> pod list) \<Rightarrow> TopologySchedulingPolicy list \<Rightarrow> bool" where
  "steady env l base tsps \<longleftrightarrow>
     (\<forall>k. desched_ok (strategy_env env k) \<and> api_lists (strategy_env env k) base
        \<and> FormatLabelSelector (strategy_env env k) = FormatLabelSelector (strategy_env env 0)
        \<and> ns_List (TopologySchedulingPolicies (l k) NamespaceAll) Everything = (tsps, None)
        \<and> (\<forall>tsp \<in> set tsps. policy_ok (strategy_env env k) tsp))
     \<and> (\<forall>tsp \<in> set tsps. int (length (items_of (strategy_env env 0) base tsp)) < 2 ^ 31
        \<and> distinct (items_of (strategy_env env 0) base tsp))
     \<and> sorted_wrt (\<lambda>a b. set (items_of (strategy_env env 0) base a) \<inter> set (items_of (strategy_env env 0) base b) = {}) tsps"

lemma steady_iteration:
  assumes "steady env l base tsps"
  shows "desched_ok (strategy_env env k)" "api_lists (strategy_env env k) base"
    "ns_List (TopologySchedulingPolicies (l k) NamespaceAll) Everything = (tsps, None)"
    "tsp \<in> set tsps \<Longrightarrow> policy_ok (strategy_env env k) tsp"
    "items_of (strategy_env env k) base tsp = items_of (strategy_env env 0) base tsp"
  using assms unfolding steady_def items_of_def by (blast, blast, blast, blast, metis)

lemma steady_policies:
  assumes "steady env l base tsps"
  shows "tsp \<in> set tsps \<Longrightarrow> int (length (items_of (strategy_env env k) base tsp)) < 2 ^ 31"
    "tsp \<in> set tsps \<Longrightarrow> distinct (items_of (strategy_env env k) base tsp)"
    "sorted_wrt (\<lambda>a b. set (items_of (strategy_env env k) base a) \<inter> set (items_of (strategy_env env k) base b) = {}) tsps"
proof -
  note fixed = steady_iteration(5) [where k = k, OF assms]
  note steady = assms [unfolded steady_def, THEN conjunct2]
  show "tsp \<in> set tsps \<Longrightarrow> int (length (items_of (strategy_env env k) base tsp)) < 2 ^ 31"
    "tsp \<in> set tsps \<Longrightarrow> distinct (items_of (strategy_env env k) base tsp)"
    using bspec [OF conjunct1 [OF steady], of tsp] unfolding fixed by simp_all
  show "sorted_wrt (\<lambda>a b. set (items_of (strategy_env env k) base a) \<inter> set (items_of (strategy_env env k) base b) = {}) tsps"
    unfolding fixed by (rule conjunct2 [OF steady])
qed

lemma steady_first:
  assumes "steady env l base tsps"
  shows "RemovePodsViolatingTopologySchedulingPolicy (strategy_env env k) nodes (Some (l k)) []
    = (all_calls (strategy_env env k) nodes base tsps, None)"
  using strategy_all_calls steady_iteration [where k = k, OF assms] steady_policies [where k = k, OF assms] by blast

lemma steady_again:
  assumes "steady env l base tsps" and ev_def: "ev = all_calls (strategy_env env i) nodes base tsps"
  shows "RemovePodsViolatingTopologySchedulingPolicy (strategy_env env k) nodes (Some (l k)) ev = (ev, None)"
proof -
  let ?nm = "build_nodeMap nodes" and ?items = "items_of (strategy_env env i) base"
  note it = steady_iteration [OF assms(1)] and pols = steady_policies [where k = i, OF assms(1)]
  have one: "process_policy (strategy_env env k) ?nm tsp ev = (ev, None)" if t: "tsp \<in> set tsps" for tsp
  proof -
    let ?left = "filter (\<lambda>p. p \<notin> ev_pod ` set ev) (?items tsp)"
    have want: "\<forall>v. 0 \<le> want (CovertPolicy (DeployPlacement (Spec tsp))) v"
      using it(4) [OF t] by (intro want_nonneg) (simp add: policy_ok_def)
    have "?left = filter (\<lambda>p. p \<notin> ev_pod ` set (policy_calls (strategy_env env i) ?nm tsp (?items tsp))) (?items tsp)"
      using all_calls_of_policy [OF it(1) t _ pols(3), of _ nodes] unfolding ev_def by (intro filter_cong refl) blast
    then have none: "policy_calls (strategy_env env k) ?nm tsp ?left = []"
      using policy_calls_settle [OF it(1) it(1) want pols(2) [OF t], of k ?nm i] by simp
    have "?items tsp = items_of (strategy_env env k) base tsp"
      using it(5) [where k = i and tsp = tsp] it(5) [where k = k and tsp = tsp] by simp
    then have "desched_inputs (strategy_env env k) tsp ev ?left"
      using it(2) [of k] it(4) [where k = k, OF t] by (simp add: desched_inputs_def policy_ok_def api_lists_def items_of_def)
    moreover have "int (length ?left) < 2 ^ 31"
      using pols(1) [OF t] length_filter_le [of "\<lambda>p. p \<notin> ev_pod ` set ev" "?items tsp"] by linarith
    ultimately show ?thesis using process_policy_calls [OF it(1) _ want] none by simp
  qed
  have "process_policies (strategy_env env k) ?nm ts ev = (ev, None)" if "set ts \<subseteq> set tsps" for ts
    using that one by (induction ts) simp_all
  then show ?thesis using it(3) [of k] by (simp add: RemovePodsViolatingTopologySchedulingPolicy_def)
qed

section \<open>The whole run\<close>

text \<open>
  \<open>n\<close> iterations on the same nodes, after which the process ends: at once when it has no
  interval, otherwise when the nodes are not usable any more.
\<close>

lemma until_settles:
  assumes "wait_loop (wait_Until env) stop_closed" "range_ok env" "only_topology policy" "steady env l base tsps"
    and "\<forall>j<n. ReadyNodes env (iterations w + j) (Client rs) (nodeSelector rs policy) = Inr nodes"
    and "1 < length nodes" "0 < n" "\<not> stop_closed w" "run_evictions w = []"
    and "DeschedulingInterval rs = 0 \<or> \<not> usable env rs policy (iterations w + n)"
  shows "\<exists>w'. wait_Until env (deschedule env rs policy gv l) t w = Some (w', None) \<and> stop_closed w'
    \<and> run_evictions w' = all_calls (strategy_env env (iterations w)) nodes base tsps"
proof -
  let ?ev = "all_calls (strategy_env env (iterations w)) nodes base tsps"
  let ?Inv = "\<lambda>i v. \<not> stop_closed v \<and> iterations v = iterations w + i \<and> run_evictions v = (if i = 0 then [] else ?ev)"
  have it: "\<exists>w'. deschedule env rs policy gv l v = (w', None) \<and> run_evictions w' = ?ev
      \<and> iterations w' = iterations w + Suc i \<and> stop_closed w' = (DeschedulingInterval rs = 0)"
    if "i < n" "?Inv i v" for i and v :: run_world
  proof -
    have "RemovePodsViolatingTopologySchedulingPolicy (strategy_env env (iterations v)) nodes
        (Some (l (iterations v))) (run_evictions v) = (?ev, None)"
      using that steady_first [OF assms(4)] steady_again [OF assms(4) refl] by simp
    from deschedule_topology [where l = l, OF assms(2,3) _ _ assms(6) this, of rs gv] that assms(5)
    show ?thesis by simp
  qed
  show ?thesis
  proof (cases "DeschedulingInterval rs = 0")
    case True
    have "\<exists>w'. wait_Until env (deschedule env rs policy gv l) t w = Some (w', None) \<and> stop_closed w'
        \<and> run_evictions w' = ?ev"
    proof (rule wait_loop.until_after [OF assms(1), where Inv = ?Inv and n = 0])
      fix v :: run_world
      assume "?Inv 0 v"
      with it [OF assms(7) this] True show "\<not> stop_closed v \<and> (\<exists>w'. deschedule env rs policy gv l v = (w', None)
          \<and> stop_closed w' \<and> run_evictions w' = ?ev)" by auto
    qed (use assms(8,9) in simp_all)
    then show ?thesis .
  next
    case False
    have "\<exists>w'. wait_Until env (deschedule env rs policy gv l) t w = Some (w', None) \<and> stop_closed w'
        \<and> run_evictions w' = ?ev"
    proof (rule wait_loop.until_after [OF assms(1), where Inv = ?Inv and n = n])
      fix i and v :: run_world
      assume "i < n" "?Inv i v"
      with it [OF this] False show "\<not> stop_closed v \<and> (\<exists>w'. deschedule env rs policy gv l v = (w', None) \<and> ?Inv (Suc i) w')"
        by fastforce
    next
      fix v :: run_world
      assume v: "?Inv n v"
      then have "\<not> usable env rs policy (iterations v)" using assms(10) False by simp
      from deschedule_unusable [OF this, of gv l] v assms(7)
      show "\<not> stop_closed v \<and> (\<exists>w'. deschedule env rs policy gv l v = (w', None)
          \<and> stop_closed w' \<and> run_evictions w' = ?ev)" by auto
    qed (use assms(8,9) in simp_all)
    then show ?thesis .
  qed
qed

text \<open>What the properties assume of a process that works alone on a cluster.\<close>

definition settles_on ::
    "run_env \<Rightarrow> DeschedulerServer \<Rightarrow> run_world \<Rightarrow> nat \<Rightarrow> node list \<Rightarrow> (string \<Rightarrow> string \<Rightarrow> pod list)
       \<Rightarrow> TopologySchedulingPolicy list \<Rightarrow> bool" where
  "settles_on env rs w n nodes base tsps \<longleftrightarrow>
     (\<exists>kc tc policy gv. run_starts env rs kc tc policy gv \<and> only_topology policy
        \<and> (\<forall>j<n. ReadyNodes env (iterations w + j) (Some kc) (nodeSelector rs policy) = Inr nodes)
        \<and> (DeschedulingInterval rs = 0 \<or> \<not> usable env (with_clients rs kc tc) policy (iterations w + n)))
     \<and> wait_loop (wait_Until env) stop_closed \<and> range_ok env
     \<and> steady env (run_GetIndexer env (length (made (policy_informers w)))) base tsps
     \<and> 0 < n \<and> 1 < length nodes \<and> run_evictions w = []"

lemma settles_onI:
  assumes "run_starts env rs kc tc policy gv" "only_topology policy"
    and "\<And>j. j < n \<Longrightarrow> ReadyNodes env (iterations w + j) (Some kc) (nodeSelector rs policy) = Inr nodes"
    and "DeschedulingInterval rs = 0 \<or> \<not> usable env (with_clients rs kc tc) policy (iterations w + n)"
    and "wait_loop (wait_Until env) stop_closed" "range_ok env"
    and "steady env (run_GetIndexer env (length (made (policy_informers w)))) base tsps"
    and "0 < n" "1 < length nodes" "run_evictions w = []"
  shows "settles_on env rs w n nodes base tsps"
  using assms unfolding settles_on_def by blast

lemma Run_settles:
  assumes "settles_on env rs w n nodes base tsps"
  shows "\<exists>w'. Run env rs w = Some (w', Returned None) \<and> stop_closed w'
    \<and> run_evictions w' = all_calls (strategy_env env (iterations w)) nodes base tsps"
proof -
  obtain kc tc policy gv where r: "run_starts env rs kc tc policy gv" "only_topology policy"
    "\<forall>j<n. ReadyNodes env (iterations w + j) (Some kc) (nodeSelector rs policy) = Inr nodes"
    "DeschedulingInterval rs = 0 \<or> \<not> usable env (with_clients rs kc tc) policy (iterations w + n)"
    using assms unfolding settles_on_def by blast
  have e: "wait_loop (wait_Until env) stop_closed" "range_ok env"
    "steady env (run_GetIndexer env (length (made (policy_informers w)))) base tsps"
    "0 < n" "1 < length nodes" "run_evictions w = []"
    using assms unfolding settles_on_def by blast+
  let ?rs = "with_clients rs kc tc" and ?l = "run_GetIndexer env (length (made (policy_informers w)))"
  have rs: "DeschedulingInterval ?rs = DeschedulingInterval rs" "Client ?rs = Some kc"
    "nodeSelector ?rs policy = nodeSelector rs policy"
    by (simp_all add: with_clients_def nodeSelector_def split: option.split)
  define w1 where "w1 = w\<lparr>stop_closed := False\<rparr>"
  have w1: "stop_closed w1 = False" "iterations w1 = iterations w" "policy_informers w1 = policy_informers w"
    "run_evictions w1 = []"
    using e(6) by (simp_all add: w1_def)
  obtain w0 where w0: "stop_closed w0 = stop_closed w1" "iterations w0 = iterations w1" "run_evictions w0 = run_evictions w1"
      "RunDeschedulerStrategies env ?rs policy gv w1 =
      (case wait_Until env (deschedule env ?rs policy gv (run_GetIndexer env (length (made (policy_informers w1)))))
           (DeschedulingInterval ?rs) w0 of
         None \<Rightarrow> None
       | Some (w', None) \<Rightarrow> Some (w', Returned None)
       | Some (w', Some p) \<Rightarrow> Some (w', Panicked p))"
    by (rule RunDeschedulerStrategies_unfold)
  obtain w' where "wait_Until env (deschedule env ?rs policy gv ?l) (DeschedulingInterval ?rs) w0 = Some (w', None)"
      "stop_closed w'" "run_evictions w' = all_calls (strategy_env env (iterations w0)) nodes base tsps"
    using until_settles [OF e(1,2) r(2) e(3) _ e(5,4), of w0 ?rs gv "DeschedulingInterval ?rs"] r(3,4) w0(1,2,3) w1 rs
    by auto
  then show ?thesis
    using Run_starts [OF r(1), of w] w0(2,4) w1(2,3) by (simp add: w1_def [symmetric])
qed

end
