(* ===== verification/Descheduler_Properties.thy ===== *)
theory Descheduler_Properties
  imports Descheduler_Evictions Samples
begin

text \<open>The properties of the descheduler strategy, with witnesses on a small cluster.\<close>

section \<open>A small cluster\<close>

definition skewed_tsp :: TopologySchedulingPolicy where
  "skewed_tsp = sample_tsp\<lparr>Spec := (Spec sample_tsp)\<lparr>
     DeployPlacement := [\<lparr>Name = ''a'', Replicas = 1\<rparr>, \<lparr>Name = ''b'', Replicas = 3\<rparr>]\<rparr>\<rparr>"

definition pod_on :: "string \<Rightarrow> string \<Rightarrow> PodPhase \<Rightarrow> pod" where
  "pod_on name nd ph = (sample_pod name)\<lparr>NodeName := nd, Phase := ph\<rparr>"

definition cluster_nodes :: "node list" where
  "cluster_nodes = [sample_node ''n1'' ''a'', sample_node ''n2'' ''b'']"

definition cluster_pods :: "pod list" where
  "cluster_pods = [pod_on ''p1'' ''n1'' PodRunning, pod_on ''p2'' ''n2'' PodRunning,
     pod_on ''p3'' ''n1'' PodFailed]"

text \<open>An API server from whose lists the evicted pods disappear.\<close>

definition small_env :: "pod list \<Rightarrow> desched_env" where
  "small_env items = \<lparr>list_pods = (\<lambda>tr ns fmt. Inr (filter (\<lambda>p. p \<notin> ev_pod ` set tr) items)),
     FormatLabelSelector = (\<lambda>_. ''app=web''),
     ds_LabelSelectorAsSelector = sample_selector,
     range_check = rev, range_pairs = (\<lambda>m. m), sort_Sort = go_sort_small\<rparr>"

lemma small_env_ok [simp]: "desched_ok (small_env items)"
  using bc.go_sorter_axioms by (simp add: desched_ok_def small_env_def gsame_def gmap_ok_def flip: rev_map)

lemma small_env_inputs:
  "desched_inputs (small_env items) skewed_tsp tr (filter (\<lambda>p. p \<notin> ev_pod ` set tr) items)"
  by (simp add: desched_inputs_def small_env_def skewed_tsp_def sample_tsp_def sample_selector_def)

abbreviation skewed_policy :: "(string, int32) gomap" where
  "skewed_policy \<equiv> CovertPolicy (DeployPlacement (Spec skewed_tsp))"

lemma skewed_nonneg: "\<forall>q \<in> set (DeployPlacement (Spec skewed_tsp)). 0 \<le> sint (Replicas q)"
  by (simp add: skewed_tsp_def)

lemma skewed_key [simp]: "TopologyKey (Spec skewed_tsp) = ''zone''"
  by (simp add: skewed_tsp_def)

lemma cluster_zones:
  "zone_pods ''zone'' (build_nodeMap cluster_nodes) cluster_pods ''a'' =
     [pod_on ''p1'' ''n1'' PodRunning, pod_on ''p3'' ''n1'' PodFailed]"
  "zone_pods ''zone'' (build_nodeMap cluster_nodes) cluster_pods ''b'' = [pod_on ''p2'' ''n2'' PodRunning]"
  "want skewed_policy ''a'' = 1" "want skewed_policy ''b'' = 3"
  by code_simp+

lemma cluster_short: "short_of skewed_policy ''zone'' (build_nodeMap cluster_nodes) cluster_pods"
  unfolding short_of_def by (intro exI [of _ "''b''"]) (simp add: cluster_zones)

definition level_tsp :: TopologySchedulingPolicy where
  "level_tsp = sample_tsp\<lparr>Spec := (Spec sample_tsp)\<lparr>
     DeployPlacement := [\<lparr>Name = ''a'', Replicas = 1\<rparr>, \<lparr>Name = ''b'', Replicas = 1\<rparr>]\<rparr>\<rparr>"

definition drained_tsp :: TopologySchedulingPolicy where
  "drained_tsp = sample_tsp\<lparr>Spec := (Spec sample_tsp)\<lparr>
     DeployPlacement := [\<lparr>Name = ''b'', Replicas = 3\<rparr>]\<rparr>\<rparr>"

definition negative_tsp :: TopologySchedulingPolicy where
  "negative_tsp = sample_tsp\<lparr>Spec := (Spec sample_tsp)\<lparr>
     DeployPlacement := [\<lparr>Name = ''a'', Replicas = - 1\<rparr>, \<lparr>Name = ''b'', Replicas = 3\<rparr>]\<rparr>\<rparr>"

definition crowded_pods :: "pod list" where
  "crowded_pods = [pod_on ''p1'' ''n1'' PodRunning, pod_on ''p3'' ''n1'' PodFailed]"

definition skewed_idx :: indexer where
  "skewed_idx = sample_idx\<lparr>ListAllByNamespace := (\<lambda>ns sel. ([skewed_tsp], None))\<rparr>"

lemma cluster_inputs: "desched_inputs (small_env cluster_pods) skewed_tsp [] cluster_pods"
  using small_env_inputs [of cluster_pods "[]"] by simp

lemma drained_inputs: "desched_inputs (small_env cluster_pods) drained_tsp [] cluster_pods"
  by (simp add: desched_inputs_def small_env_def drained_tsp_def sample_tsp_def sample_selector_def)

section \<open>One policy\<close>

text \<open>
  C8. The evictions of a policy. When no replica count is negative the loop over the
  policy's pods does not panic, and it makes these calls: if some topology value that has
  pods has fewer than its replicas, every value loses exactly its surplus over its replicas
  (all of its pods when it is not in the policy), taken from the front of the sorted list;
  otherwise nothing is evicted.
\<close>

theorem policy_evictions:
  assumes "desched_ok env" "desched_inputs env tsp tr items"
    and "\<forall>q \<in> set (DeployPlacement (Spec tsp)). 0 \<le> sint (Replicas q)"
    and "int (length items) < 2 ^ 31"
  shows "\<exists>ev. process_policy env nm tsp tr = (tr @ ev, None)
    \<and> (\<forall>v. let pol = CovertPolicy (DeployPlacement (Spec tsp)); key = TopologyKey (Spec tsp);
             ps = zone_pods key nm items v in
        map ev_pod (filter (\<lambda>e. placed key nm v (ev_pod e)) ev) =
          (if short_of pol key nm items
           then take (nat (int (length ps) - want pol v)) (sort_Sort env ps) else []))"
proof -
  have "process_policy env nm tsp tr = (tr @ policy_calls env nm tsp items, None)"
    using process_policy_calls [OF assms(1,2) want_nonneg [OF assms(3)] assms(4)] .
  then show ?thesis
    by (intro exI [of _ "policy_calls env nm tsp items"])
       (simp add: policy_calls_zone [OF assms(1)] Let_def victims_def surplus_def comp_def)
qed

theorem policy_evictions_witness:
  "\<exists>ev. process_policy (small_env cluster_pods) (build_nodeMap cluster_nodes) skewed_tsp [] = (ev, None)
    \<and> map ev_pod (filter (\<lambda>e. placed ''zone'' (build_nodeMap cluster_nodes) ''a'' (ev_pod e)) ev)
        = [pod_on ''p3'' ''n1'' PodFailed]"
proof -
  from policy_evictions [OF small_env_ok cluster_inputs skewed_nonneg, of "build_nodeMap cluster_nodes"]
  obtain ev where ev: "process_policy (small_env cluster_pods) (build_nodeMap cluster_nodes) skewed_tsp [] = (ev, None)"
    "map ev_pod (filter (\<lambda>e. placed ''zone'' (build_nodeMap cluster_nodes) ''a'' (ev_pod e)) ev)
      = take (nat (int (length (zone_pods ''zone'' (build_nodeMap cluster_nodes) cluster_pods ''a''))
            - want skewed_policy ''a''))
          (sort_Sort (small_env cluster_pods) (zone_pods ''zone'' (build_nodeMap cluster_nodes) cluster_pods ''a''))"
    using cluster_short by (auto simp: Let_def cluster_pods_def)
  have "take 1 (sort_Sort (small_env cluster_pods) [pod_on ''p1'' ''n1'' PodRunning, pod_on ''p3'' ''n1'' PodFailed])
      = [pod_on ''p3'' ''n1'' PodFailed]"
    by code_simp
  then show ?thesis using ev by (simp add: cluster_zones)
qed

text \<open>
  The strategy settles. Run a policy, let the evicted pods disappear, and run it again:
  the second run evicts nothing.
\<close>

theorem second_run_quiet:
  assumes "desched_ok env" "desched_inputs env tsp tr items"
    and "\<forall>q \<in> set (DeployPlacement (Spec tsp)). 0 \<le> sint (Replicas q)"
    and "int (length items) < 2 ^ 31" "distinct items"
    and "process_policy env nm tsp tr = (tr @ ev, None)"
    and "desched_inputs env tsp (tr @ ev) (filter (\<lambda>p. p \<notin> ev_pod ` set ev) items)"
  shows "process_policy env nm tsp (tr @ ev) = (tr @ ev, None)"
proof -
  note want = want_nonneg [OF assms(3)]
  have ev: "ev = policy_calls env nm tsp items"
    using process_policy_calls [OF assms(1,2) want assms(4), of nm] assms(6) by simp
  have "int (length (filter (\<lambda>p. p \<notin> ev_pod ` set ev) items)) < 2 ^ 31"
    using assms(4) length_filter_le [of "\<lambda>p. p \<notin> ev_pod ` set ev" items] by linarith
  from process_policy_calls [OF assms(1,7) want this, of nm] show ?thesis
    using policy_calls_settle [OF assms(1,1) want assms(5)] by (simp add: ev)
qed

theorem second_run_quiet_witness:
  "process_policy (small_env cluster_pods) (build_nodeMap cluster_nodes) skewed_tsp
      [evict (build_nodeMap cluster_nodes) (pod_on ''p3'' ''n1'' PodFailed)]
    = ([evict (build_nodeMap cluster_nodes) (pod_on ''p3'' ''n1'' PodFailed)], None)"
proof -
  let ?e = "evict (build_nodeMap cluster_nodes) (pod_on ''p3'' ''n1'' PodFailed)"
  have first: "process_policy (small_env cluster_pods) (build_nodeMap cluster_nodes) skewed_tsp [] = ([] @ [?e], None)"
    by code_simp
  have "process_policy (small_env cluster_pods) (build_nodeMap cluster_nodes) skewed_tsp ([] @ [?e]) = ([] @ [?e], None)"
  proof (rule second_run_quiet [OF small_env_ok cluster_inputs skewed_nonneg _ _ first])
    show "int (length cluster_pods) < 2 ^ 31" "distinct cluster_pods"
      by (simp_all add: cluster_pods_def pod_on_def sample_pod_def)
    show "desched_inputs (small_env cluster_pods) skewed_tsp ([] @ [?e])
        (filter (\<lambda>p. p \<notin> ev_pod ` set [?e]) cluster_pods)"
      using small_env_inputs [of cluster_pods "[?e]"] by simp
  qed
  then show ?thesis by simp
qed

text \<open>
  C25. Whom the descheduler picks. If a value loses a pod that is neither finished nor
  pending, it loses all of its finished and pending pods.
\<close>

theorem finished_evicted_first:
  assumes "desched_ok env" "desched_inputs env tsp tr items"
    and "\<forall>q \<in> set (DeployPlacement (Spec tsp)). 0 \<le> sint (Replicas q)"
    and "int (length items) < 2 ^ 31"
    and "process_policy env nm tsp tr = (tr @ ev, None)" "e \<in> set ev" "\<not> finished (ev_pod e)"
    and "placed (TopologyKey (Spec tsp)) nm v (ev_pod e)"
    and "p \<in> set items" "placed (TopologyKey (Spec tsp)) nm v p" "finished p"
  shows "p \<in> ev_pod ` set ev"
proof -
  let ?z = "zone_pods (TopologyKey (Spec tsp)) nm items v"
  let ?pol = "CovertPolicy (DeployPlacement (Spec tsp))"
  have s: "go_sorter less_pods (sort_Sort env)" using assms(1) by (simp add: desched_ok_def)
  have ev: "ev = policy_calls env nm tsp items"
    using process_policy_calls [OF assms(1,2) want_nonneg [OF assms(3)] assms(4), of nm] assms(5) by simp
  have "ev \<noteq> []" using assms(6) by auto
  then have sh: "short_of ?pol (TopologyKey (Spec tsp)) nm items"
    by (auto simp: ev policy_calls_def Let_def split: if_splits)
  have pz: "p \<in> set ?z" using assms(9,10) by (simp add: zone_pods_def)
  obtain w where "ev_pod e \<in> set (zone_pods (TopologyKey (Spec tsp)) nm items w)"
    using policy_calls_live(1) [OF assms(1)] assms(6) ev by blast
  then have ez: "ev_pod e \<in> set ?z" using assms(8) by (simp add: zone_pods_def)
  have ein: "ev_pod e \<in> set (victims env ?pol v ?z)"
    using victims_of_zone [OF assms(1) sh ez] assms(6) by (simp add: ev)
  have "p \<in> set (victims env ?pol v ?z)"
  proof (rule ccontr)
    assume n: "p \<notin> set (victims env ?pol v ?z)"
    let ?n = "surplus ?pol v (length ?z)"
    have "p \<in> set (take ?n (sort_Sort env ?z)) \<union> set (drop ?n (sort_Sort env ?z))"
      using pz go_sorter.sort_set [OF s, of ?z] by (metis append_take_drop_id set_append)
    then have "p \<in> set (drop ?n (sort_Sort env ?z))" using n by (simp add: victims_def)
    moreover have "less_pods p (ev_pod e)" using assms(11) by (simp add: less_pods_def)
    ultimately have "less_pods (ev_pod e) p"
      using go_sorter.chosen_first [OF s] ein by (simp add: victims_def)
    then show False using assms(7,11) by (simp add: less_pods_def)
  qed
  then show ?thesis using victims_of_zone [OF assms(1) sh pz] by (simp add: ev)
qed

theorem finished_evicted_first_witness:
  "pod_on ''p3'' ''n1'' PodFailed \<in> ev_pod ` set
     (fst (process_policy (small_env cluster_pods) (build_nodeMap cluster_nodes) drained_tsp []))"
proof -
  let ?nm = "build_nodeMap cluster_nodes"
  let ?ev = "[evict ?nm (pod_on ''p3'' ''n1'' PodFailed), evict ?nm (pod_on ''p1'' ''n1'' PodRunning)]"
  have run: "process_policy (small_env cluster_pods) ?nm drained_tsp [] = ([] @ ?ev, None)" by code_simp
  have "pod_on ''p3'' ''n1'' PodFailed \<in> ev_pod ` set ?ev"
  proof (rule finished_evicted_first [OF small_env_ok drained_inputs _ _ run, where v = "''a''"
        and e = "evict ?nm (pod_on ''p1'' ''n1'' PodRunning)"])
    show "\<forall>q \<in> set (DeployPlacement (Spec drained_tsp)). 0 \<le> sint (Replicas q)"
      by (simp add: drained_tsp_def)
    show "int (length cluster_pods) < 2 ^ 31" by (simp add: cluster_pods_def)
    show "pod_on ''p3'' ''n1'' PodFailed \<in> set cluster_pods" by (simp add: cluster_pods_def)
    show "placed (TopologyKey (Spec drained_tsp)) ?nm ''a'' (pod_on ''p3'' ''n1'' PodFailed)"
      "placed (TopologyKey (Spec drained_tsp)) ?nm ''a'' (ev_pod (evict ?nm (pod_on ''p1'' ''n1'' PodRunning)))"
      by code_simp+
  qed (simp_all add: finished_def pod_on_def)
  then show ?thesis by (simp add: run)
qed

text \<open>
  The comment at the end of \<open>checkTopoReached\<close>, taken literally: reached when all keys exceed their
  replicas, not reached when only some of them or none do.
\<close>

definition comment_reached ::
    "(TopologyPair, TopoPairCount) gomap \<Rightarrow> (string, int32) gomap \<Rightarrow> bool" where
  "comment_reached m pol \<longleftrightarrow>
     m \<noteq> [] \<and> list_all (\<lambda>(q, c). desired_of pol (Value q) - tpc_count c <s 0) m"

lemma comment_grouped:
  assumes "gsame (grouped key nm items) m" "\<forall>v. 0 \<le> want pol v" "int (length items) < 2 ^ 31"
  shows "comment_reached m pol \<longleftrightarrow> (\<exists>v. zone_pods key nm items v \<noteq> [])
    \<and> (\<forall>v. zone_pods key nm items v \<noteq> [] \<longrightarrow> want pol v < int (length (zone_pods key nm items v)))"
proof -
  let ?z = "zone_pods key nm items"
  have d: "desired_of pol v - int32_of (int (length (?z v))) <s 0 \<longleftrightarrow> want pol v < int (length (?z v))" for v
  proof -
    have "- (2 ^ 31) \<le> want pol v - int (length (?z v))"
      using spec [OF assms(2), of v] length_zone_pods [of key nm items v] assms(3) by linarith
    from diff_int32(2) [OF this] show ?thesis by (simp add: word_sless_alt)
  qed
  have s: "set m = set (grouped key nm items)" using assms(1) by (simp add: gsame_def)
  have mem: "(\<forall>(q, c) \<in> set m. P q c) \<longleftrightarrow>
      (\<forall>v. ?z v \<noteq> [] \<longrightarrow> P \<lparr>Key = key, Value = v\<rparr> \<lparr>tpc_count = int32_of (int (length (?z v))), tpc_pods = ?z v\<rparr>)" for P
    unfolding s by (rule grouped_ball)
  have "m = [] \<longleftrightarrow> (\<forall>(q, c) \<in> set m. False)" by (cases m) auto
  then have "m = [] \<longleftrightarrow> (\<forall>v. ?z v = [])" unfolding mem by simp
  then show ?thesis
    unfolding comment_reached_def list_all_iff mem by (simp add: d)
qed

text \<open>
  C31. \<open>checkTopoReached\<close> against the comment in it. For the pods of a policy, whatever the two
  orders of the map: where the comment says "reached" the code does too. They differ exactly when
  no value that has pods is short and there are no pods at all or some value has exactly its
  replicas: the comment says "not reached" (some or all keys do not exceed), the code "reached",
  because its flag \<open>satisfied\<close> starts as true and never changes. In that case the policy is skipped
  without an eviction; the loop that is skipped would have evicted nothing, too, when every value
  with pods has exactly its replicas, and otherwise would have evicted: the surplus of values
  above their replicas stays.
\<close>

theorem checkTopoReached_comment:
  assumes "desched_ok env" "desched_inputs env tsp tr items"
    and "\<forall>q \<in> set (DeployPlacement (Spec tsp)). 0 \<le> sint (Replicas q)"
    and "int (length items) < 2 ^ 31"
    and "SchedulePolicyMap con = CovertPolicy (DeployPlacement (Spec tsp))"
  shows "let key = TopologyKey (Spec tsp); pol = CovertPolicy (DeployPlacement (Spec tsp));
      m = fold (add_to_pair key nm) items gomake;
      n = (\<lambda>v. int (length (zone_pods key nm items v)));
      code = checkTopoReached (range_check env m) con; comment = comment_reached (range_check env m) pol
    in (comment \<longrightarrow> code)
      \<and> (code \<and> \<not> comment \<longleftrightarrow>
          (\<forall>v. n v \<noteq> 0 \<longrightarrow> want pol v \<le> n v) \<and> ((\<forall>v. n v = 0) \<or> (\<exists>v. n v \<noteq> 0 \<and> n v = want pol v)))
      \<and> (code \<and> \<not> comment \<longrightarrow> process_policy env nm tsp tr = (tr, None)
          \<and> (fst (evict_pairs env nm pol (range_pairs env m) tr) = tr \<longleftrightarrow> (\<forall>v. n v \<noteq> 0 \<longrightarrow> n v = want pol v)))"
proof -
  define key where "key = TopologyKey (Spec tsp)"
  define pol where "pol = CovertPolicy (DeployPlacement (Spec tsp))"
  let ?m = "grouped key nm items" and ?z = "zone_pods key nm items"
  define n where "n v = int (length (?z v))" for v
  have g: "gsame ?m (range_check env ?m)" "gsame ?m (range_pairs env ?m)" and s: "go_sorter less_pods (sort_Sort env)"
    using assms(1) gmap_ok_grouped by (simp_all add: desched_ok_def)
  have w: "\<forall>v. 0 \<le> want pol v" using want_nonneg [OF assms(3)] by (simp add: pol_def)
  have n0: "?z v \<noteq> [] \<longleftrightarrow> n v \<noteq> 0" for v by (simp add: n_def)
  have short: "short_of pol key nm items \<longleftrightarrow> \<not> (\<forall>v. n v \<noteq> 0 \<longrightarrow> want pol v \<le> n v)"
    unfolding short_of_def n0 n_def [symmetric] by (simp add: not_le)
  have code: "checkTopoReached (range_check env ?m) con \<longleftrightarrow> (\<forall>v. n v \<noteq> 0 \<longrightarrow> want pol v \<le> n v)"
    using check_grouped [OF g(1) _ assms(4), of con] w
    unfolding assms(5) pol_def [symmetric] short by blast
  have comment: "comment_reached (range_check env ?m) pol \<longleftrightarrow> (\<exists>v. n v \<noteq> 0) \<and> (\<forall>v. n v \<noteq> 0 \<longrightarrow> want pol v < n v)"
    using comment_grouped [OF g(1) w assms(4)] unfolding n0 n_def [symmetric] .
  have skip: "process_policy env nm tsp tr = (tr, None)" if "\<forall>v. n v \<noteq> 0 \<longrightarrow> want pol v \<le> n v"
  proof -
    have "\<not> short_of pol key nm items" using that short by blast
    then show ?thesis
      using process_policy_calls [OF assms(1,2) want_nonneg [OF assms(3)] assms(4), of nm]
      by (simp add: policy_calls_def key_def pol_def)
  qed
  have loop: "fst (evict_pairs env nm pol (range_pairs env ?m) tr) = tr \<longleftrightarrow> (\<forall>v. n v \<noteq> 0 \<longrightarrow> n v \<le> want pol v)"
    using evict_pairs_none [OF s g(2) w assms(4)] unfolding n0 n_def .
  let ?full = "\<forall>v. n v \<noteq> 0 \<longrightarrow> want pol v \<le> n v"
    and ?over = "(\<exists>v. n v \<noteq> 0) \<and> (\<forall>v. n v \<noteq> 0 \<longrightarrow> want pol v < n v)"
  have 1: "?over \<longrightarrow> ?full" by (meson less_imp_le)
  have 2: "?full \<and> \<not> ?over \<longleftrightarrow> ?full \<and> ((\<forall>v. n v = 0) \<or> (\<exists>v. n v \<noteq> 0 \<and> n v = want pol v))"
    by (metis order.not_eq_order_implies_strict order.strict_iff_not)
  have 3: "(\<forall>v. n v \<noteq> 0 \<longrightarrow> n v \<le> want pol v) \<longleftrightarrow> (\<forall>v. n v \<noteq> 0 \<longrightarrow> n v = want pol v)" if ?full
    using that antisym eq_refl by metis
  show ?thesis
    unfolding Let_def key_def [symmetric] pol_def [symmetric] grouped_def [symmetric] n_def [symmetric]
      code comment loop
    by (intro conjI 1 2) (use 3 skip in blast)
qed

theorem checkTopoReached_comment_witness:
  "checkTopoReached (range_check (small_env cluster_pods) (grouped ''zone'' (build_nodeMap cluster_nodes) cluster_pods))
      \<lparr>c_TopologyKey = ''zone'', SchedulePolicyMap = CovertPolicy (DeployPlacement (Spec level_tsp)), Selector = sample_sel\<rparr>
    \<and> process_policy (small_env cluster_pods) (build_nodeMap cluster_nodes) level_tsp [] = ([], None)
    \<and> fst (evict_pairs (small_env cluster_pods) (build_nodeMap cluster_nodes) (CovertPolicy (DeployPlacement (Spec level_tsp)))
        (range_pairs (small_env cluster_pods) (grouped ''zone'' (build_nodeMap cluster_nodes) cluster_pods)) []) \<noteq> []"
proof -
  let ?nm = "build_nodeMap cluster_nodes" and ?env = "small_env cluster_pods"
    and ?pol = "CovertPolicy (DeployPlacement (Spec level_tsp))"
  let ?n = "\<lambda>v. int (length (zone_pods ''zone'' ?nm cluster_pods v))"
  let ?con = "\<lparr>c_TopologyKey = ''zone'', SchedulePolicyMap = ?pol, Selector = sample_sel\<rparr>"
  have key: "TopologyKey (Spec level_tsp) = ''zone''" by (simp add: level_tsp_def)
  have inp: "desched_inputs ?env level_tsp [] cluster_pods"
    by (simp add: desched_inputs_def small_env_def level_tsp_def sample_tsp_def sample_selector_def)
  have n: "?n ''a'' = 2" "?n ''b'' = 1" by (simp_all add: cluster_zones)
  have w: "want ?pol ''a'' = 1" "want ?pol ''b'' = 1" by code_simp+
  have other: "want ?pol v = 0" if "v \<noteq> ''a''" "v \<noteq> ''b''" for v
    using that by (simp add: want_def desired_of_def CovertPolicy_lookup level_tsp_def)
  have full: "\<forall>v. ?n v \<noteq> 0 \<longrightarrow> want ?pol v \<le> ?n v"
    using n w other by (metis of_nat_0_le_iff order.refl one_le_numeral)
  have exact: "\<exists>v. ?n v \<noteq> 0 \<and> ?n v = want ?pol v" using n(2) w(2) by (intro exI [of _ "''b''"]) simp
  have surplus: "\<not> (\<forall>v. ?n v \<noteq> 0 \<longrightarrow> ?n v = want ?pol v)" using n(1) w(1) by (intro notI) (drule spec [of _ "''a''"], simp)
  have q: "\<forall>q \<in> set (DeployPlacement (Spec level_tsp)). 0 \<le> sint (Replicas q)" "int (length cluster_pods) < 2 ^ 31"
    "SchedulePolicyMap ?con = ?pol"
    by (simp_all add: level_tsp_def cluster_pods_def)
  from checkTopoReached_comment [OF small_env_ok inp q, of ?nm]
  show ?thesis unfolding Let_def key grouped_def [symmetric] using full exact surplus by metis
qed

text \<open>
  Values without pods are overlooked. When every value that has pods has at least its
  replicas, nothing is evicted, although a value of the policy without any pod is below its
  replicas and the surplus of the others would be needed there.
\<close>

theorem empty_value_overlooked:
  assumes "desched_ok env" "desched_inputs env tsp tr items"
    and "\<forall>q \<in> set (DeployPlacement (Spec tsp)). 0 \<le> sint (Replicas q)"
    and "int (length items) < 2 ^ 31"
    and "\<forall>v. v \<noteq> w \<longrightarrow> want (CovertPolicy (DeployPlacement (Spec tsp))) v
           \<le> int (length (zone_pods (TopologyKey (Spec tsp)) nm items v))"
    and "zone_pods (TopologyKey (Spec tsp)) nm items w = []"
  shows "process_policy env nm tsp tr = (tr, None)"
proof -
  have "\<not> short_of (CovertPolicy (DeployPlacement (Spec tsp))) (TopologyKey (Spec tsp)) nm items"
    using assms(5,6) by (auto simp: short_of_def not_less)
  then show ?thesis
    using process_policy_calls [OF assms(1,2) want_nonneg [OF assms(3)] assms(4), of nm]
    by (simp add: policy_calls_def)
qed

theorem empty_value_overlooked_witness:
  "process_policy (small_env crowded_pods) (build_nodeMap cluster_nodes) skewed_tsp [] = ([], None)"
proof (rule empty_value_overlooked [where w = "''b''", OF small_env_ok])
  show "desched_inputs (small_env crowded_pods) skewed_tsp [] crowded_pods"
    using small_env_inputs [of crowded_pods "[]"] by simp
  have "want skewed_policy v = 0" if "v \<noteq> ''a''" "v \<noteq> ''b''" for v
    using that by (simp add: want_def desired_of_def CovertPolicy_lookup skewed_tsp_def)
  moreover have "want skewed_policy ''a'' = 1" by code_simp
  moreover have "zone_pods ''zone'' (build_nodeMap cluster_nodes) crowded_pods ''a'' = crowded_pods"
    "length crowded_pods = 2" by code_simp+
  ultimately show "\<forall>v. v \<noteq> ''b'' \<longrightarrow> want skewed_policy v
      \<le> int (length (zone_pods (TopologyKey (Spec skewed_tsp)) (build_nodeMap cluster_nodes) crowded_pods v))"
    by (metis skewed_key of_nat_0_le_iff of_nat_numeral one_le_numeral)
  show "zone_pods (TopologyKey (Spec skewed_tsp)) (build_nodeMap cluster_nodes) crowded_pods ''b'' = []"
    by code_simp
qed (simp_all add: skewed_nonneg crowded_pods_def)

text \<open>
  C32. A negative replica count makes the strategy panic. If some value is short, so that
  eviction starts, and a value with pods has a negative count in the policy, the loop runs past
  the end of that value's pods.
\<close>

theorem negative_replicas_panic:
  assumes "desched_ok env" "desched_inputs env tsp tr items" "int (length items) < 2 ^ 31"
    and "v \<noteq> w"
    and "zone_pods (TopologyKey (Spec tsp)) nm items v \<noteq> []"
    and "int (length (zone_pods (TopologyKey (Spec tsp)) nm items v))
      < want (CovertPolicy (DeployPlacement (Spec tsp))) v"
    and "zone_pods (TopologyKey (Spec tsp)) nm items w \<noteq> []"
    and "want (CovertPolicy (DeployPlacement (Spec tsp))) w < 0"
    and "- (2 ^ 31) < want (CovertPolicy (DeployPlacement (Spec tsp))) w
      - int (length (zone_pods (TopologyKey (Spec tsp)) nm items w))"
  shows "snd (process_policy env nm tsp tr) = Some IndexOutOfRange"
proof -
  let ?key = "TopologyKey (Spec tsp)" and ?pol = "CovertPolicy (DeployPlacement (Spec tsp))"
  let ?m = "range_check env (grouped ?key nm items)" and ?m' = "range_pairs env (grouped ?key nm items)"
  let ?c = "\<lambda>x. \<lparr>tpc_count = int32_of (int (length (zone_pods ?key nm items x))),
      tpc_pods = zone_pods ?key nm items x\<rparr>"
  have s: "go_sorter less_pods (sort_Sort env)" using assms(1) by (simp add: desched_ok_def)
  have "gsame (grouped ?key nm items) ?m" "gsame (grouped ?key nm items) ?m'"
    using assms(1) gmap_ok_grouped by (simp_all add: desched_ok_def)
  then have mem: "set ?m = set (grouped ?key nm items)" "set ?m' = set (grouped ?key nm items)"
    by (simp_all add: gsame_def)
  have inm: "(\<lparr>Key = ?key, Value = v\<rparr>, ?c v) \<in> set ?m" "(\<lparr>Key = ?key, Value = w\<rparr>, ?c w) \<in> set ?m'"
    using assms(5,7) by (simp_all add: mem grouped_mem)
  have "- (2 ^ 31) \<le> want ?pol v - int (length (zone_pods ?key nm items v))"
    using assms(6) length_zone_pods [of ?key nm items v] assms(3) by linarith
  from diff_int32(2) [OF this] have "0 <s desired_of ?pol v - tpc_count (?c v)"
    using assms(6) by (simp add: word_sless_alt)
  then have "\<not> checkTopoReached ?m \<lparr>c_TopologyKey = ?key, SchedulePolicyMap = ?pol, Selector = sel\<rparr>" for sel
    using inm(1) by (fastforce simp: checkTopoReached_iff)
  then show ?thesis
    using evict_pairs_panic [OF s inm(2)] assms(7-9)
    by (simp add: process_policy_unfold [OF assms(2)] Let_def)
qed

theorem negative_replicas_panic_witness:
  "snd (process_policy (small_env cluster_pods) (build_nodeMap cluster_nodes) negative_tsp []) = Some IndexOutOfRange"
proof (rule negative_replicas_panic [where v = "''b''" and w = "''a''", OF small_env_ok])
  show "desched_inputs (small_env cluster_pods) negative_tsp [] cluster_pods"
    by (simp add: desched_inputs_def small_env_def negative_tsp_def sample_tsp_def sample_selector_def)
  have k: "TopologyKey (Spec negative_tsp) = ''zone''" by (simp add: negative_tsp_def)
  have w: "want (CovertPolicy (DeployPlacement (Spec negative_tsp))) ''a'' = - 1"
    "want (CovertPolicy (DeployPlacement (Spec negative_tsp))) ''b'' = 3" by code_simp+
  show "int (length cluster_pods) < 2 ^ 31" by (simp add: cluster_pods_def)
  show "zone_pods (TopologyKey (Spec negative_tsp)) (build_nodeMap cluster_nodes) cluster_pods ''b'' \<noteq> []"
    "zone_pods (TopologyKey (Spec negative_tsp)) (build_nodeMap cluster_nodes) cluster_pods ''a'' \<noteq> []"
    "int (length (zone_pods (TopologyKey (Spec negative_tsp)) (build_nodeMap cluster_nodes) cluster_pods ''b''))
      < want (CovertPolicy (DeployPlacement (Spec negative_tsp))) ''b''"
    "want (CovertPolicy (DeployPlacement (Spec negative_tsp))) ''a'' < 0"
    "- (2 ^ 31) < want (CovertPolicy (DeployPlacement (Spec negative_tsp))) ''a''
      - int (length (zone_pods (TopologyKey (Spec negative_tsp)) (build_nodeMap cluster_nodes) cluster_pods ''a''))"
    by (simp_all add: k w cluster_zones)
qed simp

text \<open>
  \<open>ByCostom.Less\<close> is not an ordering: a finished or pending pod is less than itself, and
  two of them are each less than the other.
\<close>

theorem Less_not_an_order:
  assumes "Phase (p ! i) \<in> {PodFailed, PodSucceeded, PodPending}"
    and "Phase (p ! j) \<in> {PodFailed, PodSucceeded, PodPending}"
  shows "Less p i i \<and> Less p i j \<and> Less p j i"
  using assms by (auto simp: Less_iff less_pods_def finished_def)

theorem Less_not_an_order_witness:
  "Less [pod_on ''x'' ''n1'' PodPending, pod_on ''y'' ''n1'' PodFailed] 0 1
    \<and> Less [pod_on ''x'' ''n1'' PodPending, pod_on ''y'' ''n1'' PodFailed] 1 0"
  using Less_not_an_order [of "[pod_on ''x'' ''n1'' PodPending, pod_on ''y'' ''n1'' PodFailed]" 0 1]
  by (simp add: pod_on_def)

text \<open>
  Go's insertion sort, driven by this \<open>Less\<close>, still sorts: the result is a permutation
  with the finished and pending pods first and the other pods in the order of their names.
\<close>

theorem ByCostom_sorted:
  "mset (go_sort_small p) = mset p \<and>
    (\<exists>xs ys. go_sort_small p = xs @ ys \<and> list_all finished xs
      \<and> list_all (\<lambda>y. \<not> finished y) ys \<and> sorted (map pod_Name ys))"
proof -
  let ?q = "go_sort_small p"
  have q: "mset ?q = mset p" "sorted (map rank ?q)" using go_sort_small_correct by blast+
  have "\<exists>xs ys. q = xs @ ys \<and> (\<forall>x \<in> set xs. finished x) \<and> (\<forall>y \<in> set ys. \<not> finished y)
      \<and> sorted (map pod_Name ys)" if "sorted (map rank q)" for q
    using that
  proof (induction q)
    case (Cons a q)
    then obtain xs ys where xy: "q = xs @ ys" "\<forall>x \<in> set xs. finished x" "\<forall>y \<in> set ys. \<not> finished y"
      "sorted (map pod_Name ys)" by auto
    show ?case
    proof (cases "finished a")
      case True
      then show ?thesis using xy by (intro exI [of _ "a # xs"] exI [of _ ys]) simp
    next
      case False
      then have "xs = []" using Cons.prems xy(1,2) by (cases xs) (auto simp: rank_def)
      moreover have "pod_Name a \<le> pod_Name y" if "y \<in> set ys" for y
      proof -
        have "rank a \<le> rank y" using Cons.prems that xy(1) by simp
        then show ?thesis using that xy(3) False by (simp add: rank_def)
      qed
      ultimately show ?thesis using xy False by (intro exI [of _ "[]"] exI [of _ "a # ys"]) simp
    qed
  qed simp
  from this [OF q(2)] q(1) show ?thesis by (simp add: list_all_iff)
qed

section \<open>The whole strategy\<close>

text \<open>
  C24. The strategy is safe. Over all policies, with no negative replica count, it never
  panics, and whatever it evicts is a pod without a deletion timestamp, passed together with the
  node of the given node list on which it runs.
\<close>

theorem strategy_safe:
  assumes "desched_ok env" "ns_List (TopologySchedulingPolicies idx NamespaceAll) Everything = (tsps, None)"
    and "\<forall>tsp \<in> set tsps. \<forall>q \<in> set (DeployPlacement (Spec tsp)). 0 \<le> sint (Replicas q)"
    and "\<forall>tr ns fmt items. list_pods env tr ns fmt = Inr items \<longrightarrow> int (length items) < 2 ^ 31"
  shows "\<exists>ev. RemovePodsViolatingTopologySchedulingPolicy env nodes (Some idx) tr = (tr @ ev, None)
    \<and> (\<forall>e \<in> set ev. DeletionTimestamp (ev_pod e) = None
        \<and> (\<exists>nd \<in> set nodes. ev_node e = Some nd \<and> node_Name nd = NodeName (ev_pod e)))"
  using assms by (rule strategy_calls)

theorem strategy_safe_witness:
  "\<exists>ev. RemovePodsViolatingTopologySchedulingPolicy (small_env cluster_pods) cluster_nodes (Some skewed_idx) [] = (ev, None)
    \<and> (\<forall>e \<in> set ev. DeletionTimestamp (ev_pod e) = None
        \<and> (\<exists>nd \<in> set cluster_nodes. ev_node e = Some nd \<and> node_Name nd = NodeName (ev_pod e)))"
proof -
  have "\<exists>ev. RemovePodsViolatingTopologySchedulingPolicy (small_env cluster_pods) cluster_nodes (Some skewed_idx) []
      = ([] @ ev, None)
    \<and> (\<forall>e \<in> set ev. DeletionTimestamp (ev_pod e) = None
        \<and> (\<exists>nd \<in> set cluster_nodes. ev_node e = Some nd \<and> node_Name nd = NodeName (ev_pod e)))"
  proof (rule strategy_safe [OF small_env_ok, where tsps = "[skewed_tsp]"])
    show "ns_List (TopologySchedulingPolicies skewed_idx NamespaceAll) Everything = ([skewed_tsp], None)"
      by (simp add: skewed_idx_def NamespaceAll_def)
    show "\<forall>tr ns fmt items. list_pods (small_env cluster_pods) tr ns fmt = Inr items \<longrightarrow> int (length items) < 2 ^ 31"
    proof (intro allI impI)
      fix tr ns fmt items
      assume "list_pods (small_env cluster_pods) tr ns fmt = Inr items"
      then have "length items \<le> length cluster_pods" by (auto simp: small_env_def)
      then show "int (length items) < 2 ^ 31" by (simp add: cluster_pods_def)
    qed
  qed (simp add: skewed_nonneg)
  then show ?thesis by simp
qed

section \<open>The whole strategy on several policies\<close>

text \<open>
  C6. The evictions of a run. When no pod is listed for two policies, no replica count is negative
  and the API server no longer lists evicted pods, the strategy does not panic, and it treats
  every policy as if it were alone: if some topology value that has pods of the policy has fewer
  than its replicas, every value loses exactly the surplus of this policy's pods, taken from the
  front of the sorted list; otherwise the policy loses none.
\<close>

theorem strategy_evictions:
  assumes "desched_ok env" "api_lists env base"
    and "ns_List (TopologySchedulingPolicies idx NamespaceAll) Everything = (tsps, None)"
    and "\<forall>tsp \<in> set tsps. policy_ok env tsp \<and> int (length (items_of env base tsp)) < 2 ^ 31"
    and "sorted_wrt (\<lambda>a b. set (items_of env base a) \<inter> set (items_of env base b) = {}) tsps"
  shows "\<exists>ev. RemovePodsViolatingTopologySchedulingPolicy env nodes (Some idx) [] = (ev, None)
    \<and> (\<forall>tsp \<in> set tsps. \<forall>v.
        let pol = CovertPolicy (DeployPlacement (Spec tsp)); key = TopologyKey (Spec tsp);
            nm = build_nodeMap nodes; items = items_of env base tsp; ps = zone_pods key nm items v
        in map ev_pod (filter (\<lambda>e. ev_pod e \<in> set items \<and> placed key nm v (ev_pod e)) ev) =
            (if short_of pol key nm items
             then take (nat (int (length ps) - want pol v)) (sort_Sort env ps) else []))"
proof -
  have "RemovePodsViolatingTopologySchedulingPolicy env nodes (Some idx) [] = (all_calls env nodes base tsps, None)"
    by (rule strategy_all_calls [OF assms(1,2,3) _ _ assms(5)]) (use assms(4) in blast)+
  then show ?thesis
    using all_calls_zone [OF assms(1) _ assms(5), of _ nodes]
    by (intro exI [of _ "all_calls env nodes base tsps"] conjI ballI allI) (simp_all only: Let_def)
qed

definition test_tsp :: TopologySchedulingPolicy where
  "test_tsp = drained_tsp\<lparr>tsp_Namespace := ''test''\<rparr>"

definition test_pods :: "pod list" where
  "test_pods = [(pod_on ''q1'' ''n1'' PodRunning)\<lparr>pod_Namespace := ''test''\<rparr>,
     (pod_on ''q2'' ''n2'' PodRunning)\<lparr>pod_Namespace := ''test''\<rparr>]"

definition two_base :: "string \<Rightarrow> string \<Rightarrow> pod list" where
  "two_base ns fmt = (if ns = ''prod'' then cluster_pods else if ns = ''test'' then test_pods else [])"

definition two_env :: desched_env where
  "two_env = (small_env [])\<lparr>list_pods := (\<lambda>tr ns fmt. Inr (filter (\<lambda>p. p \<notin> ev_pod ` set tr) (two_base ns fmt)))\<rparr>"

definition two_idx :: indexer where
  "two_idx = sample_idx\<lparr>ListAllByNamespace := (\<lambda>ns sel. ([skewed_tsp, test_tsp], None))\<rparr>"

theorem strategy_evictions_witness:
  "\<exists>ev. RemovePodsViolatingTopologySchedulingPolicy two_env cluster_nodes (Some two_idx) [] = (ev, None)
    \<and> map ev_pod (filter (\<lambda>e. ev_pod e \<in> set cluster_pods
          \<and> placed ''zone'' (build_nodeMap cluster_nodes) ''a'' (ev_pod e)) ev) = [pod_on ''p3'' ''n1'' PodFailed]"
proof -
  let ?nm = "build_nodeMap cluster_nodes"
  have ok: "desched_ok two_env"
    using small_env_ok [of "[]"] by (simp add: desched_ok_def two_env_def)
  have items: "items_of two_env two_base skewed_tsp = cluster_pods" "items_of two_env two_base test_tsp = test_pods"
    by (simp_all add: items_of_def two_base_def test_tsp_def drained_tsp_def skewed_tsp_def sample_tsp_def)
  have pols: "\<forall>tsp \<in> set [skewed_tsp, test_tsp]. policy_ok two_env tsp \<and> int (length (items_of two_env two_base tsp)) < 2 ^ 31"
  proof -
    have "policy_ok two_env skewed_tsp"
      using skewed_nonneg by (simp add: policy_ok_def two_env_def small_env_def skewed_tsp_def sample_tsp_def sample_selector_def)
    moreover have "policy_ok two_env test_tsp"
      by (simp add: policy_ok_def two_env_def small_env_def test_tsp_def drained_tsp_def sample_tsp_def sample_selector_def)
    ultimately show ?thesis using items by (simp add: cluster_pods_def test_pods_def)
  qed
  have disj: "sorted_wrt (\<lambda>a b. set (items_of two_env two_base a) \<inter> set (items_of two_env two_base b) = {}) [skewed_tsp, test_tsp]"
    using items by (simp add: cluster_pods_def test_pods_def pod_on_def sample_pod_def)
  have api: "api_lists two_env two_base" by (simp add: api_lists_def two_env_def)
  have idx: "ns_List (TopologySchedulingPolicies two_idx NamespaceAll) Everything = ([skewed_tsp, test_tsp], None)"
    by (simp add: two_idx_def NamespaceAll_def)
  obtain ev where ev: "RemovePodsViolatingTopologySchedulingPolicy two_env cluster_nodes (Some two_idx) [] = (ev, None)"
    "map ev_pod (filter (\<lambda>e. ev_pod e \<in> set cluster_pods \<and> placed ''zone'' ?nm ''a'' (ev_pod e)) ev)
      = (if short_of skewed_policy ''zone'' ?nm cluster_pods
         then take (nat (int (length (zone_pods ''zone'' ?nm cluster_pods ''a'')) - want skewed_policy ''a''))
           (sort_Sort two_env (zone_pods ''zone'' ?nm cluster_pods ''a'')) else [])"
    using strategy_evictions [OF ok api idx pols disj, of cluster_nodes] items(1) by (auto simp: Let_def)
  have "take 1 (sort_Sort two_env [pod_on ''p1'' ''n1'' PodRunning, pod_on ''p3'' ''n1'' PodFailed])
      = [pod_on ''p3'' ''n1'' PodFailed]"
    by code_simp
  then show ?thesis using ev cluster_short by (simp add: cluster_zones)
qed

end
