(* ===== verification/Config_Args.thy ===== *)
theory Config_Args
  imports Prelude
begin

text \<open>
  The plugin arguments (\<open>pkg/apis/config/types.go\<close>, \<open>pkg/apis/config/v1beta1/types.go\<close>), the
  generated conversions between the internal and the versioned form
  (\<open>v1beta1/zz_generated.conversion.go\<close>).

  The versioned types hold pointers to strings. They are addresses in a store of strings, so
  that sharing is visible: the conversion hands the addresses of fields, one of them a field of
  a loop variable, to \<open>Convert_string_To_Pointer_string\<close> of apimachinery, which is a parameter.
\<close>

section \<open>The types\<close>

record Configuration =
  conf_Name :: string
  conf_KubeMaster :: string
  conf_KubeConfig :: string

record SchedulingArgs =
  args_KubeConfigPath :: string
  args_KubeMaster :: string
  ClusterConfiguration :: "(string, Configuration) gomap option"

text \<open>Pointers to strings: addresses of cells.\<close>

record store =
  next_str :: nat
  strs :: "nat \<rightharpoonup> string"

definition store_ok :: "store \<Rightarrow> bool" where
  "store_ok s \<longleftrightarrow> (\<forall>a \<in> dom (strs s). a < next_str s)"

definition alloc :: "string \<Rightarrow> store \<Rightarrow> nat \<times> store" where
  "alloc v s = (next_str s, s\<lparr>next_str := Suc (next_str s), strs := (strs s)(next_str s \<mapsto> v)\<rparr>)"

definition str_at :: "store \<Rightarrow> nat \<Rightarrow> string" where
  "str_at s a = (case strs s a of None \<Rightarrow> '''' | Some v \<Rightarrow> v)"

definition assign :: "nat \<Rightarrow> string \<Rightarrow> store \<Rightarrow> store" where
  "assign a v s = s\<lparr>strs := (strs s)(a \<mapsto> v)\<rparr>"

record v1beta1_Configuration =
  v_Name :: "nat option"
  v_KubeMaster :: "nat option"
  v_KubeConfig :: "nat option"

record v1beta1_SchedulingArgs =
  v_KubeConfigPath :: "nat option"
  v_args_KubeMaster :: "nat option"
  v_ClusterConfiguration :: "(string, v1beta1_Configuration) gomap option"

text \<open>
  The two string conversions of apimachinery. Reading a pointer gives an error or a string;
  making a pointer gets the address of the source string and may return that very address.
\<close>

record conversions =
  Pointer_string_To_string :: "store \<Rightarrow> nat option \<Rightarrow> go_error + string"
  string_To_Pointer_string :: "store \<Rightarrow> nat \<Rightarrow> go_error + (nat option \<times> store)"

section \<open>From v1beta1 to internal\<close>

definition Convert_v1beta1_Configuration ::
    "conversions \<Rightarrow> store \<Rightarrow> v1beta1_Configuration \<Rightarrow> go_error + Configuration" where
  "Convert_v1beta1_Configuration cv s inp =
     (case Pointer_string_To_string cv s (v_Name inp) of
        Inl err \<Rightarrow> Inl err
      | Inr nm \<Rightarrow>
     (case Pointer_string_To_string cv s (v_KubeMaster inp) of
        Inl err \<Rightarrow> Inl err
      | Inr km \<Rightarrow>
     (case Pointer_string_To_string cv s (v_KubeConfig inp) of
        Inl err \<Rightarrow> Inl err
      | Inr kc \<Rightarrow> Inr \<lparr>conf_Name = nm, conf_KubeMaster = km, conf_KubeConfig = kc\<rparr>)))"

fun convert_clusters_in ::
    "conversions \<Rightarrow> store \<Rightarrow> (string, v1beta1_Configuration) gomap \<Rightarrow> (string, Configuration) gomap
       \<Rightarrow> go_error + (string, Configuration) gomap" where
  "convert_clusters_in cv s [] out = Inr out"
| "convert_clusters_in cv s ((key, val) # rest) out =
     (case Convert_v1beta1_Configuration cv s val of
        Inl err \<Rightarrow> Inl err
      | Inr newVal \<Rightarrow> convert_clusters_in cv s rest (ginsert key newVal out))"

definition Convert_v1beta1_SchedulingArgs ::
    "conversions \<Rightarrow> store \<Rightarrow> v1beta1_SchedulingArgs \<Rightarrow> go_error + SchedulingArgs" where
  "Convert_v1beta1_SchedulingArgs cv s inp =
     (case Pointer_string_To_string cv s (v_KubeConfigPath inp) of
        Inl err \<Rightarrow> Inl err
      | Inr kp \<Rightarrow>
     (case Pointer_string_To_string cv s (v_args_KubeMaster inp) of
        Inl err \<Rightarrow> Inl err
      | Inr km \<Rightarrow>
     (case v_ClusterConfiguration inp of
        None \<Rightarrow> Inr \<lparr>args_KubeConfigPath = kp, args_KubeMaster = km, ClusterConfiguration = None\<rparr>
      | Some m \<Rightarrow>
          (case convert_clusters_in cv s m gomake of
             Inl err \<Rightarrow> Inl err
           | Inr m' \<Rightarrow> Inr \<lparr>args_KubeConfigPath = kp, args_KubeMaster = km,
               ClusterConfiguration = Some m'\<rparr>))))"

section \<open>From internal to v1beta1\<close>

text \<open>The source strings live in cells: \<open>conf_cells\<close> are the addresses of the three fields.\<close>

record conf_cells =
  cell_Name :: nat
  cell_KubeMaster :: nat
  cell_KubeConfig :: nat

definition Convert_config_Configuration ::
    "conversions \<Rightarrow> conf_cells \<Rightarrow> store \<Rightarrow> go_error + (v1beta1_Configuration \<times> store)" where
  "Convert_config_Configuration cv inp s =
     (case string_To_Pointer_string cv s (cell_Name inp) of
        Inl err \<Rightarrow> Inl err
      | Inr (nm, s1) \<Rightarrow>
     (case string_To_Pointer_string cv s1 (cell_KubeMaster inp) of
        Inl err \<Rightarrow> Inl err
      | Inr (km, s2) \<Rightarrow>
     (case string_To_Pointer_string cv s2 (cell_KubeConfig inp) of
        Inl err \<Rightarrow> Inl err
      | Inr (kc, s3) \<Rightarrow> Inr (\<lparr>v_Name = nm, v_KubeMaster = km, v_KubeConfig = kc\<rparr>, s3))))"

text \<open>
  \<open>for key, val := range *in\<close>: in Go before 1.22 there is one variable \<open>val\<close> for the whole loop;
  every iteration assigns its fields and passes their addresses on.
\<close>

definition assign_conf :: "conf_cells \<Rightarrow> Configuration \<Rightarrow> store \<Rightarrow> store" where
  "assign_conf var c s = assign (cell_KubeConfig var) (conf_KubeConfig c)
     (assign (cell_KubeMaster var) (conf_KubeMaster c) (assign (cell_Name var) (conf_Name c) s))"

fun convert_clusters_out ::
    "conversions \<Rightarrow> conf_cells \<Rightarrow> (string, Configuration) gomap \<Rightarrow> (string, v1beta1_Configuration) gomap
       \<Rightarrow> store \<Rightarrow> go_error + ((string, v1beta1_Configuration) gomap \<times> store)" where
  "convert_clusters_out cv var [] out s = Inr (out, s)"
| "convert_clusters_out cv var ((key, c) # rest) out s =
     (case Convert_config_Configuration cv var (assign_conf var c s) of
        Inl err \<Rightarrow> Inl err
      | Inr (newVal, s') \<Rightarrow> convert_clusters_out cv var rest (ginsert key newVal out) s')"

definition alloc_conf :: "store \<Rightarrow> conf_cells \<times> store" where
  "alloc_conf s = (let (a, s1) = alloc '''' s; (b, s2) = alloc '''' s1; (c, s3) = alloc '''' s2
     in (\<lparr>cell_Name = a, cell_KubeMaster = b, cell_KubeConfig = c\<rparr>, s3))"

text \<open>
  The internal arguments are given by the cells of their two strings and the map, as the
  function gets a pointer to them.
\<close>

definition Convert_config_SchedulingArgs ::
    "conversions \<Rightarrow> nat \<Rightarrow> nat \<Rightarrow> (string, Configuration) gomap option \<Rightarrow> store
       \<Rightarrow> go_error + (v1beta1_SchedulingArgs \<times> store)" where
  "Convert_config_SchedulingArgs cv pathCell masterCell clusters s =
     (case string_To_Pointer_string cv s pathCell of
        Inl err \<Rightarrow> Inl err
      | Inr (kp, s1) \<Rightarrow>
     (case string_To_Pointer_string cv s1 masterCell of
        Inl err \<Rightarrow> Inl err
      | Inr (km, s2) \<Rightarrow>
     (case clusters of
        None \<Rightarrow> Inr (\<lparr>v_KubeConfigPath = kp, v_args_KubeMaster = km, v_ClusterConfiguration = None\<rparr>, s2)
      | Some m \<Rightarrow>
          (let (var, s3) = alloc_conf s2 in
           (case convert_clusters_out cv var m gomake s3 of
              Inl err \<Rightarrow> Inl err
            | Inr (m', s4) \<Rightarrow> Inr (\<lparr>v_KubeConfigPath = kp, v_args_KubeMaster = km,
                v_ClusterConfiguration = Some m'\<rparr>, s4))))))"

end
