(* ===== verification/Plugin_New.thy ===== *)
theory Plugin_New
  imports Informer_Laws Topology_Scheduling Config_Args
begin

text \<open>
  \<open>New\<close> of \<open>pkg/topologyscheduling/topology_scheduling.go\<close>: it builds the plugin out of the
  decoded arguments, a client set and the policy informer of a fresh informer factory. What it
  calls outside the repository is the record \<open>new_env\<close>; decoding the raw arguments has
  happened before, with an error or the arguments as its result.
\<close>

record ('c, 'd) new_env =
  new_rest :: rest_env
  new_RESTClientFor :: "rest_config \<Rightarrow> go_error + 'c"
  new_DiscoveryClientForConfig :: "rest_config \<Rightarrow> go_error + 'd"
  new_BuildConfigFromFlags :: "string \<Rightarrow> string \<Rightarrow> go_error + rest_config"
  GetIndexer :: "nat \<Rightarrow> indexer"
  cache_WaitForCacheSync :: "nat \<Rightarrow> bool"
  handle_List :: "go_error + node_info list"
  handle_Get :: "string \<Rightarrow> go_error + node_info option"

definition New ::
    "('c, 'd) new_env \<Rightarrow> go_error + SchedulingArgs \<Rightarrow> (('c, 'd) Clientset, 'o) informer_world
       \<Rightarrow> (go_error + TopologyScheduling) \<times> (('c, 'd) Clientset, 'o) informer_world" where
  "New env obj w =
     (case obj of
        Inl err \<Rightarrow> (Inl (Errorf ''want args to be of type SchedulingArgs''), w)
      | Inr args \<Rightarrow>
     (case new_BuildConfigFromFlags env (args_KubeMaster args) (args_KubeConfigPath args) of
        Inl err \<Rightarrow> (Inl err, w)
      | Inr restConfig \<Rightarrow>
     (case NewForConfig (new_rest env) (new_RESTClientFor env) (new_DiscoveryClientForConfig env) restConfig of
        Inl err \<Rightarrow> (Inl err, w)
      | Inr client \<Rightarrow>
          (let f = NewSharedInformerFactory client 0;
               (lister, f1, w1) = Lister (GetIndexer env) (policy_access f) f w;
               (topologyPolicyInformer, f2, w2) = Informer (policy_access f1) f1 w1;
               (f3, w3) = Start f2 w2
           in if \<not> cache_WaitForCacheSync env topologyPolicyInformer then
                (Inl (Errorf (''timed out waiting for caches to sync '' @ PluginName)), w3)
              else
                (Inr \<lparr>snapshot_List = handle_List env, snapshot_Get = handle_Get env,
                   topologyPolicyLister = lister\<rparr>, w3)))))"

section \<open>Laws\<close>

lemma New_world:
  assumes "New env obj w = (r, w')"
    and "obj = Inr args"
    and "new_BuildConfigFromFlags env (args_KubeMaster args) (args_KubeConfigPath args) = Inr c"
    and "NewForConfig (new_rest env) (new_RESTClientFor env) (new_DiscoveryClientForConfig env) c = Inr client"
  shows "made w' = made w @ [new_informer client] \<and> runs w' = runs w @ [length (made w)]
    \<and> r = (if cache_WaitForCacheSync env (length (made w)) then
             Inr \<lparr>snapshot_List = handle_List env, snapshot_Get = handle_Get env,
               topologyPolicyLister = GetIndexer env (length (made w))\<rparr>
           else Inl (Errorf (''timed out waiting for caches to sync '' @ PluginName)))"
proof -
  define f :: "(('a, 'b) Clientset, 'c) sharedInformerFactory" where "f = NewSharedInformerFactory client 0"
  obtain i f1 w1 where 1: "Informer (policy_access f) f w = (i, f1, w1)" by (cases "Informer (policy_access f) f w")
  note fi = fresh_Informer [OF f_def 1]
  have 2: "Informer (policy_access f1) f1 w1 = (i, f1, w1)" by (rule Informer_again [OF fi(2)])
  obtain f2 w2 where 3: "Start f1 w1 = (f2, w2)" by (cases "Start f1 w1")
  have "w' = w2 \<and> r = (if cache_WaitForCacheSync env i then
             Inr \<lparr>snapshot_List = handle_List env, snapshot_Get = handle_Get env,
               topologyPolicyLister = GetIndexer env i\<rparr>
           else Inl (Errorf (''timed out waiting for caches to sync '' @ PluginName)))"
    using assms 1 2 3 f_def
    by (auto simp del: policy_access_eq simp: New_def Lister_def NewTopologySchedulingPolicyLister_def split: if_splits)
  then show ?thesis using fi one_Start [OF fi(2,3) 3] by simp
qed

lemma New_Inr:
  assumes "New env obj w = (Inr plugin, w')"
  obtains args c client where "obj = Inr args"
    "new_BuildConfigFromFlags env (args_KubeMaster args) (args_KubeConfigPath args) = Inr c"
    "NewForConfig (new_rest env) (new_RESTClientFor env) (new_DiscoveryClientForConfig env) c = Inr client"
  using assms by (auto simp: New_def split: sum.splits)

end
