(* ===== verification/Version.thy ===== *)
theory Version
  imports Prelude
begin

text \<open>
  \<open>cmd/descheduler/app/version.go\<close>: the version command's \<open>splitVersion\<close>, with the functions of
  Go's standard library it uses. A regular expression of the two in the file is a list of
  items, matched with backtracking against the whole string, since both are anchored.
\<close>

section \<open>The standard library\<close>

datatype rx_item = Lit char | One "char \<Rightarrow> bool" | Plus "char \<Rightarrow> bool"

function rx_match :: "rx_item list \<Rightarrow> string \<Rightarrow> bool" where
  "rx_match [] s \<longleftrightarrow> s = []"
| "rx_match (Lit c # r) s \<longleftrightarrow> (case s of [] \<Rightarrow> False | x # xs \<Rightarrow> x = c \<and> rx_match r xs)"
| "rx_match (One p # r) s \<longleftrightarrow> (case s of [] \<Rightarrow> False | x # xs \<Rightarrow> p x \<and> rx_match r xs)"
| "rx_match (Plus p # r) s \<longleftrightarrow>
     (case s of [] \<Rightarrow> False | x # xs \<Rightarrow> p x \<and> (rx_match r xs \<or> rx_match (Plus p # r) xs))"
  by pat_completeness auto
termination by (relation "measure (\<lambda>(r, s). length s + length r)") auto

definition is_digit :: "char \<Rightarrow> bool" where
  "is_digit c \<longleftrightarrow> c \<in> set ''0123456789''"

definition is_word :: "char \<Rightarrow> bool" where
  "is_word c \<longleftrightarrow> c \<in> set ''0123456789ABCDEFGHIJKLMNOPQRSTUVWXYZ_abcdefghijklmnopqrstuvwxyz''"

text \<open>\<open>strings.Split\<close> for a separator of one character, \<open>strings.Trim\<close> for a cutset of one.\<close>

fun strings_Split :: "string \<Rightarrow> char \<Rightarrow> string list" where
  "strings_Split [] c = [[]]"
| "strings_Split (x # xs) c =
     (if x = c then [] # strings_Split xs c
      else (case strings_Split xs c of [] \<Rightarrow> [[x]] | p # ps \<Rightarrow> (x # p) # ps))"

definition strings_Trim :: "string \<Rightarrow> char \<Rightarrow> string" where
  "strings_Trim s c = rev (dropWhile (\<lambda>x. x = c) (rev (dropWhile (\<lambda>x. x = c) s)))"

text \<open>\<open>xs[i]\<close> of a slice.\<close>

definition go_index :: "'a list \<Rightarrow> nat \<Rightarrow> 'a go" where
  "go_index xs i = (if i < length xs then Ret (xs ! i) else Panic IndexOutOfRange)"

section \<open>splitVersion\<close>

definition tag_pattern :: "rx_item list" where
  "tag_pattern = [Lit (CHR ''v'')] @ replicate 8 (One is_digit) @ [Lit (CHR ''-''), Lit (CHR ''v''), Plus is_digit,
     Lit (CHR ''.''), Plus is_digit, Lit (CHR ''.''), Plus is_digit]"

definition commit_pattern :: "rx_item list" where
  "commit_pattern = tag_pattern @ [Lit (CHR ''-''), Plus is_word, Lit (CHR ''-''), Plus is_word]"

definition splitVersion :: "string \<Rightarrow> (string \<times> string) go" where
  "splitVersion version =
     (if version = '''' then Ret ('''', '''')
      else (let m1 = rx_match tag_pattern version; m2 = rx_match commit_pattern version in
        if m1 \<or> m2 then
          go_bind (go_index (strings_Split version (CHR ''-'')) 1) (\<lambda>semVer.
          go_bind (go_index (strings_Split semVer (CHR ''.'')) 0) (\<lambda>major.
          go_bind (go_index (strings_Split semVer (CHR ''.'')) 1) (\<lambda>minor.
            Ret (strings_Trim major (CHR ''v''), minor @ ''+''))))
        else Ret ('''', '''')))"

text \<open>\<open>Get\<close>: the build variables and the run-time values are arguments.\<close>

record Info =
  Major :: string
  Minor :: string
  GitVersion :: string
  BuildDate :: string
  GoVersion :: string
  Compiler :: string
  Platform :: string

definition Get :: "string \<Rightarrow> string \<Rightarrow> string \<Rightarrow> string \<Rightarrow> string \<Rightarrow> string \<Rightarrow> Info go" where
  "Get version buildDate goVersion compiler goos goarch =
     go_bind (splitVersion version) (\<lambda>(majorVersion, minorVersion).
       Ret \<lparr>Major = majorVersion, Minor = minorVersion, GitVersion = version, BuildDate = buildDate,
         GoVersion = goVersion, Compiler = compiler, Platform = goos @ ''/'' @ goarch\<rparr>)"

text \<open>
  \<open>NewVersionCommand\<close>: the texts of the command and what running it prints, \<open>%+v\<close> of a struct
  with string fields.
\<close>

record version_command =
  Use :: string
  Short :: string
  Long :: string
  cmd_Run :: "Info go \<Rightarrow> string go"

definition plus_v :: "Info \<Rightarrow> string" where
  "plus_v i = ''{Major:'' @ Major i @ '' Minor:'' @ Minor i @ '' GitVersion:'' @ GitVersion i
     @ '' BuildDate:'' @ BuildDate i @ '' GoVersion:'' @ GoVersion i @ '' Compiler:'' @ Compiler i
     @ '' Platform:'' @ Platform i @ ''}''"

definition NewVersionCommand :: version_command where
  "NewVersionCommand = \<lparr>Use = ''version'', Short = ''Version of descheduler'',
     Long = ''Prints the version of descheduler.'',
     cmd_Run = (\<lambda>get. go_bind get (\<lambda>i. Ret (''Descheduler version '' @ plus_v i @ [CHR 0x0A])))\<rparr>"

section \<open>Which strings match\<close>

lemma rx_match_ones:
  "rx_match (replicate n (One p) @ r) s \<longleftrightarrow>
     n \<le> length s \<and> list_all p (take n s) \<and> rx_match r (drop n s)"
proof (induction n arbitrary: s)
  case (Suc n)
  then show ?case by (cases s) auto
qed simp

lemma rx_ones_I:
  "length d = n \<Longrightarrow> list_all p d \<Longrightarrow> rx_match r t \<Longrightarrow> rx_match (replicate n (One p) @ r) (d @ t)"
  by (simp add: rx_match_ones)

lemma rx_ones_E:
  assumes "rx_match (replicate n (One p) @ r) s"
  obtains d t where "s = d @ t" "length d = n" "list_all p d" "rx_match r t"
  using assms that [of "take n s" "drop n s"] by (simp add: rx_match_ones)

lemma rx_lit_I: "rx_match r t \<Longrightarrow> rx_match (Lit c # r) (c # t)"
  by simp

lemma rx_lit_E:
  assumes "rx_match (Lit c # r) s"
  obtains t where "s = c # t" "rx_match r t"
  using assms by (cases s) auto

lemma rx_plus_I:
  "d \<noteq> [] \<Longrightarrow> list_all p d \<Longrightarrow> rx_match r t \<Longrightarrow> rx_match (Plus p # r) (d @ t)"
proof (induction d)
  case (Cons x d)
  then show ?case by (cases "d = []") auto
qed simp

lemma rx_plus_E:
  assumes "rx_match (Plus p # r) s"
  obtains d t where "s = d @ t" "d \<noteq> []" "list_all p d" "rx_match r t"
  using assms
proof (induction s arbitrary: thesis)
  case (Cons x xs)
  then have px: "p x" and "rx_match r xs \<or> rx_match (Plus p # r) xs" by simp_all
  then show ?case
  proof (elim disjE)
    assume "rx_match r xs"
    then show ?thesis using Cons.prems(1) [of "[x]" xs] px by simp
  next
    assume "rx_match (Plus p # r) xs"
    then obtain d t where "xs = d @ t" "d \<noteq> []" "list_all p d" "rx_match r t" using Cons.IH by blast
    then show ?thesis using Cons.prems(1) [of "x # d" t] px by simp
  qed
qed simp

definition digits :: "string \<Rightarrow> bool" where
  "digits s \<longleftrightarrow> s \<noteq> [] \<and> list_all is_digit s"

definition word :: "string \<Rightarrow> bool" where
  "word s \<longleftrightarrow> s \<noteq> [] \<and> list_all is_word s"

text \<open>A build version: date, semantic version and, between tags, a commit count and a hash.\<close>

definition build_version :: "string \<Rightarrow> string \<Rightarrow> string \<Rightarrow> string \<Rightarrow> string \<Rightarrow> string" where
  "build_version date major minor patch suffix =
     ''v'' @ date @ ''-v'' @ major @ ''.'' @ minor @ ''.'' @ patch @ suffix"

definition build_parts :: "string \<Rightarrow> string \<Rightarrow> string \<Rightarrow> string \<Rightarrow> bool" where
  "build_parts date major minor patch \<longleftrightarrow>
     length date = 8 \<and> list_all is_digit date \<and> digits major \<and> digits minor \<and> digits patch"

definition commit_suffix :: "string \<Rightarrow> bool" where
  "commit_suffix sfx \<longleftrightarrow> (\<exists>n h. sfx = ''-'' @ n @ ''-'' @ h \<and> word n \<and> word h)"

lemmas rx_intros = rx_lit_I rx_ones_I rx_plus_I

text \<open>\<open>r\<close> are the items after the semantic version.\<close>

lemma version_match:
  "rx_match (tag_pattern @ r) v \<longleftrightarrow>
     (\<exists>date major minor patch sfx. v = build_version date major minor patch sfx
        \<and> build_parts date major minor patch \<and> rx_match r sfx)"
proof
  assume "rx_match (tag_pattern @ r) v"
  then show "\<exists>date major minor patch sfx. v = build_version date major minor patch sfx
      \<and> build_parts date major minor patch \<and> rx_match r sfx"
    unfolding tag_pattern_def append_assoc append_Cons append_Nil
    by (elim rx_lit_E rx_ones_E rx_plus_E, hypsubst,
        unfold build_version_def build_parts_def digits_def append_Cons append_Nil)
       (intro exI conjI, rule refl, assumption+)
next
  assume "\<exists>date major minor patch sfx. v = build_version date major minor patch sfx
      \<and> build_parts date major minor patch \<and> rx_match r sfx"
  then show "rx_match (tag_pattern @ r) v"
    unfolding tag_pattern_def append_assoc append_Cons append_Nil build_version_def build_parts_def digits_def
    by (elim exE conjE) (simp only: append_Cons append_Nil, intro rx_intros; assumption)
qed

definition suffix_pattern :: "rx_item list" where
  "suffix_pattern = [Lit (CHR ''-''), Plus is_word, Lit (CHR ''-''), Plus is_word]"

lemma suffix_match: "rx_match suffix_pattern sfx \<longleftrightarrow> commit_suffix sfx"
proof
  assume "rx_match suffix_pattern sfx"
  then show "commit_suffix sfx"
    unfolding suffix_pattern_def by (elim rx_lit_E rx_plus_E) (auto simp: commit_suffix_def word_def)
next
  assume "commit_suffix sfx"
  then obtain n h where "sfx = CHR ''-'' # n @ CHR ''-'' # h @ []" "word n" "word h"
    by (auto simp: commit_suffix_def)
  then show "rx_match suffix_pattern sfx"
    unfolding word_def suffix_pattern_def by (elim conjE) (simp only:, intro rx_intros; simp)
qed

text \<open>The strings that \<open>splitVersion\<close> takes apart.\<close>

definition is_build_version :: "string \<Rightarrow> string \<Rightarrow> string \<Rightarrow> string \<Rightarrow> string \<Rightarrow> string \<Rightarrow> bool" where
  "is_build_version date major minor patch sfx v \<longleftrightarrow>
     v = build_version date major minor patch sfx \<and> build_parts date major minor patch
     \<and> (if sfx = '''' then True else commit_suffix sfx)"

lemma ex_disj_last:
  "(\<exists>a b c d s. P a b c d s \<and> Q a b c d \<and> R s) \<or> (\<exists>a b c d s. P a b c d s \<and> Q a b c d \<and> S s)
     \<longleftrightarrow> (\<exists>a b c d s. P a b c d s \<and> Q a b c d \<and> (R s \<or> S s))"
  by blast

lemma patterns_match:
  "rx_match tag_pattern v \<or> rx_match commit_pattern v \<longleftrightarrow>
     (\<exists>date major minor patch sfx. is_build_version date major minor patch sfx v)"
proof -
  have c: "commit_pattern = tag_pattern @ suffix_pattern" by (simp add: commit_pattern_def suffix_pattern_def)
  have d: "(if sfx = '''' then True else commit_suffix sfx) \<longleftrightarrow> sfx = '''' \<or> commit_suffix sfx" for sfx
    by simp
  show ?thesis
    unfolding c is_build_version_def d version_match [of "[]" v, unfolded append_Nil2 rx_match.simps(1)]
      version_match [of suffix_pattern v, unfolded suffix_match]
    by (rule ex_disj_last)
qed

section \<open>Taking a version apart\<close>

lemma strings_Split_append:
  "c \<notin> set a \<Longrightarrow> strings_Split (a @ c # s) c = a # strings_Split s c"
  by (induction a) auto

lemma strings_Split_last: "c \<notin> set a \<Longrightarrow> strings_Split a c = [a]"
  by (induction a) auto

lemma not_is_digit: "\<not> is_digit (CHR ''-'')" "\<not> is_digit (CHR ''.'')" "\<not> is_digit (CHR ''v'')"
  by (simp_all add: is_digit_def)

lemma digits_free:
  "list_all is_digit d \<Longrightarrow> CHR ''-'' \<notin> set d \<and> CHR ''.'' \<notin> set d \<and> CHR ''v'' \<notin> set d"
  using not_is_digit unfolding list_all_iff by blast

lemma dropWhile_free: "c \<notin> set d \<Longrightarrow> dropWhile (\<lambda>x. x = c) d = d"
  by (cases d) auto

lemma strings_Trim_v: "c \<notin> set d \<Longrightarrow> strings_Trim (c # d) c = d"
  by (simp add: strings_Trim_def dropWhile_free)

text \<open>The semantic version is the second field whatever follows it.\<close>

lemma build_version_fields:
  assumes "is_build_version date major minor patch sfx v"
  shows "go_index (strings_Split v (CHR ''-'')) 1 = Ret (''v'' @ major @ ''.'' @ minor @ ''.'' @ patch)"
proof -
  define sem where "sem = ''v'' @ major @ ''.'' @ minor @ ''.'' @ patch"
  have v: "v = (''v'' @ date) @ CHR ''-'' # sem @ sfx"
    using assms by (simp add: is_build_version_def build_version_def sem_def)
  have free: "CHR ''-'' \<notin> set (''v'' @ date)" "CHR ''-'' \<notin> set sem"
    using assms digits_free by (auto simp: is_build_version_def build_parts_def digits_def sem_def)
  have "\<exists>rest. strings_Split (sem @ sfx) (CHR ''-'') = sem # rest"
  proof (cases "sfx = ''''")
    case True
    then show ?thesis using strings_Split_last [OF free(2)] by simp
  next
    case False
    then obtain t where "sfx = CHR ''-'' # t" using assms by (auto simp: is_build_version_def commit_suffix_def)
    then show ?thesis using strings_Split_append [OF free(2)] by blast
  qed
  then obtain rest where "strings_Split v (CHR ''-'') = (''v'' @ date) # sem # rest"
    unfolding v strings_Split_append [OF free(1)] by blast
  then show ?thesis by (simp add: go_index_def sem_def)
qed

lemma splitVersion_build:
  assumes "is_build_version date major minor patch sfx v"
  shows "splitVersion v = Ret (major, minor @ ''+'')"
proof -
  have m: "rx_match tag_pattern v \<or> rx_match commit_pattern v" using assms patterns_match by blast
  have ne: "v \<noteq> ''''" using assms by (auto simp: is_build_version_def build_version_def)
  have d: "list_all is_digit major" "list_all is_digit minor"
    using assms by (simp_all add: is_build_version_def build_parts_def digits_def)
  have free: "CHR ''.'' \<notin> set (''v'' @ major)" "CHR ''.'' \<notin> set minor" using digits_free d by auto
  have split: "strings_Split (''v'' @ major @ ''.'' @ minor @ ''.'' @ patch) (CHR ''.'')
      = (''v'' @ major) # minor # strings_Split patch (CHR ''.'')"
    using strings_Split_append [OF free(1), of "minor @ CHR ''.'' # patch"]
      strings_Split_append [OF free(2), of patch] by simp
  have trim: "strings_Trim (''v'' @ major) (CHR ''v'') = major"
    using strings_Trim_v digits_free d by simp
  show ?thesis
    unfolding splitVersion_def Let_def build_version_fields [OF assms] go_bind.simps split
    using m ne trim by (simp add: go_index_def)
qed

lemma splitVersion_other:
  assumes "\<nexists>date major minor patch sfx. is_build_version date major minor patch sfx v"
  shows "splitVersion v = Ret ('''', '''')"
  using assms patterns_match [of v] by (simp add: splitVersion_def Let_def)

end
