(* ===== verification/Process_Properties.thy ===== *)
theory Process_Properties
  imports Descheduler_Settles Descheduler_Properties Plugin_New Version
begin

text \<open>
  The properties of the processes around the scheduling logic: the informer factory, the
  construction of the plugin, the descheduler loop and its version command.
\<close>

section \<open>Informers\<close>

text \<open>
  C39. Every informer runs exactly once. However the calls of \<open>InformerFor\<close> and \<open>Start\<close> on a new
  factory are interleaved, after a \<open>Start\<close> each registered informer has been run, none twice;
  a further \<open>Start\<close> does nothing, and \<open>WaitForCacheSync\<close> reports on all registered informers.
\<close>

theorem informers_run_once:
  assumes "fresh_factory f0" "factory_run f0 f w" "Start f w = (f', w')"
  shows "distinct (runs w') \<and> set (runs w') = snd ` set (informers f') \<and> informers f' = informers f
    \<and> Start f' w' = (f', w')
    \<and> (\<forall>t. glookup (WaitForCacheSync synced f') t = map_option synced (glookup (informers f') t))"
proof -
  have inv: "factory_inv f w" using factory_run_inv assms(1,2) by blast
  then have ok: "gmap_ok (informers f)" by (simp add: factory_inv_def)
  note inv' = Start_inv [OF inv assms(3)]
  have "glookup (WaitForCacheSync synced f') t = map_option synced (glookup (informers f') t)" for t
  proof (cases "t \<in> fst ` set (informers f)")
    case True
    then show ?thesis
      using WaitForCacheSync_lookup [of f' synced t] Start_spec [OF ok assms(3)] ok by simp
  next
    case False
    then have "glookup (informers f') t = None"
      using Start_spec(1) [OF ok assms(3)] by (metis domIff gkeys_def set_gkeys set_map)
    then show ?thesis
      using WaitForCacheSync_lookup [of f' synced t] Start_spec(1) [OF ok assms(3)] ok by simp
  qed
  then show ?thesis
    using inv' Start_spec(1) [OF ok assms(3)] Start_idem [OF inv assms(3)] by (simp add: factory_inv_def)
qed

definition sample_factory :: "(unit, unit) sharedInformerFactory" where
  "sample_factory = NewSharedInformerFactory () 0"

theorem informers_run_once_witness:
  "\<exists>f w f' w'. factory_run sample_factory f w \<and> map fst (informers f) = [policy_type] \<and> Start f w = (f', w')
    \<and> distinct (runs w') \<and> set (runs w') = snd ` set (informers f')"
proof -
  obtain i f1 w1 where 1: "Informer (policy_access sample_factory) sample_factory no_informers = (i, f1, w1)"
    by (cases "Informer (policy_access sample_factory) sample_factory no_informers")
  have run: "factory_run sample_factory f1 w1"
    using factory_run.get [OF factory_run.start 1 [unfolded Informer_def defaultInformer_makes]] .
  have inf: "map fst (informers f1) = [policy_type]"
    using fresh_Informer [OF sample_factory_def 1] by simp
  obtain f2 w2 where 2: "Start f1 w1 = (f2, w2)" by (cases "Start f1 w1")
  have fresh: "fresh_factory sample_factory"
    by (simp add: fresh_factory_def sample_factory_def NewSharedInformerFactory_def
        NewSharedInformerFactoryWithOptions_def)
  from informers_run_once [OF fresh run 2, of "\<lambda>_. True"] run inf 2 show ?thesis by metis
qed

section \<open>The plugin\<close>

text \<open>
  C33. A plugin that \<open>New\<close> returns is wired to a live informer: exactly one informer was made,
  for the client set of the given arguments and for the policies of all namespaces; it was
  started once and has synced; and the policy lister of the plugin reads this informer's store.
\<close>

theorem new_plugin_wired:
  assumes "New env obj w = (Inr plugin, w')"
  shows "\<exists>args c client. obj = Inr args
    \<and> new_BuildConfigFromFlags env (args_KubeMaster args) (args_KubeConfigPath args) = Inr c
    \<and> NewForConfig (new_rest env) (new_RESTClientFor env) (new_DiscoveryClientForConfig env) c = Inr client
    \<and> made w' = made w @ [new_informer client] \<and> runs w' = runs w @ [length (made w)]
    \<and> cache_WaitForCacheSync env (length (made w))
    \<and> topologyPolicyLister plugin = GetIndexer env (length (made w))
    \<and> (\<forall>lo opts. rq_namespace (ListFunc lo (last (made w')) opts) = NamespaceAll)"
proof -
  obtain args c client where g: "obj = Inr args"
      "new_BuildConfigFromFlags env (args_KubeMaster args) (args_KubeConfigPath args) = Inr c"
      "NewForConfig (new_rest env) (new_RESTClientFor env) (new_DiscoveryClientForConfig env) c = Inr client"
    using New_Inr [OF assms] by metis
  have "rq_namespace (ListFunc lo (new_informer client) opts) = NamespaceAll" for lo opts
    by (simp add: ListFunc_def tc_List_def base_request_def newTopologySchedulingPolicies_def new_informer_def)
  then show ?thesis using New_world [OF assms g] g by (auto split: if_splits)
qed

definition sample_rest :: rest_env where
  "sample_rest = \<lparr>DefaultKubernetesUserAgent = ''agent'', WithoutConversion = ''codec'',
     NewTokenBucketRateLimiter = Pair\<rparr>"

definition sample_config :: "string \<Rightarrow> rest_config" where
  "sample_config host = \<lparr>Host = host, QPS = 5, Burst = 10, RateLimiter = None, GroupVersion = None, APIPath = '''',
     Serializer = '''', UserAgent = '''', ContentType = '''', AcceptContentTypes = '''', Timeout = 0\<rparr>"

definition sample_new_env :: "(rest_config, rest_config) new_env" where
  "sample_new_env = \<lparr>new_rest = sample_rest, new_RESTClientFor = Inr, new_DiscoveryClientForConfig = Inr,
     new_BuildConfigFromFlags = (\<lambda>master path. Inr (sample_config master)), GetIndexer = (\<lambda>_. sample_idx),
     cache_WaitForCacheSync = (\<lambda>_. True), handle_List = Inr [], handle_Get = (\<lambda>_. Inr None)\<rparr>"

definition sample_args :: SchedulingArgs where
  "sample_args = \<lparr>args_KubeConfigPath = ''/etc/kube'', args_KubeMaster = ''https://master'', ClusterConfiguration = None\<rparr>"

theorem new_plugin_wired_witness:
  "\<exists>plugin w'. New sample_new_env (Inr sample_args) (no_informers :: (_, unit) informer_world) = (Inr plugin, w')
    \<and> runs w' = [0] \<and> topologyPolicyLister plugin = sample_idx"
proof -
  obtain client where c: "NewForConfig sample_rest Inr Inr (sample_config ''https://master'') = Inr client"
    by (simp add: NewForConfig_def SchedulingV1alpha1_NewForConfig_def sample_config_def Let_def)
  obtain r w' where run: "New sample_new_env (Inr sample_args) (no_informers :: (_, unit) informer_world) = (r, w')"
    by (cases "New sample_new_env (Inr sample_args) (no_informers :: (_, unit) informer_world)")
  have "cache_WaitForCacheSync sample_new_env n" for n by (simp add: sample_new_env_def)
  then obtain plugin where r: "r = Inr plugin"
    using New_world [OF run refl, of "sample_config ''https://master''" client] c
    by (simp add: sample_new_env_def sample_args_def)
  from new_plugin_wired [OF run [unfolded r]] run r show ?thesis
    by (auto simp: no_informers_def sample_new_env_def)
qed

section \<open>The version command\<close>

text \<open>
  C40. \<open>splitVersion\<close> never panics, and it takes exactly the build versions apart: it gives back
  major and minor number (the latter with a plus sign) of every string of the form date,
  semantic version and optional commit suffix, and two empty strings for every other string.
\<close>

theorem splitVersion_spec:
  "splitVersion v = Ret (a, b) \<longleftrightarrow>
     (if \<exists>date major minor patch sfx. is_build_version date major minor patch sfx v
      then \<exists>date minor patch sfx. is_build_version date a minor patch sfx v \<and> b = minor @ ''+''
      else a = '''' \<and> b = '''')"
proof (cases "\<exists>date major minor patch sfx. is_build_version date major minor patch sfx v")
  case True
  then obtain date major minor patch sfx where v: "is_build_version date major minor patch sfx v" by blast
  have "is_build_version date' a minor' patch' sfx' v \<Longrightarrow> b = minor' @ ''+'' \<Longrightarrow> a = major \<and> b = minor @ ''+''"
    for date' minor' patch' sfx'
    using splitVersion_build [OF v] splitVersion_build [of date' a minor' patch' sfx' v] by simp
  then show ?thesis using splitVersion_build [OF v] v True by auto
next
  case False
  show ?thesis unfolding splitVersion_other [OF False] using False by auto
qed

theorem splitVersion_spec_witness:
  "splitVersion ''v20201009-v0.18.0-46-g939c1c0'' = Ret (''0'', ''18+'')"
proof -
  have "commit_suffix ''-46-g939c1c0''"
    unfolding commit_suffix_def word_def
    by (rule exI [of _ "''46''"], rule exI [of _ "''g939c1c0''"]) (simp add: is_word_def)
  then have v: "is_build_version ''20201009'' ''0'' ''18'' ''0'' ''-46-g939c1c0'' ''v20201009-v0.18.0-46-g939c1c0''"
    by (simp add: is_build_version_def build_version_def build_parts_def digits_def is_digit_def)
  have ex: "\<exists>date major minor patch sfx. is_build_version date major minor patch sfx ''v20201009-v0.18.0-46-g939c1c0''"
    using v by blast
  have "\<exists>date minor patch sfx. is_build_version date ''0'' minor patch sfx ''v20201009-v0.18.0-46-g939c1c0''
      \<and> ''18+'' = minor @ ''+''"
    using v by (intro exI conjI) simp_all
  then show ?thesis unfolding splitVersion_spec if_P [OF ex] .
qed

section \<open>The descheduler process\<close>

text \<open>
  C17. The descheduler returns. Once the clients, the policy file and the eviction API are there,
  \<open>Run\<close> makes one iteration if no interval is set, and otherwise iterates until the ready nodes
  cannot be listed or are fewer than two; it then returns nil, having closed its stop channel
  once, with the one policy informer it started. (Panics of strategies are excluded: the other
  strategies are assumed not to panic, and the policies to have no negative replicas.)
\<close>

theorem descheduler_returns:
  fixes w :: run_world
  assumes "run_starts env rs kc tc policy gv" "wait_loop (wait_Until env) stop_closed"
    and "run_ok env (run_GetIndexer env (length (made (policy_informers w))))"
    and "\<forall>j<n. usable env (with_clients rs kc tc) policy (iterations w + j)"
    and "n = 0 \<or> DeschedulingInterval rs \<noteq> 0"
    and "DeschedulingInterval rs = 0 \<or> \<not> usable env (with_clients rs kc tc) policy (iterations w + n)"
  shows "\<exists>w'. Run env rs w = Some (w', Returned None) \<and> stop_closed w' \<and> iterations w' = iterations w + Suc n
    \<and> runs (policy_informers w') = runs (policy_informers w) @ [length (made (policy_informers w))]"
proof -
  let ?rs = "with_clients rs kc tc" and ?l = "run_GetIndexer env (length (made (policy_informers w)))"
  have int: "DeschedulingInterval ?rs = DeschedulingInterval rs" by (simp add: with_clients_def)
  define w1 where "w1 = w\<lparr>stop_closed := False\<rparr>"
  have w1: "stop_closed w1 = False" "iterations w1 = iterations w" "policy_informers w1 = policy_informers w"
    by (simp_all add: w1_def)
  obtain w0 where w0: "policy_informers w0
        = \<lparr>made = made (policy_informers w1) @ [new_informer (TopologySchedulingClient ?rs)],
           runs = runs (policy_informers w1) @ [length (made (policy_informers w1))]\<rparr>"
      "stop_closed w0 = stop_closed w1" "iterations w0 = iterations w1"
      "RunDeschedulerStrategies env ?rs policy gv w1 =
      (case wait_Until env (deschedule env ?rs policy gv (run_GetIndexer env (length (made (policy_informers w1)))))
           (DeschedulingInterval ?rs) w0 of
         None \<Rightarrow> None
       | Some (w', None) \<Rightarrow> Some (w', Returned None)
       | Some (w', Some p) \<Rightarrow> Some (w', Panicked p))"
    by (rule RunDeschedulerStrategies_unfold)
  have "\<exists>w'. wait_Until env (deschedule env ?rs policy gv ?l) (DeschedulingInterval ?rs) w0 = Some (w', None)
      \<and> stop_closed w' \<and> iterations w' = iterations w0 + Suc n \<and> policy_informers w' = policy_informers w0"
    using assms(4-6) w0(2,3) w1 by (intro wait_Until_returns [OF assms(2,3)]) (simp_all add: int)
  then obtain w' where w': "wait_Until env (deschedule env ?rs policy gv ?l) (DeschedulingInterval ?rs) w0 = Some (w', None)"
      "stop_closed w'" "iterations w' = iterations w0 + Suc n" "policy_informers w' = policy_informers w0" by blast
  have "Run env rs w = Some (w', Returned None)"
    using Run_starts [OF assms(1), of w] w0(4) w'(1) by (simp add: w1_def)
  then show ?thesis using w' w0 w1 by simp
qed

text \<open>Three iterations of a five minute loop; before the third, one of the two nodes is lost.\<close>

definition sample_policy :: DeschedulerPolicy where
  "sample_policy = \<lparr>Strategies = [(''RemovePodsViolatingTopologySchedulingPolicy'', \<lparr>Enabled = True, Params = ''''\<rparr>),
       (''PodLifeTime'', \<lparr>Enabled = False, Params = ''''\<rparr>)],
     pol_NodeSelector = Some ''pool=a'', pol_EvictLocalStoragePods = None, pol_MaxNoOfPodsToEvictPerNode = Some 3\<rparr>"

definition sample_run_env :: run_env where
  "sample_run_env = \<lparr>client_CreateClient = Inr, GetMasterFromKubeconfig = Inr,
     run_BuildConfigFromFlags = (\<lambda>master path. Inr (sample_config master)), InClusterConfig = Inr (sample_config ''in''),
     run_rest = sample_rest, run_RESTClientFor = Inr, run_DiscoveryClientForConfig = Inr,
     LoadPolicyConfig = (\<lambda>_. Inr (Some sample_policy)), SupportEviction = (\<lambda>_. Inr ''policy/v1beta1''),
     ReadyNodes = (\<lambda>k client selector. Inr (if k < 2 then cluster_nodes else [sample_node ''n1'' ''a''])),
     range_funcs = (\<lambda>k xs. rev xs), other_strategy = (\<lambda>name strategy nodes evictor tr. (tr, None)),
     strategy_env = (\<lambda>k. small_env cluster_pods), run_GetIndexer = (\<lambda>i k. skewed_idx), run_HasSynced = (\<lambda>i. True), wait_Until = go_Until\<rparr>"

definition sample_server :: DeschedulerServer where
  "sample_server = \<lparr>KubeconfigFile = ''/etc/kube'', PolicyConfigFile = ''/etc/policy'', DryRun = False,
     rs_NodeSelector = '''', MaxNoOfPodsToEvictPerNode = 0, EvictLocalStoragePods = False,
     DeschedulingInterval = 300000000000, Client = None, TopologySchedulingClient = None\<rparr>"

definition sample_world :: run_world where
  "sample_world = \<lparr>stop_closed = False, iterations = 0, run_events = [], run_evictions = [],
     policy_informers = no_informers\<rparr>"

lemma sample_run_ok: "run_ok sample_run_env (run_GetIndexer sample_run_env i)"
proof -
  have "int (length items) < 2 ^ 31"
    if "list_pods (small_env cluster_pods) tr ns fmt = Inr items" for tr ns fmt items
  proof -
    have "length items \<le> length cluster_pods" using that by (auto simp: small_env_def)
    then show ?thesis by (simp add: cluster_pods_def)
  qed
  moreover have "ns_List (TopologySchedulingPolicies skewed_idx NamespaceAll) Everything = ([skewed_tsp], None)"
    by (simp add: skewed_idx_def)
  ultimately show ?thesis
    using skewed_nonneg unfolding run_ok_def range_ok_def by (fastforce simp: sample_run_env_def)
qed

lemma sample_run_starts:
  obtains tc where "run_starts sample_run_env sample_server ''/etc/kube'' tc sample_policy ''policy/v1beta1''"
proof -
  obtain tc where "CreateClient sample_run_env ''/etc/kube'' = Inr tc"
    by (simp add: CreateClient_def sample_run_env_def NewForConfig_def SchedulingV1alpha1_NewForConfig_def
        sample_config_def Let_def)
  then show ?thesis using that by (simp add: run_starts_def sample_server_def sample_run_env_def)
qed

theorem descheduler_returns_witness:
  "\<exists>w'. Run sample_run_env sample_server sample_world = Some (w', Returned None) \<and> stop_closed w'
    \<and> iterations w' = 3 \<and> runs (policy_informers w') = [0]"
proof -
  obtain tc where tc: "run_starts sample_run_env sample_server ''/etc/kube'' tc sample_policy ''policy/v1beta1''"
    by (rule sample_run_starts)
  have lp: "wait_loop (wait_Until sample_run_env) stop_closed"
    using lp.wait_loop_axioms by (simp add: sample_run_env_def)
  have us: "usable sample_run_env (with_clients sample_server ''/etc/kube'' tc) sample_policy k \<longleftrightarrow> k < 2" for k
    by (simp add: usable_def sample_run_env_def cluster_nodes_def)
  from descheduler_returns [OF tc lp sample_run_ok, of 2 sample_world] show ?thesis
    unfolding us by (simp add: sample_world_def sample_server_def no_informers_def)
qed

text \<open>
  C18. What an iteration does. With at least two ready nodes under the node selector in force, it
  calls every enabled strategy of the nine it knows exactly once, each with the same nodes and
  an evictor that carries the limits in force, and nothing else. Selector, limit and local
  storage flag in force are those of the policy file where it sets them. It leaves the stop
  channel open exactly when an interval is set.
\<close>

theorem iteration_runs_enabled:
  assumes "ReadyNodes env (iterations w) (Client rs) (nodeSelector rs policy) = Inr nodes" "1 < length nodes"
    and "run_ok env l" "\<not> stop_closed w"
  shows "\<exists>w' names. deschedule env rs policy gv l w = (w', None)
    \<and> distinct names \<and> set names = {n \<in> set strategy_names. Enabled (strategy_of policy n)}
    \<and> run_events w' = run_events w @ CallReadyNodes (nodeSelector rs policy)
        # map (\<lambda>n. CallStrategy n (strategy_of policy n) nodes
            \<lparr>pe_client = Client rs, pe_policyGroupVersion = gv, pe_dryRun = DryRun rs,
             pe_maxPodsToEvict = (case pol_MaxNoOfPodsToEvictPerNode policy of
               Some m \<Rightarrow> m | None \<Rightarrow> MaxNoOfPodsToEvictPerNode rs),
             pe_nodes = nodes,
             pe_evictLocalStoragePods = (case pol_EvictLocalStoragePods policy of
               Some b \<Rightarrow> b | None \<Rightarrow> EvictLocalStoragePods rs)\<rparr>) names
    \<and> nodeSelector rs policy = (case pol_NodeSelector policy of Some s \<Rightarrow> s | None \<Rightarrow> rs_NodeSelector rs)
    \<and> iterations w' = Suc (iterations w) \<and> stop_closed w' = (DeschedulingInterval rs = 0)"
  using deschedule_usable [OF assms, of gv]
  unfolding NewPodEvictor_def maxNoOfPodsToEvictPerNode_def evictLocalStoragePods_def
    nodeSelector_def [of rs policy, symmetric]
  by blast

theorem iteration_runs_enabled_witness:
  "\<exists>w' evictor. deschedule sample_run_env sample_server sample_policy ''policy/v1beta1'' (\<lambda>k. skewed_idx) sample_world = (w', None)
    \<and> run_events w' = [CallReadyNodes ''pool=a'',
        CallStrategy ''RemovePodsViolatingTopologySchedulingPolicy'' \<lparr>Enabled = True, Params = ''''\<rparr> cluster_nodes evictor]
    \<and> pe_maxPodsToEvict evictor = 3 \<and> \<not> stop_closed w'"
proof -
  have sel: "nodeSelector sample_server sample_policy = ''pool=a''"
    by (simp add: nodeSelector_def sample_policy_def)
  have nodes: "ReadyNodes sample_run_env (iterations sample_world) (Client sample_server)
      (nodeSelector sample_server sample_policy) = Inr cluster_nodes" "1 < length cluster_nodes"
    by (simp_all add: sample_run_env_def sample_world_def cluster_nodes_def)
  have ok: "run_ok sample_run_env (\<lambda>k. skewed_idx)"
    using sample_run_ok [of 0] by (simp add: sample_run_env_def)
  have on: "{n \<in> set strategy_names. Enabled (strategy_of sample_policy n)}
      = {''RemovePodsViolatingTopologySchedulingPolicy''}"
    by (auto simp: strategy_of_def sample_policy_def glookup_def strategy_names_def split: if_splits)
  have single: "names = [x]" if "distinct names" "set names = {x}" for names and x :: string
    using that by (cases names; cases "tl names") auto
  obtain w' names where it:
      "deschedule sample_run_env sample_server sample_policy ''policy/v1beta1'' (\<lambda>k. skewed_idx) sample_world = (w', None)"
      "distinct names" "set names = {''RemovePodsViolatingTopologySchedulingPolicy''}"
      "stop_closed w' = (DeschedulingInterval sample_server = 0)"
      "run_events w' = run_events sample_world @ CallReadyNodes (nodeSelector sample_server sample_policy)
        # map (\<lambda>n. CallStrategy n (strategy_of sample_policy n) cluster_nodes
            \<lparr>pe_client = Client sample_server, pe_policyGroupVersion = ''policy/v1beta1'', pe_dryRun = DryRun sample_server,
             pe_maxPodsToEvict = (case pol_MaxNoOfPodsToEvictPerNode sample_policy of
               Some m \<Rightarrow> m | None \<Rightarrow> MaxNoOfPodsToEvictPerNode sample_server),
             pe_nodes = cluster_nodes,
             pe_evictLocalStoragePods = (case pol_EvictLocalStoragePods sample_policy of
               Some b \<Rightarrow> b | None \<Rightarrow> EvictLocalStoragePods sample_server)\<rparr>) names"
    using iteration_runs_enabled [OF nodes ok, of "''policy/v1beta1''"] unfolding on
    by (auto simp: sample_world_def)
  have vals: "strategy_of sample_policy ''RemovePodsViolatingTopologySchedulingPolicy'' = \<lparr>Enabled = True, Params = ''''\<rparr>"
    "pol_MaxNoOfPodsToEvictPerNode sample_policy = Some 3" "DeschedulingInterval sample_server \<noteq> 0"
    "run_events sample_world = []"
    by (simp_all add: sample_policy_def strategy_of_def glookup_def sample_server_def sample_world_def)
  show ?thesis
    using it(1,4,5) unfolding single [OF it(2,3)] by (simp add: vals sel)
qed

text \<open>
  C12. The descheduler settles. When the topology strategy is the only one enabled and nobody else
  changes the pods, the nodes and the policies, the whole run, however many iterations it has,
  evicts from every policy what one look at it demands, and no more: if some value with pods is
  below its replicas, every value loses exactly its surplus, from the front of the sorted list,
  and otherwise nothing is evicted. The policies share no pods; the orders in which maps are
  traversed and pods are sorted may change with every iteration.
\<close>

theorem descheduler_settles:
  assumes "settles_on env rs w n nodes base tsps"
  shows "\<exists>w'. Run env rs w = Some (w', Returned None) \<and> stop_closed w'
    \<and> (\<forall>tsp \<in> set tsps. \<forall>v.
        let se = strategy_env env (iterations w);
            pol = CovertPolicy (DeployPlacement (Spec tsp)); key = TopologyKey (Spec tsp);
            nm = build_nodeMap nodes; items = items_of se base tsp; ps = zone_pods key nm items v
        in map ev_pod (filter (\<lambda>e. ev_pod e \<in> set items \<and> placed key nm v (ev_pod e)) (run_evictions w')) =
            (if short_of pol key nm items
             then take (nat (int (length ps) - want pol v)) (sort_Sort se ps) else []))"
proof -
  have st: "steady env (run_GetIndexer env (length (made (policy_informers w)))) base tsps"
    using assms by (simp add: settles_on_def)
  obtain w' where w': "Run env rs w = Some (w', Returned None)" "stop_closed w'"
    "run_evictions w' = all_calls (strategy_env env (iterations w)) nodes base tsps"
    using Run_settles [OF assms] by blast
  show ?thesis
    using all_calls_zone [OF steady_iteration(1) [OF st] _ steady_policies(3) [OF st], of _ "iterations w" nodes] w'
    by (intro exI [of _ w'] conjI ballI allI) (simp_all only: Let_def)
qed

lemma sample_settles:
  "settles_on sample_run_env sample_server sample_world 2 cluster_nodes (\<lambda>_ _. cluster_pods) [skewed_tsp]"
proof -
  obtain tc where tc: "run_starts sample_run_env sample_server ''/etc/kube'' tc sample_policy ''policy/v1beta1''"
    by (rule sample_run_starts)
  show ?thesis
  proof (rule settles_onI [OF tc])
    show "only_topology sample_policy"
      by (simp add: only_topology_def strategy_names_def strategy_of_def sample_policy_def glookup_def)
    show "DeschedulingInterval sample_server = 0
      \<or> \<not> usable sample_run_env (with_clients sample_server ''/etc/kube'' tc) sample_policy (iterations sample_world + 2)"
      by (simp add: usable_def sample_run_env_def sample_world_def)
    have "policy_ok (small_env cluster_pods) skewed_tsp"
      using skewed_nonneg cluster_inputs by (simp add: policy_ok_def desched_inputs_def)
    then show "steady sample_run_env (run_GetIndexer sample_run_env (length (made (policy_informers sample_world))))
        (\<lambda>_ _. cluster_pods) [skewed_tsp]"
      by (simp add: steady_def sample_run_env_def api_lists_def items_of_def skewed_idx_def)
         (simp add: small_env_def cluster_pods_def pod_on_def sample_pod_def)
  qed (use lp.wait_loop_axioms in \<open>simp_all add: sample_run_env_def sample_world_def range_ok_def cluster_nodes_def\<close>)
qed

theorem descheduler_settles_witness:
  "\<exists>w'. Run sample_run_env sample_server sample_world = Some (w', Returned None)
    \<and> map ev_pod (filter (\<lambda>e. ev_pod e \<in> set cluster_pods
          \<and> placed ''zone'' (build_nodeMap cluster_nodes) ''a'' (ev_pod e)) (run_evictions w')) = [pod_on ''p3'' ''n1'' PodFailed]"
proof -
  have env: "strategy_env sample_run_env k = small_env cluster_pods" for k by (simp add: sample_run_env_def)
  have "take 1 (sort_Sort (small_env cluster_pods) [pod_on ''p1'' ''n1'' PodRunning, pod_on ''p3'' ''n1'' PodFailed])
      = [pod_on ''p3'' ''n1'' PodFailed]"
    by code_simp
  then show ?thesis
    using descheduler_settles [OF sample_settles] cluster_short
    by (force simp: env Let_def items_of_def cluster_zones)
qed

end
