(* ===== verification/Multi_Cluster.thy ===== *)
theory Multi_Cluster
  imports Clients Config_Args
begin

text \<open>
  The plugin MultiClusterScheduling (\<open>pkg/multicluster/scheduler/scheduler.go\<close>): a node that
  stands for a whole cluster is filtered by asking the scheduler of that cluster; with the
  construction of those schedulers (\<open>generic.go\<close>, \<open>pkg/multicluster/config/config.go\<close>).

  kube-scheduler's own parts are parameters: \<open>Algorithm.Filter\<close> of a scheduler, client
  construction, \<open>scheduler.New\<close>. \<open>klog.Fatal\<close> ends the process, a third outcome of \<open>New\<close>.
\<close>

section \<open>The scheduler of a lower cluster\<close>

record schedule_result =
  SuggestedHost :: string
  EvaluatedNodes :: int
  FeasibleNodes :: int

text \<open>
  A scheduler of a lower cluster: its profiles by name and its algorithm, which gets the
  profile (nil when there is none of the name), the cycle state and the pod.
\<close>

record 'cs cluster_scheduler =
  Profiles :: "(string, string) gomap"
  Algorithm_Filter :: "string option \<Rightarrow> 'cs \<Rightarrow> pod \<Rightarrow> schedule_result \<times> go_error option"

section \<open>The configuration of a scheduler\<close>

text \<open>
  The parts of \<open>KubeSchedulerConfiguration\<close> that the code reads or writes; the rest is the opaque
  \<open>cc_rest\<close>. Profiles and extenders are only handed on.
\<close>

record client_connection =
  Kubeconfig :: string
  cc_AcceptContentTypes :: string
  cc_ContentType :: string
  cc_QPS :: rat
  cc_Burst :: int

record component_config =
  ClientConnection :: client_connection
  RenewDeadline :: int
  cc_Profiles :: "string list"
  PercentageOfNodesToScore :: int
  PodMaxBackoffSeconds :: int
  PodInitialBackoffSeconds :: int
  Extenders :: "string list"
  cc_rest :: string

text \<open>What client-go makes from a client: an informer factory, an event broadcaster.\<close>

datatype 'k informer_factory = SharedInformerFactory 'k int
datatype 'k broadcaster = EventBroadcasterAdapter 'k

text \<open>\<open>schedulerappconfig.Config\<close>; nil fields are \<open>None\<close>.\<close>

record 'k scheduler_config =
  ComponentConfig :: component_config
  cfg_Client :: "'k option"
  cfg_InformerFactory :: "'k informer_factory option"
  cfg_EventBroadcaster :: "'k broadcaster option"

text \<open>
  A stop channel is nil, or is closed at some time. \<open>ctx.Done()\<close> of \<open>context.TODO()\<close> is nil.
\<close>

datatype stop_chan = NilChan | ClosedLater
datatype go_context = ContextTODO | WithCancel

definition ctx_Done :: "go_context \<Rightarrow> stop_chan" where
  "ctx_Done ctx = (case ctx of ContextTODO \<Rightarrow> NilChan | WithCancel \<Rightarrow> ClosedLater)"

datatype sched_option =
    WithProfiles "string list"
  | WithPercentageOfNodesToScore int
  | WithPodMaxBackoffSeconds int
  | WithPodInitialBackoffSeconds int
  | WithExtenders "string list"

text \<open>\<open>Scheduler\<close> embeds kube-scheduler's scheduler.\<close>

record ('k, 'cs) Scheduler =
  sch_Scheduler :: "'cs cluster_scheduler"
  sch_Config :: "'k scheduler_config"
  sch_StopCh :: stop_chan

record ('k, 'cs) mc_env =
  BuildConfigFromFlags :: "string \<Rightarrow> string \<Rightarrow> go_error + rest_config"
  scheme_Default :: "string \<Rightarrow> string"
  scheme_Convert :: "string \<Rightarrow> go_error + component_config"
  LoadClientConfig :: "string \<Rightarrow> string \<Rightarrow> go_error + rest_config"
  AddUserAgent :: "rest_config \<Rightarrow> string \<Rightarrow> rest_config"
  kube_NewForConfig :: "rest_config \<Rightarrow> go_error + 'k"
  cfg_Complete :: "'k scheduler_config \<Rightarrow> 'k scheduler_config"
  scheduler_New :: "'k option \<Rightarrow> 'k informer_factory option \<Rightarrow> (string \<Rightarrow> ('k broadcaster \<times> string) go)
     \<Rightarrow> stop_chan \<Rightarrow> sched_option list \<Rightarrow> go_error + 'cs cluster_scheduler"
  WaitForNoCaches :: "stop_chan \<Rightarrow> bool"

text \<open>
  \<open>NewDefaultComponentConfig\<close>: an empty versioned configuration gets its defaults and is
  converted; the versioned form is opaque.
\<close>

definition NewDefaultComponentConfig :: "('k, 'cs) mc_env \<Rightarrow> go_error + component_config" where
  "NewDefaultComponentConfig env = (case scheme_Convert env (scheme_Default env '''') of
     Inl err \<Rightarrow> Inl err | Inr cfg \<Rightarrow> Inr cfg)"

text \<open>
  \<open>createClients\<close>. \<open>AddUserAgent\<close> changes the configuration it points to and returns it: the
  event client is made from the same \<open>kubeConfig\<close> after the change.
\<close>

definition createClients ::
    "('k, 'cs) mc_env \<Rightarrow> client_connection \<Rightarrow> string \<Rightarrow> int \<Rightarrow> go_error + 'k \<times> 'k \<times> 'k" where
  "createClients env config masterOverride timeout =
     (case LoadClientConfig env (Kubeconfig config) masterOverride of
        Inl err \<Rightarrow> Inl err
      | Inr loaded \<Rightarrow>
          (let kubeConfig = loaded\<lparr>AcceptContentTypes := cc_AcceptContentTypes config,
                 ContentType := cc_ContentType config, QPS := cc_QPS config, Burst := cc_Burst config\<rparr>;
               kubeConfig = AddUserAgent env kubeConfig ''multicluster''
           in (case kube_NewForConfig env kubeConfig of
                 Inl err \<Rightarrow> Inl err
               | Inr client \<Rightarrow>
                   (let restConfig = AddUserAgent env (kubeConfig\<lparr>Timeout := timeout\<rparr>) ''leader-election'' in
                    (case kube_NewForConfig env restConfig of
                       Inl err \<Rightarrow> Inl err
                     | Inr leaderElectionClient \<Rightarrow>
                         (case kube_NewForConfig env kubeConfig of
                            Inl err \<Rightarrow> Inl err
                          | Inr eventClient \<Rightarrow> Inr (client, leaderElectionClient, eventClient)))))))"

definition mc_Config ::
    "('k, 'cs) mc_env \<Rightarrow> 'k scheduler_config \<Rightarrow> string \<Rightarrow> go_error + 'k scheduler_config" where
  "mc_Config env c master =
     (case createClients env (ClientConnection (ComponentConfig c)) master (RenewDeadline (ComponentConfig c)) of
        Inl err \<Rightarrow> Inl err
      | Inr (client, leader, eventClient) \<Rightarrow>
          Inr (c\<lparr>cfg_Client := Some client, cfg_InformerFactory := Some (SharedInformerFactory client 0),
            cfg_EventBroadcaster := Some (EventBroadcasterAdapter eventClient)\<rparr>))"

section \<open>Filter\<close>

text \<open>
  Of the framework's handle the code only asks whether it has a snapshot
  (\<open>SnapshotSharedLister().NodeInfos()\<close>, which may be nil).
\<close>

record fw_handle =
  has_snapshot :: bool

record ('k, 'cs) MultiSchedulingPlugin =
  frameworkHandler :: fw_handle
  schedulers :: "(string, ('k, 'cs) Scheduler option) gomap"

text \<open>Texts of errors and numbers in messages: \<open>err.Error()\<close> and \<open>%v\<close> of an int.\<close>

record texts =
  error_text :: "go_error \<Rightarrow> string"
  int_text :: "int \<Rightarrow> string"

definition lower_pod :: "(string \<Rightarrow> go_error + ClustersNodeSelection) \<Rightarrow> pod \<Rightarrow> pod" where
  "lower_pod unmarshal p = (case ConvertAnnotations unmarshal (Annotations p) of
     Some cns \<Rightarrow> p\<lparr>NodeSelector := cns_NodeSelector cns, pod_Affinity := cns_Affinity cns,
       Tolerations := cns_Tolerations cns\<rparr>
   | None \<Rightarrow> p\<lparr>NodeSelector := None, pod_Affinity := None, Tolerations := []\<rparr>)"

definition mc_Filter ::
    "texts \<Rightarrow> (string \<Rightarrow> go_error + ClustersNodeSelection) \<Rightarrow> ('k, 'cs) MultiSchedulingPlugin \<Rightarrow> 'cs \<Rightarrow> pod
       \<Rightarrow> node_info option \<Rightarrow> status" where
  "mc_Filter tx unmarshal m state p nodeInfo =
     (if \<not> has_snapshot (frameworkHandler m) then NewStatus Success ''''
      else (case nodeInfo of
        None \<Rightarrow> NewStatus Unschedulable ''node not exit''
      | Some ni \<Rightarrow>
     (case Node ni of
        None \<Rightarrow> NewStatus Unschedulable ''node not exit''
      | Some nd \<Rightarrow>
          if \<not> IsVirtualNode (Some nd) then NewStatus Success ''''
          else (let schedulerName = GetClusterID (Some nd) in
            if length schedulerName = 0 then NewStatus Success ''''
            else (case glookup (schedulers m) schedulerName of
              None \<Rightarrow> NewStatus Success ''''
            | Some None \<Rightarrow> NewStatus Success ''''
            | Some (Some sched) \<Rightarrow>
                (let podCopy = lower_pod unmarshal p;
                     (result, err) = Algorithm_Filter (sch_Scheduler sched)
                       (glookup (Profiles (sch_Scheduler sched)) ''default-scheduler'') state podCopy
                 in (case err of
                       Some e \<Rightarrow> NewStatus Unschedulable (''Can not found nodes: '' @ error_text tx e)
                     | None \<Rightarrow>
                         if FeasibleNodes result = 0 \<or> SuggestedHost result = '''' then
                           NewStatus Unschedulable (''Can not found feasible nodes from cluster: ''
                             @ int_text tx (FeasibleNodes result) @ ''/'' @ int_text tx (EvaluatedNodes result))
                         else NewStatus Success '''')))))))"

section \<open>Building and running the schedulers\<close>

text \<open>The recorder of a name; without a broadcaster the call dereferences nil.\<close>

definition getRecorderFactory :: "'k scheduler_config \<Rightarrow> string \<Rightarrow> ('k broadcaster \<times> string) go" where
  "getRecorderFactory cc name = (case cfg_EventBroadcaster cc of
     None \<Rightarrow> Panic NilDeref
   | Some b \<Rightarrow> Ret (b, name))"

definition NewScheduler ::
    "('k, 'cs) mc_env \<Rightarrow> go_context \<Rightarrow> 'k scheduler_config \<Rightarrow> stop_chan \<Rightarrow> go_error + ('k, 'cs) Scheduler" where
  "NewScheduler env ctx cc stopCh =
     (let completedConfig = cfg_Complete env cc;
          recordFactory = getRecorderFactory completedConfig
      in (case scheduler_New env (cfg_Client cc) (cfg_InformerFactory cc) recordFactory stopCh
             [WithProfiles (cc_Profiles (ComponentConfig cc)),
              WithPercentageOfNodesToScore (PercentageOfNodesToScore (ComponentConfig cc)),
              WithPodMaxBackoffSeconds (PodMaxBackoffSeconds (ComponentConfig cc)),
              WithPodInitialBackoffSeconds (PodInitialBackoffSeconds (ComponentConfig cc)),
              WithExtenders (Extenders (ComponentConfig cc))] of
            Inl err \<Rightarrow> Inl err
          | Inr sched \<Rightarrow> Inr \<lparr>sch_Scheduler = sched, sch_Config = cc, sch_StopCh = stopCh\<rparr>))"

text \<open>
  \<open>Scheduler.Run\<close>: the calls it makes, and its result; \<open>None\<close> is a call that does not return.
  \<open>WaitForNoCaches\<close> is \<open>cache.WaitForCacheSync\<close> with no informers to wait for.
\<close>

datatype 'k run_call =
    StartRecordingToSink "'k broadcaster" stop_chan
  | RunPodInformer "'k informer_factory" stop_chan
  | StartInformers "'k informer_factory" stop_chan
  | WaitForInformers "'k informer_factory" stop_chan

definition mc_Run ::
    "('k, 'cs) mc_env \<Rightarrow> ('k, 'cs) Scheduler \<Rightarrow> go_context \<Rightarrow> ('k run_call list \<times> go_error option option) go" where
  "mc_Run env sched ctx =
     (let recording = (case cfg_EventBroadcaster (sch_Config sched) of
            Some b \<Rightarrow> if cfg_Client (sch_Config sched) \<noteq> None then [StartRecordingToSink b (sch_StopCh sched)] else []
          | None \<Rightarrow> [])
      in (case cfg_InformerFactory (sch_Config sched) of
            None \<Rightarrow> Panic NilDeref
          | Some f \<Rightarrow>
              Ret (recording @ [RunPodInformer f (sch_StopCh sched), StartInformers f (sch_StopCh sched),
                     WaitForInformers f (sch_StopCh sched)],
                if \<not> WaitForNoCaches env (ctx_Done ctx) then Some (Some (Errorf ''failed to wait cache sync''))
                else (case sch_StopCh sched of NilChan \<Rightarrow> None | ClosedLater \<Rightarrow> Some None))))"

text \<open>
  \<open>New\<close>: the arguments come decoded or with an error; every cluster of the configuration gets a
  scheduler, in the iteration order of the map, and a goroutine that runs it (\<open>started\<close> lists
  the schedulers whose \<open>Run\<close> was started). \<open>klog.Fatal\<close> ends the process.
\<close>

datatype 'a outcome = Done 'a | Failed go_error | Exited go_error

fun new_schedulers ::
    "('k, 'cs) mc_env \<Rightarrow> go_context \<Rightarrow> (string, Configuration) gomap \<Rightarrow> (string, ('k, 'cs) Scheduler option) gomap
       \<Rightarrow> ('k, 'cs) Scheduler list
       \<Rightarrow> ((string, ('k, 'cs) Scheduler option) gomap \<times> ('k, 'cs) Scheduler list) outcome" where
  "new_schedulers env ctx [] acc started = Done (acc, started)"
| "new_schedulers env ctx ((name, config) # rest) acc started =
     (case BuildConfigFromFlags env (conf_KubeMaster config) (conf_KubeConfig config) of
        Inl err \<Rightarrow> Failed (Wrapf ''failed to init rest.Config: '' err)
      | Inr c \<Rightarrow>
     (case NewDefaultComponentConfig env of
        Inl err \<Rightarrow> Exited err
      | Inr componentConfig \<Rightarrow>
          (let componentConfig = componentConfig\<lparr>ClientConnection := \<lparr>Kubeconfig = conf_KubeConfig config,
                 cc_AcceptContentTypes = '''', cc_ContentType = '''', cc_QPS = 0, cc_Burst = 0\<rparr>\<rparr>;
               cfg = \<lparr>ComponentConfig = componentConfig, cfg_Client = None, cfg_InformerFactory = None,
                 cfg_EventBroadcaster = None\<rparr> in
           (case mc_Config env cfg (conf_KubeMaster config) of
              Inl err \<Rightarrow> Exited err
            | Inr newConfig \<Rightarrow>
                (case NewScheduler env ctx newConfig (ctx_Done ctx) of
                   Inl err \<Rightarrow> Exited err
                 | Inr sched \<Rightarrow>
                     new_schedulers env ctx rest (ginsert name (Some sched) acc) (started @ [sched]))))))"

definition mc_New ::
    "('k, 'cs) mc_env \<Rightarrow> go_error + SchedulingArgs \<Rightarrow> fw_handle
       \<Rightarrow> (('k, 'cs) MultiSchedulingPlugin \<times> ('k, 'cs) Scheduler list) outcome" where
  "mc_New env obj f = (case obj of
     Inl err \<Rightarrow> Failed (Errorf ''want args to be of type SchedulingArgs'')
   | Inr configs \<Rightarrow>
       (case new_schedulers env ContextTODO
               (case ClusterConfiguration configs of None \<Rightarrow> [] | Some m \<Rightarrow> m) gomake [] of
          Failed err \<Rightarrow> Failed err
        | Exited err \<Rightarrow> Exited err
        | Done (scheds, started) \<Rightarrow> Done (\<lparr>frameworkHandler = f, schedulers = scheds\<rparr>, started)))"

section \<open>Laws\<close>

text \<open>The scheduler that a node is filtered by, if there is one.\<close>

definition cluster_of :: "('k, 'cs) MultiSchedulingPlugin \<Rightarrow> node \<Rightarrow> ('k, 'cs) Scheduler option" where
  "cluster_of m nd =
     (if IsVirtualNode (Some nd) \<and> GetClusterID (Some nd) \<noteq> '''' then
        (case glookup (schedulers m) (GetClusterID (Some nd)) of None \<Rightarrow> None | Some s \<Rightarrow> s)
      else None)"

lemma mc_Filter_eq:
  assumes "has_snapshot (frameworkHandler m)" "Node ni = Some nd"
  shows "mc_Filter tx um m cs p (Some ni) = (case cluster_of m nd of
     None \<Rightarrow> NewStatus Success ''''
   | Some sched \<Rightarrow>
       (case Algorithm_Filter (sch_Scheduler sched)
           (glookup (Profiles (sch_Scheduler sched)) ''default-scheduler'') cs (lower_pod um p) of
          (r, Some e) \<Rightarrow> NewStatus Unschedulable (''Can not found nodes: '' @ error_text tx e)
        | (r, None) \<Rightarrow>
            if FeasibleNodes r = 0 \<or> SuggestedHost r = '''' then
              NewStatus Unschedulable (''Can not found feasible nodes from cluster: ''
                @ int_text tx (FeasibleNodes r) @ ''/'' @ int_text tx (EvaluatedNodes r))
            else NewStatus Success ''''))"
  using assms
  by (auto simp: mc_Filter_def cluster_of_def Let_def split: option.splits prod.splits)

text \<open>What the lower cluster is asked to schedule does not depend on the pod's own constraints.\<close>

lemma lower_pod_own:
  "lower_pod um (p\<lparr>NodeSelector := ns, pod_Affinity := af, Tolerations := tols\<rparr>) = lower_pod um p"
  by (simp add: lower_pod_def split: option.split)

text \<open>
  The scheduler of a cluster is built from the kubeconfig and the master of that cluster, by
  clients without a request rate: the numbers that \<open>New\<close> sets are set on another configuration.
\<close>

definition built_from :: "('k, 'cs) mc_env \<Rightarrow> Configuration \<Rightarrow> ('k, 'cs) Scheduler \<Rightarrow> bool" where
  "built_from env config s \<longleftrightarrow> (\<exists>component client leader eventClient cc.
     createClients env \<lparr>Kubeconfig = conf_KubeConfig config, cc_AcceptContentTypes = '''', cc_ContentType = '''',
         cc_QPS = 0, cc_Burst = 0\<rparr> (conf_KubeMaster config) (RenewDeadline component) = Inr (client, leader, eventClient)
     \<and> cc = \<lparr>ComponentConfig = component, cfg_Client = Some client,
         cfg_InformerFactory = Some (SharedInformerFactory client 0),
         cfg_EventBroadcaster = Some (EventBroadcasterAdapter eventClient)\<rparr>
     \<and> NewScheduler env ContextTODO cc NilChan = Inr s)"

lemma new_schedulers_step:
  assumes "new_schedulers env ContextTODO ((name, config) # m) acc started = Done r"
  shows "\<exists>s. built_from env config s
    \<and> new_schedulers env ContextTODO m (ginsert name (Some s) acc) (started @ [s]) = Done r"
proof -
  obtain c0 where c0: "NewDefaultComponentConfig env = Inr c0"
    using assms by (auto split: sum.splits)
  define conn where "conn = \<lparr>Kubeconfig = conf_KubeConfig config,
    cc_AcceptContentTypes = '''', cc_ContentType = '''', cc_QPS = 0, cc_Burst = 0\<rparr>"
  define cfg :: "'a scheduler_config" where "cfg = \<lparr>ComponentConfig = c0\<lparr>ClientConnection := conn\<rparr>,
    cfg_Client = None, cfg_InformerFactory = None, cfg_EventBroadcaster = None\<rparr>"
  obtain cc where cc: "mc_Config env cfg (conf_KubeMaster config) = Inr cc"
    using assms c0 by (auto simp: Let_def cfg_def conn_def split: sum.splits)
  obtain s where s: "NewScheduler env ContextTODO cc NilChan = Inr s"
    using assms c0 cc by (auto simp: Let_def cfg_def conn_def ctx_Done_def split: sum.splits)
  obtain client leader eventClient where cl:
    "createClients env conn (conf_KubeMaster config) (RenewDeadline c0) = Inr (client, leader, eventClient)"
    "cc = \<lparr>ComponentConfig = c0\<lparr>ClientConnection := conn\<rparr>, cfg_Client = Some client,
       cfg_InformerFactory = Some (SharedInformerFactory client 0),
       cfg_EventBroadcaster = Some (EventBroadcasterAdapter eventClient)\<rparr>"
    using cc by (auto simp: mc_Config_def cfg_def split: sum.splits)
  have "built_from env config s"
    unfolding built_from_def
    using cl s by (intro exI [of _ "c0\<lparr>ClientConnection := conn\<rparr>"] exI [of _ client] exI [of _ leader]
        exI [of _ eventClient] exI [of _ cc]) (simp add: conn_def)
  moreover have "new_schedulers env ContextTODO m (ginsert name (Some s) acc) (started @ [s]) = Done r"
    using assms c0 cc s by (auto simp: Let_def cfg_def conn_def ctx_Done_def split: sum.splits)
  ultimately show ?thesis by blast
qed

text \<open>
  One scheduler for every cluster: \<open>new\<close> lists them in the order in which they were started.
\<close>

lemma new_schedulers_Done:
  assumes "new_schedulers env ContextTODO m acc started = Done (scheds, st)" "distinct (map fst m)"
  shows "\<exists>new. st = started @ new
    \<and> list_all2 (\<lambda>(name, config) s. built_from env config s \<and> glookup scheds name = Some (Some s)) m new
    \<and> (\<forall>name. name \<notin> fst ` set m \<longrightarrow> glookup scheds name = glookup acc name)"
  using assms
proof (induction m arbitrary: acc started)
  case (Cons nc m)
  obtain name config where nc: "nc = (name, config)" by (cases nc)
  obtain s where s: "built_from env config s"
      "new_schedulers env ContextTODO m (ginsert name (Some s) acc) (started @ [s]) = Done (scheds, st)"
    using new_schedulers_step Cons.prems(1) unfolding nc by blast
  have d: "distinct (map fst m)" "name \<notin> fst ` set m" using Cons.prems(2) by (auto simp: nc)
  obtain new where new: "st = (started @ [s]) @ new"
    "list_all2 (\<lambda>(name, config) s. built_from env config s \<and> glookup scheds name = Some (Some s)) m new"
    "\<forall>n. n \<notin> fst ` set m \<longrightarrow> glookup scheds n = glookup (ginsert name (Some s) acc) n"
    using Cons.IH [OF s(2) d(1)] by blast
  have "glookup scheds name = Some (Some s)" using new(3) d(2) by simp
  then show ?case using new s(1) by (intro exI [of _ "s # new"]) (simp add: nc)
qed simp

lemma list_all2_left: "list_all2 P xs ys \<Longrightarrow> x \<in> set xs \<Longrightarrow> \<exists>y \<in> set ys. P x y"
  by (induction rule: list_all2_induct) auto

lemma mc_New_Done:
  assumes "mc_New env (Inr args) f = Done (plugin, started)"
    and "ClusterConfiguration args = Some m" "gmap_ok m"
  shows "frameworkHandler plugin = f
    \<and> list_all2 (\<lambda>(name, config) s. built_from env config s \<and> glookup (schedulers plugin) name = Some (Some s)) m started
    \<and> dom (glookup (schedulers plugin)) = fst ` set m"
proof -
  obtain scheds where run: "new_schedulers env ContextTODO m gomake [] = Done (scheds, started)"
    "plugin = \<lparr>frameworkHandler = f, schedulers = scheds\<rparr>"
    using assms(1,2) by (auto simp: mc_New_def split: outcome.splits)
  from new_schedulers_Done [OF run(1)] assms(3)
  have all: "list_all2 (\<lambda>(name, config) s. built_from env config s \<and> glookup scheds name = Some (Some s)) m started"
    and none: "\<And>name. name \<notin> fst ` set m \<Longrightarrow> glookup scheds name = None"
    by (auto simp: gmap_ok_def)
  have "fst nc \<in> dom (glookup scheds)" if "nc \<in> set m" for nc
    using list_all2_left [OF all that] by (auto split: prod.splits)
  then have "fst ` set m \<subseteq> dom (glookup scheds)" by (rule image_subsetI)
  moreover have "dom (glookup scheds) \<subseteq> fst ` set m" using none by (metis domIff subsetI)
  ultimately have "dom (glookup scheds) = fst ` set m" by simp
  then show ?thesis using all by (simp add: run(2))
qed

lemma NewScheduler_config:
  "NewScheduler env ctx cc stopCh = Inr s \<Longrightarrow> sch_Config s = cc \<and> sch_StopCh s = stopCh"
  by (auto simp: NewScheduler_def Let_def split: sum.splits)

text \<open>
  \<open>New\<close> passes the \<open>Done\<close> channel of \<open>context.TODO()\<close>, which is nil: a scheduler that it starts
  runs as long as the process, on informers and with a recorder of its own cluster's clients.
\<close>

lemma built_from_runs:
  assumes "built_from env config s" "WaitForNoCaches env NilChan"
  shows "\<exists>client eventClient.
    cfg_Client (sch_Config s) = Some client \<and> cfg_EventBroadcaster (sch_Config s) = Some (EventBroadcasterAdapter eventClient)
    \<and> mc_Run env s ContextTODO =
      Ret ([StartRecordingToSink (EventBroadcasterAdapter eventClient) NilChan,
            RunPodInformer (SharedInformerFactory client 0) NilChan,
            StartInformers (SharedInformerFactory client 0) NilChan,
            WaitForInformers (SharedInformerFactory client 0) NilChan], None)"
proof -
  obtain component client eventClient cc where
    "cc = \<lparr>ComponentConfig = component, cfg_Client = Some client,
         cfg_InformerFactory = Some (SharedInformerFactory client 0),
         cfg_EventBroadcaster = Some (EventBroadcasterAdapter eventClient)\<rparr>"
    "NewScheduler env ContextTODO cc NilChan = Inr s"
    using assms(1) unfolding built_from_def by blast
  then show ?thesis
    using NewScheduler_config [of env ContextTODO cc NilChan s] assms(2)
    by (simp add: mc_Run_def ctx_Done_def)
qed

text \<open>The only errors that \<open>New\<close> returns are a bad argument and a bad cluster address.\<close>

lemma new_schedulers_Failed:
  assumes "new_schedulers env ContextTODO m acc started = Failed e"
  shows "\<exists>name config err. (name, config) \<in> set m
    \<and> BuildConfigFromFlags env (conf_KubeMaster config) (conf_KubeConfig config) = Inl err
    \<and> e = Wrapf ''failed to init rest.Config: '' err"
  using assms
proof (induction m arbitrary: acc started)
  case (Cons nc m)
  obtain name config where nc: "nc = (name, config)" by (cases nc)
  show ?case
  proof (cases "BuildConfigFromFlags env (conf_KubeMaster config) (conf_KubeConfig config)")
    case (Inl err)
    then show ?thesis using Cons.prems by (auto simp: nc)
  next
    case (Inr c)
    then obtain sched where "new_schedulers env ContextTODO m (ginsert name (Some sched) acc) (started @ [sched]) = Failed e"
      using Cons.prems by (auto simp: nc Let_def split: sum.splits)
    from Cons.IH [OF this] show ?thesis by (metis list.set_intros(2))
  qed
qed simp

end
