(* ===== verification/Multi_Cluster_Properties.thy ===== *)
theory Multi_Cluster_Properties
  imports Multi_Cluster Samples
begin

text \<open>The properties of the MultiClusterScheduling plugin, with their witnesses.\<close>

section \<open>A virtual node\<close>

definition virtual_node :: node where
  "virtual_node = \<lparr>node_Name = ''vk'',
     node_Labels = Some [(''type'', ''virtual-kubelet''), (''clusterID'', ''east'')]\<rparr>"

lemma virtual_node_facts: "IsVirtualNode (Some virtual_node)" "GetClusterID (Some virtual_node) = ''east''"
  by (simp_all add: virtual_node_def IsVirtualNode_def GetClusterID_def NodeType_def VirtualKubeletLabel_def
      ClusterID_def mget_def glookup_def)

text \<open>A lower cluster that only has room for pods without a node selector.\<close>

definition east :: "unit cluster_scheduler" where
  "east = \<lparr>Profiles = [(''default-scheduler'', ''default'')],
     Algorithm_Filter = (\<lambda>prof cs p. if NodeSelector p = None
       then (\<lparr>SuggestedHost = ''h1'', EvaluatedNodes = 3, FeasibleNodes = 2\<rparr>, None)
       else (\<lparr>SuggestedHost = '''', EvaluatedNodes = 0, FeasibleNodes = 0\<rparr>, Some (ExtError ''no fit'')))\<rparr>"

definition mc_texts :: texts where
  "mc_texts = \<lparr>error_text = (\<lambda>_. ''error''), int_text = (\<lambda>_. ''n'')\<rparr>"

definition no_json :: "string \<Rightarrow> go_error + ClustersNodeSelection" where
  "no_json = (\<lambda>_. Inl (ExtError ''json''))"

lemma lower_pod_no_json: "NodeSelector (lower_pod no_json p) = None"
  by (simp add: lower_pod_def ConvertAnnotations_def no_json_def Let_def split: option.split)

definition mc_sample_env :: "(string, unit) mc_env" where
  "mc_sample_env = \<lparr>BuildConfigFromFlags = (\<lambda>km kc. Inr \<lparr>Host = km, QPS = 0, Burst = 0, RateLimiter = None,
       GroupVersion = None, APIPath = '''', Serializer = '''', UserAgent = '''', ContentType = '''',
       AcceptContentTypes = '''', Timeout = 0\<rparr>),
     scheme_Default = (\<lambda>s. s), scheme_Convert = (\<lambda>_. Inr \<lparr>ClientConnection = \<lparr>Kubeconfig = '''', cc_AcceptContentTypes = '''',
       cc_ContentType = '''', cc_QPS = 0, cc_Burst = 0\<rparr>, RenewDeadline = 10, cc_Profiles = [''default-scheduler''],
       PercentageOfNodesToScore = 0, PodMaxBackoffSeconds = 10, PodInitialBackoffSeconds = 1, Extenders = [], cc_rest = ''''\<rparr>),
     LoadClientConfig = (\<lambda>kc m. Inr \<lparr>Host = m, QPS = 0, Burst = 0, RateLimiter = None,
       GroupVersion = None, APIPath = '''', Serializer = '''', UserAgent = '''', ContentType = '''',
       AcceptContentTypes = '''', Timeout = 0\<rparr>),
     AddUserAgent = (\<lambda>c ua. c\<lparr>UserAgent := ua\<rparr>),
     kube_NewForConfig = (\<lambda>c. Inr (Host c)), cfg_Complete = (\<lambda>c. c),
     scheduler_New = (\<lambda>client infs recorder stop opts. Inr east), WaitForNoCaches = (\<lambda>stop. True)\<rparr>"

definition east_config :: Configuration where
  "east_config = \<lparr>conf_Name = ''east'', conf_KubeMaster = ''m'', conf_KubeConfig = ''k''\<rparr>"

definition east_args :: SchedulingArgs where
  "east_args = \<lparr>args_KubeConfigPath = '''', args_KubeMaster = '''',
     ClusterConfiguration = Some [(''east'', east_config)]\<rparr>"

definition snapshot_handle :: fw_handle where
  "snapshot_handle = \<lparr>has_snapshot = True\<rparr>"

lemma east_new:
  "\<exists>s. sch_Scheduler s = east
    \<and> mc_New mc_sample_env (Inr east_args) snapshot_handle
      = Done (\<lparr>frameworkHandler = snapshot_handle, schedulers = [(''east'', Some s)]\<rparr>, [s])"
  by (simp add: mc_New_def east_args_def mc_sample_env_def mc_Config_def createClients_def
      NewScheduler_def NewDefaultComponentConfig_def ginsert_def Let_def ctx_Done_def)

section \<open>Filter\<close>

text \<open>
  The pod's own node selector, affinity and tolerations do not reach the lower cluster: the
  verdict is the same for every value of these three fields.
\<close>

theorem mc_filter_ignores_own_constraints:
  "mc_Filter tx um m cs (p\<lparr>NodeSelector := ns, pod_Affinity := af, Tolerations := tols\<rparr>) nodeInfo
    = mc_Filter tx um m cs p nodeInfo"
  unfolding mc_Filter_def lower_pod_own ..

section \<open>New\<close>

text \<open>
  C35. When the plugin's constructor returns a plugin it has a scheduler for every configured
  cluster and for nothing else, and has started exactly these, one goroutine each, in the
  iteration order. The scheduler of a cluster is built from that cluster's kubeconfig and
  master, with clients whose QPS and burst are 0: the 10 and 20 that the code sets never reach a
  client. Its goroutine records events to a client of its own cluster, runs the pod informer and
  then all informers of its own cluster, and never returns, because the stop channel that \<open>New\<close>
  passes is nil.
\<close>

theorem mc_new_covers_clusters:
  assumes "mc_New env (Inr args) f = Done (plugin, started)"
    and "ClusterConfiguration args = Some m" "gmap_ok m" "WaitForNoCaches env NilChan"
  shows "dom (glookup (schedulers plugin)) = fst ` set m
    \<and> list_all2 (\<lambda>(name, config) s. glookup (schedulers plugin) name = Some (Some s) \<and> built_from env config s
        \<and> (\<exists>client eventClient. mc_Run env s ContextTODO =
             Ret ([StartRecordingToSink (EventBroadcasterAdapter eventClient) NilChan,
                   RunPodInformer (SharedInformerFactory client 0) NilChan,
                   StartInformers (SharedInformerFactory client 0) NilChan,
                   WaitForInformers (SharedInformerFactory client 0) NilChan], None))) m started"
proof -
  note new = mc_New_Done [OF assms(1-3)]
  have run: "\<exists>client eventClient. mc_Run env s ContextTODO =
      Ret ([StartRecordingToSink (EventBroadcasterAdapter eventClient) NilChan,
            RunPodInformer (SharedInformerFactory client 0) NilChan,
            StartInformers (SharedInformerFactory client 0) NilChan,
            WaitForInformers (SharedInformerFactory client 0) NilChan], None)" if "built_from env config s" for config s
    using built_from_runs [OF that assms(4)] by blast
  show ?thesis using new run by (auto elim!: list_all2_mono)
qed

theorem mc_new_covers_clusters_witness:
  "\<exists>plugin s. mc_New mc_sample_env (Inr east_args) snapshot_handle = Done (plugin, [s])
    \<and> dom (glookup (schedulers plugin)) = {''east''} \<and> built_from mc_sample_env east_config s"
proof -
  obtain plugin s where run: "mc_New mc_sample_env (Inr east_args) snapshot_handle = Done (plugin, [s])"
    using east_new by blast
  from mc_new_covers_clusters [OF this, of "[(''east'', east_config)]"] run show ?thesis
    by (simp add: east_args_def gmap_ok_def mc_sample_env_def)
qed

text \<open>
  C26. From the configuration to the decision. A plugin that \<open>New\<close> returned answers for a virtual
  node with a cluster label: if the configuration does not know the cluster the node passes; if
  it does, the pod is put to a scheduler that was built from the configuration of exactly this
  cluster, and the node passes if and only if that scheduler finds a host.
\<close>

theorem new_plugin_filters:
  assumes "mc_New env (Inr args) f = Done (plugin, started)"
    and "ClusterConfiguration args = Some m" "gmap_ok m"
    and "has_snapshot f" "Node ni = Some nd" "IsVirtualNode (Some nd)" "GetClusterID (Some nd) \<noteq> ''''"
  shows "case glookup m (GetClusterID (Some nd)) of
      None \<Rightarrow> mc_Filter tx um plugin cs p (Some ni) = NewStatus Success ''''
    | Some config \<Rightarrow> \<exists>s \<in> set started. built_from env config s
        \<and> (is_success (Some (mc_Filter tx um plugin cs p (Some ni))) \<longleftrightarrow>
            (let (r, err) = Algorithm_Filter (sch_Scheduler s)
                   (glookup (Profiles (sch_Scheduler s)) ''default-scheduler'') cs (lower_pod um p)
             in err = None \<and> FeasibleNodes r \<noteq> 0 \<and> SuggestedHost r \<noteq> ''''))"
proof -
  let ?cid = "GetClusterID (Some nd)"
  note new = mc_New_Done [OF assms(1-3)]
  then have h: "has_snapshot (frameworkHandler plugin)" using assms(4) by simp
  have c: "cluster_of plugin nd = (case glookup (schedulers plugin) ?cid of None \<Rightarrow> None | Some s \<Rightarrow> s)"
    using assms(6,7) by (simp add: cluster_of_def)
  show ?thesis
  proof (cases "glookup m ?cid")
    case None
    then have "?cid \<notin> fst ` set m" by (auto simp: glookup_def map_of_eq_None_iff)
    then have "glookup (schedulers plugin) ?cid = None" using new by (metis domIff)
    then show ?thesis using None by (simp add: mc_Filter_eq [OF h assms(5)] c)
  next
    case (Some config)
    then have "(?cid, config) \<in> set m" by (rule glookup_mem)
    then obtain s where s: "s \<in> set started" "built_from env config s"
      "glookup (schedulers plugin) ?cid = Some (Some s)"
      using list_all2_left [OF conjunct1 [OF conjunct2 [OF new]]] by auto
    have "is_success (Some (mc_Filter tx um plugin cs p (Some ni))) \<longleftrightarrow>
        (let (r, err) = Algorithm_Filter (sch_Scheduler s)
               (glookup (Profiles (sch_Scheduler s)) ''default-scheduler'') cs (lower_pod um p)
         in err = None \<and> FeasibleNodes r \<noteq> 0 \<and> SuggestedHost r \<noteq> '''')"
      by (auto simp: mc_Filter_eq [OF h assms(5)] c s(3) split: prod.split option.split)
    then show ?thesis unfolding Some option.case using s(1,2) by blast
  qed
qed

theorem new_plugin_filters_witness:
  "\<exists>plugin started. mc_New mc_sample_env (Inr east_args) snapshot_handle = Done (plugin, started)
    \<and> is_success (Some (mc_Filter mc_texts no_json plugin () ((sample_pod ''p'')\<lparr>NodeSelector := Some []\<rparr>)
        (Some \<lparr>Node = Some virtual_node, Pods = []\<rparr>)))"
proof -
  obtain plugin s where run: "mc_New mc_sample_env (Inr east_args) snapshot_handle = Done (plugin, [s])"
    "sch_Scheduler s = east"
    using east_new by blast
  have args: "ClusterConfiguration east_args = Some [(''east'', east_config)]" "gmap_ok [(''east'', east_config)]"
    "has_snapshot snapshot_handle"
    by (simp_all add: east_args_def gmap_ok_def snapshot_handle_def)
  from new_plugin_filters [OF run(1) args, of "\<lparr>Node = Some virtual_node, Pods = []\<rparr>" virtual_node mc_texts no_json
      "()" "(sample_pod ''p'')\<lparr>NodeSelector := Some []\<rparr>"]
  have "is_success (Some (mc_Filter mc_texts no_json plugin () ((sample_pod ''p'')\<lparr>NodeSelector := Some []\<rparr>)
        (Some \<lparr>Node = Some virtual_node, Pods = []\<rparr>)))"
    using run(2) by (simp add: virtual_node_facts glookup_def) (simp add: east_def lower_pod_no_json)
  then show ?thesis using run(1) by blast
qed

end
