(* ===== verification/Conversion_Laws.thy ===== *)
theory Conversion_Laws
  imports Config_Args
begin

text \<open>
  The conversions between internal and versioned arguments, for the string conversions as
  apimachinery v0.20.5 (the version of \<open>go.mod\<close>) has them: reading a pointer copies the string,
  making a pointer hands the given pointer on. The loop over the clusters passes pointers into its
  loop variable, so every cluster of the versioned arguments reads as the last one.
\<close>

section \<open>The parameters\<close>

text \<open>Reading a pointer yields its string, and the empty string for nil.\<close>

definition reads_pointers :: "conversions \<Rightarrow> bool" where
  "reads_pointers cv \<longleftrightarrow> (\<forall>s p. Pointer_string_To_string cv s p
     = Inr (case p of None \<Rightarrow> '''' | Some a \<Rightarrow> str_at s a))"

text \<open>Making a pointer of a string returns the address of that string.\<close>

definition shares_pointers :: "conversions \<Rightarrow> bool" where
  "shares_pointers cv \<longleftrightarrow> (\<forall>s c. string_To_Pointer_string cv s c = Inr (Some c, s))"

section \<open>The store\<close>

lemma str_at_assign [simp]: "str_at (assign a v s) b = (if b = a then v else str_at s b)"
  by (simp add: str_at_def assign_def)

lemma next_assign [simp]: "next_str (assign a v s) = next_str s"
  by (simp add: assign_def)

lemma str_at_alloc [simp]: "str_at (snd (alloc v s)) b = (if b = next_str s then v else str_at s b)"
  by (simp add: str_at_def alloc_def)

lemma next_alloc [simp]: "next_str (snd (alloc v s)) = Suc (next_str s)"
  by (simp add: alloc_def)

lemma fst_alloc [simp]: "fst (alloc v s) = next_str s"
  by (simp add: alloc_def)

definition read_str :: "store \<Rightarrow> nat option \<Rightarrow> string" where
  "read_str s p = (case p of None \<Rightarrow> '''' | Some a \<Rightarrow> str_at s a)"

definition read_conf :: "store \<Rightarrow> v1beta1_Configuration \<Rightarrow> Configuration" where
  "read_conf s v = \<lparr>conf_Name = read_str s (v_Name v), conf_KubeMaster = read_str s (v_KubeMaster v),
     conf_KubeConfig = read_str s (v_KubeConfig v)\<rparr>"

definition read_map :: "store \<Rightarrow> (string, v1beta1_Configuration) gomap \<Rightarrow> (string, Configuration) gomap" where
  "read_map s m = map (\<lambda>(k, v). (k, read_conf s v)) m"

lemma read_map_ginsert: "read_map s (ginsert k v m) = ginsert k (read_conf s v) (read_map s m)"
  by (induction m) (auto simp: read_map_def ginsert_def)

lemma fold_ginsert_append:
  "gmap_ok (acc @ m) \<Longrightarrow> fold (\<lambda>(k, c). ginsert k c) m acc = acc @ m"
proof (induction m arbitrary: acc)
  case (Cons kc m)
  obtain k c where kc: "kc = (k, c)" by (cases kc)
  have "k \<notin> dom (glookup acc)"
    using Cons.prems by (auto simp: kc gmap_ok_def glookup_def [abs_def] dom_map_of_conv_image_fst)
  moreover have "gmap_ok ((acc @ [(k, c)]) @ m)" using Cons.prems by (simp add: kc gmap_ok_def)
  ultimately show ?case using Cons.IH [of "acc @ [(k, c)]"] by (simp add: kc ginsert_new)
qed simp

section \<open>Reading\<close>

lemma Convert_v1beta1_Configuration_eq:
  "reads_pointers cv \<Longrightarrow> Convert_v1beta1_Configuration cv s v = Inr (read_conf s v)"
  by (simp add: Convert_v1beta1_Configuration_def reads_pointers_def read_conf_def read_str_def)

lemma convert_clusters_in_eq:
  "reads_pointers cv \<Longrightarrow>
     convert_clusters_in cv s m out = Inr (fold (\<lambda>(k, c). ginsert k c) (read_map s m) out)"
  by (induction m arbitrary: out) (auto simp: Convert_v1beta1_Configuration_eq read_map_def)

lemma Convert_v1beta1_SchedulingArgs_eq:
  assumes "reads_pointers cv" "\<forall>m. v_ClusterConfiguration v = Some m \<longrightarrow> gmap_ok m"
  shows "Convert_v1beta1_SchedulingArgs cv s v = Inr \<lparr>args_KubeConfigPath = read_str s (v_KubeConfigPath v),
     args_KubeMaster = read_str s (v_args_KubeMaster v),
     ClusterConfiguration = map_option (read_map s) (v_ClusterConfiguration v)\<rparr>"
proof -
  have "fold (\<lambda>(k, c). ginsert k c) (read_map s m) [] = read_map s m" if "gmap_ok m" for m
    using fold_ginsert_append [of "[]" "read_map s m"] that
    by (simp add: gmap_ok_def read_map_def comp_def split_def)
  then show ?thesis
    using assms by (auto simp: Convert_v1beta1_SchedulingArgs_def convert_clusters_in_eq reads_pointers_def
        read_str_def split: option.split)
qed

section \<open>Writing\<close>

definition var_cells :: "conf_cells \<Rightarrow> nat set" where
  "var_cells var = {cell_Name var, cell_KubeMaster var, cell_KubeConfig var}"

definition var_ok :: "conf_cells \<Rightarrow> nat \<Rightarrow> bool" where
  "var_ok var n \<longleftrightarrow> distinct [cell_Name var, cell_KubeMaster var, cell_KubeConfig var]
     \<and> (\<forall>a \<in> var_cells var. a < n)"

lemma share_conf:
  assumes "shares_pointers cv"
  shows "Convert_config_Configuration cv var s = Inr (\<lparr>v_Name = Some (cell_Name var),
     v_KubeMaster = Some (cell_KubeMaster var), v_KubeConfig = Some (cell_KubeConfig var)\<rparr>, s)"
  using assms by (simp add: Convert_config_Configuration_def shares_pointers_def)

abbreviation var_pointers :: "conf_cells \<Rightarrow> v1beta1_Configuration" where
  "var_pointers var \<equiv> \<lparr>v_Name = Some (cell_Name var), v_KubeMaster = Some (cell_KubeMaster var),
     v_KubeConfig = Some (cell_KubeConfig var)\<rparr>"

lemma convert_clusters_out_shares:
  assumes "shares_pointers cv"
  shows "convert_clusters_out cv var m out s
    = Inr (fold (\<lambda>(k, c). ginsert k (var_pointers var)) m out, fold (\<lambda>(k, c). assign_conf var c) m s)"
  by (induction m arbitrary: out s) (auto simp: share_conf [OF assms])

lemma read_var:
  assumes "distinct [cell_Name var, cell_KubeMaster var, cell_KubeConfig var]"
  shows "read_conf (assign_conf var c s) (var_pointers var) = c"
  using assms by (simp add: read_conf_def read_str_def assign_conf_def)

lemma read_last:
  assumes "distinct [cell_Name var, cell_KubeMaster var, cell_KubeConfig var]" "m \<noteq> []"
  shows "read_conf (fold (\<lambda>(k, c). assign_conf var c) m s) (var_pointers var) = snd (last m)"
proof -
  have "fold (\<lambda>(k, c). assign_conf var c) m s
      = assign_conf var (snd (last m)) (fold (\<lambda>(k, c). assign_conf var c) (butlast m) s)"
    using assms(2) by (subst append_butlast_last_id [symmetric, OF assms(2)], subst fold_append)
      (simp add: split_def)
  then show ?thesis using read_var [OF assms(1)] by simp
qed

lemma read_str_assign_conf:
  "a \<notin> var_cells var \<Longrightarrow> str_at (fold (\<lambda>(k, c). assign_conf var c) m s) a = str_at s a"
  by (induction m arbitrary: s) (auto simp: assign_conf_def var_cells_def)

lemma fold_same_value:
  "gmap_ok (acc @ map (\<lambda>(k, c). (k, v)) m) \<Longrightarrow>
     fold (\<lambda>(k, c). ginsert k v) m acc = acc @ map (\<lambda>(k, c). (k, v)) m"
proof -
  assume "gmap_ok (acc @ map (\<lambda>(k, c). (k, v)) m)"
  from fold_ginsert_append [OF this] show ?thesis by (simp add: fold_map comp_def split_def)
qed

lemma alloc_conf_props:
  assumes "alloc_conf s = (var, s')"
  shows "var_ok var (next_str s')" "next_str s \<le> next_str s'"
    "a < next_str s \<Longrightarrow> str_at s' a = str_at s a" "a < next_str s \<Longrightarrow> a \<notin> var_cells var"
  using assms by (auto simp: alloc_conf_def Let_def alloc_def var_ok_def var_cells_def str_at_def)

text \<open>The converted arguments point to the two strings of the source and to the loop variable.\<close>

lemma Convert_config_shares:
  assumes "shares_pointers cv" "gmap_ok m"
  obtains var s' where "Convert_config_SchedulingArgs cv pc mc (Some m) s =
      Inr (\<lparr>v_KubeConfigPath = Some pc, v_args_KubeMaster = Some mc,
        v_ClusterConfiguration = Some (map (\<lambda>(k, c). (k, var_pointers var)) m)\<rparr>, s')"
    "gmap_ok (map (\<lambda>(k, c). (k, var_pointers var)) m)"
    "\<forall>a < next_str s. str_at s' a = str_at s a \<and> a \<notin> var_cells var"
    "m \<noteq> [] \<longrightarrow> read_map s' (map (\<lambda>(k, c). (k, var_pointers var)) m) = map (\<lambda>(k, c). (k, snd (last m))) m"
proof -
  obtain var s3 where var: "alloc_conf s = (var, s3)" by (cases "alloc_conf s")
  note va = alloc_conf_props [OF var]
  have dist: "distinct [cell_Name var, cell_KubeMaster var, cell_KubeConfig var]"
    using va(1) by (simp add: var_ok_def)
  let ?s' = "fold (\<lambda>(k, c). assign_conf var c) m s3"
  let ?m' = "map (\<lambda>(k, c). (k, var_pointers var)) m"
  have keys: "gmap_ok ?m'" using assms(2) by (simp add: gmap_ok_def comp_def split_def)
  have out: "convert_clusters_out cv var m gomake s3 = Inr (?m', ?s')"
    using convert_clusters_out_shares [OF assms(1)] fold_same_value [of gomake "var_pointers var" m] keys
    by simp
  have rd: "read_map ?s' ?m' = map (\<lambda>(k, c). (k, snd (last m))) m" if "m \<noteq> []"
    using read_last [OF dist that, of s3] by (simp add: read_map_def split_def comp_def)
  show ?thesis
    by (rule that [OF _ keys _ impI [OF rd]])
       (use var out assms(1) va(3,4) read_str_assign_conf [OF va(4), of _ m s3] in
         \<open>simp_all add: Convert_config_SchedulingArgs_def shares_pointers_def\<close>)
qed

end
