(* ===== verification/Config_Properties.thy ===== *)
theory Config_Properties
  imports Conversion_Laws
begin

text \<open>The properties of the argument conversions, with their witnesses.\<close>

definition sharing :: conversions where
  "sharing = \<lparr>Pointer_string_To_string = (\<lambda>s p. Inr (case p of None \<Rightarrow> '''' | Some a \<Rightarrow> str_at s a)),
     string_To_Pointer_string = (\<lambda>s c. Inr (Some c, s))\<rparr>"

lemma conversions_ok [simp]: "reads_pointers sharing" "shares_pointers sharing"
  by (simp_all add: reads_pointers_def shares_pointers_def sharing_def)

definition args_store :: store where
  "args_store = \<lparr>next_str = 2, strs = [0 \<mapsto> ''/kube'', 1 \<mapsto> ''master'']\<rparr>"

definition two_clusters :: "(string, Configuration) gomap" where
  "two_clusters = [(''east'', \<lparr>conf_Name = ''east'', conf_KubeMaster = ''m1'', conf_KubeConfig = ''k1''\<rparr>),
     (''west'', \<lparr>conf_Name = ''west'', conf_KubeMaster = ''m2'', conf_KubeConfig = ''k2''\<rparr>)]"

text \<open>Replacing every value by the last one changes nothing exactly when all are equal.\<close>

lemma map_last_same:
  assumes "m \<noteq> []"
  shows "map (\<lambda>(k, c). (k, snd (last m))) m = m \<longleftrightarrow> (\<forall>c \<in> snd ` set m. \<forall>c' \<in> snd ` set m. c = c')"
proof -
  have "map (\<lambda>(k, c). (k, d)) xs = xs \<longleftrightarrow> (\<forall>c \<in> snd ` set xs. c = d)" for d and xs :: "('a \<times> 'b) list"
    by (induction xs) auto
  moreover have "snd (last m) \<in> snd ` set m" using last_in_set [OF assms] by (rule imageI)
  ultimately show ?thesis by metis
qed

text \<open>
  C36. When internal arguments survive the conversion to v1beta1 and back, with the string
  conversions of apimachinery v0.20.5 (a pointer is read by copying the string, and made by handing
  the given pointer on). The conversion never fails, and the way back yields the arguments it
  started from if and only if all clusters have the same name, master and kube config: a nil, empty
  or one-element map comes back, two different clusters do not. The versioned arguments are no
  copy: a later write to the kube config path of the source shows when they are converted back.
\<close>

theorem conversion_roundtrip:
  assumes "reads_pointers cv" "shares_pointers cv" "pc < next_str s" "mc < next_str s"
    and "\<forall>m. clusters = Some m \<longrightarrow> gmap_ok m"
  shows "\<exists>v s'. Convert_config_SchedulingArgs cv pc mc clusters s = Inr (v, s')
    \<and> (Convert_v1beta1_SchedulingArgs cv s' v = Inr \<lparr>args_KubeConfigPath = str_at s pc,
          args_KubeMaster = str_at s mc, ClusterConfiguration = clusters\<rparr>
        \<longleftrightarrow> (\<forall>m. clusters = Some m \<longrightarrow> (\<forall>c \<in> snd ` set m. \<forall>c' \<in> snd ` set m. c = c')))
    \<and> (\<forall>x. \<exists>r. Convert_v1beta1_SchedulingArgs cv (assign pc x s') v = Inr r \<and> args_KubeConfigPath r = x)"
proof (cases clusters)
  case None
  then show ?thesis
    using assms(2) by (simp add: Convert_config_SchedulingArgs_def shares_pointers_def
        Convert_v1beta1_SchedulingArgs_eq [OF assms(1)] read_str_def)
next
  case (Some m)
  have m: "gmap_ok m" using assms(5) Some by simp
  obtain var s' where run: "Convert_config_SchedulingArgs cv pc mc (Some m) s =
      Inr (\<lparr>v_KubeConfigPath = Some pc, v_args_KubeMaster = Some mc,
        v_ClusterConfiguration = Some (map (\<lambda>(k, c). (k, var_pointers var)) m)\<rparr>, s')"
    and keys: "gmap_ok (map (\<lambda>(k, c). (k, var_pointers var)) m)"
    and old: "\<forall>a < next_str s. str_at s' a = str_at s a \<and> a \<notin> var_cells var"
    and rd: "m \<noteq> [] \<longrightarrow> read_map s' (map (\<lambda>(k, c). (k, var_pointers var)) m) = map (\<lambda>(k, c). (k, snd (last m))) m"
    by (rule Convert_config_shares [OF assms(2) m, where pc = pc and mc = mc and s = s])
  have "read_map s' (map (\<lambda>(k, c). (k, var_pointers var)) m) = m
      \<longleftrightarrow> (\<forall>c \<in> snd ` set m. \<forall>c' \<in> snd ` set m. c = c')"
  proof (cases "m = []")
    case False
    then show ?thesis unfolding mp [OF rd False] by (rule map_last_same)
  qed (simp add: read_map_def)
  then show ?thesis
    using run old assms(3,4) keys unfolding Some
    by (simp add: Convert_v1beta1_SchedulingArgs_eq [OF assms(1)] read_str_def)
qed

theorem conversion_roundtrip_witness:
  "(\<exists>v s'. Convert_config_SchedulingArgs sharing 0 1 (Some (take 1 two_clusters)) args_store = Inr (v, s')
      \<and> Convert_v1beta1_SchedulingArgs sharing s' v = Inr \<lparr>args_KubeConfigPath = ''/kube'',
          args_KubeMaster = ''master'', ClusterConfiguration = Some (take 1 two_clusters)\<rparr>)
    \<and> (\<exists>v s'. Convert_config_SchedulingArgs sharing 0 1 (Some two_clusters) args_store = Inr (v, s')
      \<and> Convert_v1beta1_SchedulingArgs sharing s' v \<noteq> Inr \<lparr>args_KubeConfigPath = ''/kube'',
          args_KubeMaster = ''master'', ClusterConfiguration = Some two_clusters\<rparr>)"
proof -
  have st: "str_at args_store 0 = ''/kube''" "str_at args_store 1 = ''master''" "0 < next_str args_store"
    "1 < next_str args_store"
    by (simp_all add: str_at_def args_store_def)
  have one: "gmap_ok (take 1 two_clusters)" "\<forall>c \<in> snd ` set (take 1 two_clusters). \<forall>c' \<in> snd ` set (take 1 two_clusters). c = c'"
    and two: "gmap_ok two_clusters" "\<not> (\<forall>c \<in> snd ` set two_clusters. \<forall>c' \<in> snd ` set two_clusters. c = c')"
    by (simp_all add: two_clusters_def gmap_ok_def)
  have rt: "\<exists>v s'. Convert_config_SchedulingArgs sharing 0 1 (Some m) args_store = Inr (v, s')
    \<and> (Convert_v1beta1_SchedulingArgs sharing s' v = Inr \<lparr>args_KubeConfigPath = ''/kube'',
        args_KubeMaster = ''master'', ClusterConfiguration = Some m\<rparr>
      \<longleftrightarrow> (\<forall>c \<in> snd ` set m. \<forall>c' \<in> snd ` set m. c = c'))" if "gmap_ok m" for m
    using conversion_roundtrip [OF conversions_ok st(3,4), of "Some m"] that
    by (simp only: st(1,2) option.inject simp_thms) blast
  show ?thesis using rt [OF one(1)] rt [OF two(1)] one(2) two(2) by blast
qed

text \<open>
  C37. If that string conversion returns the pointer it is given, the clusters collapse: every
  entry of the converted map points to the fields of the loop variable, so converting back gives
  each cluster the name, master and kube config of the last one in the iteration order.
\<close>

theorem conversion_shares_loop_variable:
  assumes "reads_pointers cv" "shares_pointers cv" "pc < next_str s" "mc < next_str s"
    and "gmap_ok m" "m \<noteq> []"
  shows "\<exists>v s'. Convert_config_SchedulingArgs cv pc mc (Some m) s = Inr (v, s')
    \<and> Convert_v1beta1_SchedulingArgs cv s' v = Inr \<lparr>args_KubeConfigPath = str_at s pc,
        args_KubeMaster = str_at s mc,
        ClusterConfiguration = Some (map (\<lambda>(k, c). (k, snd (last m))) m)\<rparr>"
proof -
  obtain var s' where "Convert_config_SchedulingArgs cv pc mc (Some m) s =
      Inr (\<lparr>v_KubeConfigPath = Some pc, v_args_KubeMaster = Some mc,
        v_ClusterConfiguration = Some (map (\<lambda>(k, c). (k, var_pointers var)) m)\<rparr>, s')"
    "gmap_ok (map (\<lambda>(k, c). (k, var_pointers var)) m)"
    "\<forall>a < next_str s. str_at s' a = str_at s a \<and> a \<notin> var_cells var"
    "m \<noteq> [] \<longrightarrow> read_map s' (map (\<lambda>(k, c). (k, var_pointers var)) m) = map (\<lambda>(k, c). (k, snd (last m))) m"
    by (rule Convert_config_shares [OF assms(2,5), where pc = pc and mc = mc and s = s])
  then show ?thesis
    using assms(3,4,6) by (simp add: Convert_v1beta1_SchedulingArgs_eq [OF assms(1)] read_str_def)
qed

theorem conversion_shares_loop_variable_witness:
  "\<exists>v s'. Convert_config_SchedulingArgs sharing 0 1 (Some two_clusters) args_store = Inr (v, s')
    \<and> Convert_v1beta1_SchedulingArgs sharing s' v = Inr \<lparr>args_KubeConfigPath = ''/kube'',
        args_KubeMaster = ''master'', ClusterConfiguration = Some
        [(''east'', \<lparr>conf_Name = ''west'', conf_KubeMaster = ''m2'', conf_KubeConfig = ''k2''\<rparr>),
         (''west'', \<lparr>conf_Name = ''west'', conf_KubeMaster = ''m2'', conf_KubeConfig = ''k2''\<rparr>)]\<rparr>"
proof -
  have "str_at args_store 0 = ''/kube''" "str_at args_store 1 = ''master''" "1 < next_str args_store"
    "0 < next_str args_store" "gmap_ok two_clusters" "two_clusters \<noteq> []"
    "map (\<lambda>(k, c). (k, snd (last two_clusters))) two_clusters =
       [(''east'', \<lparr>conf_Name = ''west'', conf_KubeMaster = ''m2'', conf_KubeConfig = ''k2''\<rparr>),
        (''west'', \<lparr>conf_Name = ''west'', conf_KubeMaster = ''m2'', conf_KubeConfig = ''k2''\<rparr>)]"
    by (simp_all add: str_at_def args_store_def two_clusters_def gmap_ok_def)
  then show ?thesis
    using conversion_shares_loop_variable [OF conversions_ok, of 0 args_store 1 two_clusters] by simp
qed

end
