(* ===== verification/Deep_Copy.thy ===== *)
theory Deep_Copy
  imports Api_Types
begin

text \<open>
  The generated deep copies of the custom resource
  (\<open>pkg/apis/scheduling/v1alpha1/zz_generated.deepcopy.go\<close>). The structs are modelled as they
  lie in memory: a slice or a pointer is an address (\<open>None\<close> for nil), a \<open>mem\<close> maps addresses to
  arrays and objects. \<open>metav1.ObjectMeta\<close>, \<open>ListMeta\<close> and \<open>LabelSelector\<close> are structs of apimachinery
  with maps and slices of their own. Their types are type variables, the cells of their maps and
  slices are \<open>Ext\<close> cells of a further unknown type, and their \<open>DeepCopyInto\<close> functions are
  parameters (\<open>apimeta\<close>), so that leaving one of the calls out leaves the copy sharing these cells.

  The locale \<open>deep_copier\<close> states what a client of a deep copy relies on; it is proved for
  every generated function.
\<close>

section \<open>Memory\<close>

record go_UpdatePolicy =
  g_MaxSkew :: int32
  g_UpdateSequence :: "nat option"

record go_Spec =
  g_TopologyKey :: string
  g_ScheduleStrategy :: string
  g_DeployPlacement :: "nat option"
  g_UpdatePlacement :: "nat option"
  g_LabelSelector :: "nat option"

record go_Status =
  g_Placement :: "nat option"

record go_DeployPlacement =
  WhenUnsatisfiable :: string
  g_Policy :: "nat option"

record TypeMeta =
  tm_Kind :: string
  tm_APIVersion :: string

record 'om go_Policy =
  g_TypeMeta :: TypeMeta
  g_ObjectMeta :: 'om
  g_Spec :: go_Spec
  g_Status :: go_Status

record 'lm go_PolicyList =
  gl_TypeMeta :: TypeMeta
  g_ListMeta :: 'lm
  g_Items :: "nat option"

datatype ('om, 'ls, 'x) cell =
    SchedArr "SchedulePolicy list"
  | StrArr "string list"
  | UpdArr "go_UpdatePolicy list"
  | SelCell 'ls
  | PolArr "'om go_Policy list"
  | Ext 'x

record ('om, 'ls, 'x) mem =
  next_cell :: nat
  cell_at :: "nat \<rightharpoonup> ('om, 'ls, 'x) cell"

text \<open>
  What the generated code uses of apimachinery: the three \<open>DeepCopyInto\<close>, and the zero values of
  the structs that \<open>make\<close> and \<open>new\<close> put into fresh memory.
\<close>

record ('om, 'lm, 'ls, 'x) apimeta =
  ObjectMeta_DeepCopyInto :: "'om \<Rightarrow> ('om, 'ls, 'x) mem \<Rightarrow> 'om \<times> ('om, 'ls, 'x) mem"
  ListMeta_DeepCopyInto :: "'lm \<Rightarrow> ('om, 'ls, 'x) mem \<Rightarrow> 'lm \<times> ('om, 'ls, 'x) mem"
  LabelSelector_DeepCopyInto :: "'ls \<Rightarrow> ('om, 'ls, 'x) mem \<Rightarrow> 'ls \<times> ('om, 'ls, 'x) mem"
  zero_ObjectMeta :: 'om
  zero_LabelSelector :: 'ls

definition alloc_cell :: "('om, 'ls, 'x) cell \<Rightarrow> ('om, 'ls, 'x) mem \<Rightarrow> nat \<times> ('om, 'ls, 'x) mem" where
  "alloc_cell c m = (next_cell m,
     m\<lparr>next_cell := Suc (next_cell m), cell_at := (cell_at m)(next_cell m \<mapsto> c)\<rparr>)"

definition set_cell :: "nat \<Rightarrow> ('om, 'ls, 'x) cell \<Rightarrow> ('om, 'ls, 'x) mem \<Rightarrow> ('om, 'ls, 'x) mem" where
  "set_cell a c m = m\<lparr>cell_at := (cell_at m)(a \<mapsto> c)\<rparr>"

fun sched_arr :: "('om, 'ls, 'x) cell option \<Rightarrow> SchedulePolicy list" where
  "sched_arr (Some (SchedArr xs)) = xs" | "sched_arr _ = []"

fun str_arr :: "('om, 'ls, 'x) cell option \<Rightarrow> string list" where
  "str_arr (Some (StrArr xs)) = xs" | "str_arr _ = []"

fun upd_arr :: "('om, 'ls, 'x) cell option \<Rightarrow> go_UpdatePolicy list" where
  "upd_arr (Some (UpdArr xs)) = xs" | "upd_arr _ = []"

fun pol_arr :: "('om, 'ls, 'x) cell option \<Rightarrow> 'om go_Policy list" where
  "pol_arr (Some (PolArr xs)) = xs" | "pol_arr _ = []"

fun sel_at :: "'ls \<Rightarrow> ('om, 'ls, 'x) cell option \<Rightarrow> 'ls" where
  "sel_at zero (Some (SelCell ls)) = ls" | "sel_at zero _ = zero"

section \<open>The generated functions\<close>

text \<open>A loop that copies the elements of a slice of structs, in order.\<close>

fun copy_each :: "('v \<Rightarrow> 'm \<Rightarrow> 'v \<times> 'm) \<Rightarrow> 'v list \<Rightarrow> 'm \<Rightarrow> 'v list \<times> 'm" where
  "copy_each cp [] m = ([], m)"
| "copy_each cp (v # vs) m = (let (v', m1) = cp v m; (vs', m2) = copy_each cp vs m1 in (v' # vs', m2))"

text \<open>\<open>make([]SchedulePolicy, len(*in)); copy(*out, *in)\<close>, and the same for strings.\<close>

definition copy_sched_slice :: "nat option \<Rightarrow> ('om, 'ls, 'x) mem \<Rightarrow> nat option \<times> ('om, 'ls, 'x) mem" where
  "copy_sched_slice p m = (case p of None \<Rightarrow> (None, m)
     | Some a \<Rightarrow> (let (b, m') = alloc_cell (SchedArr (sched_arr (cell_at m a))) m in (Some b, m')))"

definition copy_str_slice :: "nat option \<Rightarrow> ('om, 'ls, 'x) mem \<Rightarrow> nat option \<times> ('om, 'ls, 'x) mem" where
  "copy_str_slice p m = (case p of None \<Rightarrow> (None, m)
     | Some a \<Rightarrow> (let (b, m') = alloc_cell (StrArr (str_arr (cell_at m a))) m in (Some b, m')))"

text \<open>\<open>*out = new(v1.LabelSelector); (*in).DeepCopyInto(*out)\<close>.\<close>

definition copy_selector ::
    "('om, 'lm, 'ls, 'x) apimeta \<Rightarrow> nat option \<Rightarrow> ('om, 'ls, 'x) mem \<Rightarrow> nat option \<times> ('om, 'ls, 'x) mem" where
  "copy_selector lib p m = (case p of None \<Rightarrow> (None, m)
     | Some a \<Rightarrow>
         (let (b, m1) = alloc_cell (SelCell (zero_LabelSelector lib)) m;
              (ls, m2) = LabelSelector_DeepCopyInto lib (sel_at (zero_LabelSelector lib) (cell_at m a)) m1
          in (Some b, set_cell b (SelCell ls) m2)))"

definition UpdatePolicy_DeepCopyInto ::
    "go_UpdatePolicy \<Rightarrow> ('om, 'ls, 'x) mem \<Rightarrow> go_UpdatePolicy \<times> ('om, 'ls, 'x) mem" where
  "UpdatePolicy_DeepCopyInto inp m =
     (let (s, m') = copy_str_slice (g_UpdateSequence inp) m in (inp\<lparr>g_UpdateSequence := s\<rparr>, m'))"

definition copy_upd_slice :: "nat option \<Rightarrow> ('om, 'ls, 'x) mem \<Rightarrow> nat option \<times> ('om, 'ls, 'x) mem" where
  "copy_upd_slice p m = (case p of None \<Rightarrow> (None, m)
     | Some a \<Rightarrow>
         (let us = upd_arr (cell_at m a);
              (b, m1) = alloc_cell (UpdArr (replicate (length us) \<lparr>g_MaxSkew = 0, g_UpdateSequence = None\<rparr>)) m;
              (us', m2) = copy_each UpdatePolicy_DeepCopyInto us m1
          in (Some b, set_cell b (UpdArr us') m2)))"

definition Spec_DeepCopyInto ::
    "('om, 'lm, 'ls, 'x) apimeta \<Rightarrow> go_Spec \<Rightarrow> ('om, 'ls, 'x) mem \<Rightarrow> go_Spec \<times> ('om, 'ls, 'x) mem" where
  "Spec_DeepCopyInto lib inp m =
     (let (d, m1) = copy_sched_slice (g_DeployPlacement inp) m;
          (u, m2) = copy_upd_slice (g_UpdatePlacement inp) m1;
          (l, m3) = copy_selector lib (g_LabelSelector inp) m2
      in (inp\<lparr>g_DeployPlacement := d, g_UpdatePlacement := u, g_LabelSelector := l\<rparr>, m3))"

definition Status_DeepCopyInto ::
    "go_Status \<Rightarrow> ('om, 'ls, 'x) mem \<Rightarrow> go_Status \<times> ('om, 'ls, 'x) mem" where
  "Status_DeepCopyInto inp m =
     (let (p, m') = copy_sched_slice (g_Placement inp) m in (inp\<lparr>g_Placement := p\<rparr>, m'))"

definition DeployPlacement_DeepCopyInto ::
    "go_DeployPlacement \<Rightarrow> ('om, 'ls, 'x) mem \<Rightarrow> go_DeployPlacement \<times> ('om, 'ls, 'x) mem" where
  "DeployPlacement_DeepCopyInto inp m =
     (let (p, m') = copy_sched_slice (g_Policy inp) m in (inp\<lparr>g_Policy := p\<rparr>, m'))"

definition SchedulePolicy_DeepCopyInto ::
    "SchedulePolicy \<Rightarrow> ('om, 'ls, 'x) mem \<Rightarrow> SchedulePolicy \<times> ('om, 'ls, 'x) mem" where
  "SchedulePolicy_DeepCopyInto inp m = (inp, m)"

definition Policy_DeepCopyInto ::
    "('om, 'lm, 'ls, 'x) apimeta \<Rightarrow> 'om go_Policy \<Rightarrow> ('om, 'ls, 'x) mem \<Rightarrow> 'om go_Policy \<times> ('om, 'ls, 'x) mem" where
  "Policy_DeepCopyInto lib inp m =
     (let (om, m1) = ObjectMeta_DeepCopyInto lib (g_ObjectMeta inp) m;
          (sp, m2) = Spec_DeepCopyInto lib (g_Spec inp) m1;
          (st, m3) = Status_DeepCopyInto (g_Status inp) m2
      in (inp\<lparr>g_TypeMeta := g_TypeMeta inp, g_ObjectMeta := om, g_Spec := sp, g_Status := st\<rparr>, m3))"

definition zero_policy :: "('om, 'lm, 'ls, 'x) apimeta \<Rightarrow> 'om go_Policy" where
  "zero_policy lib = \<lparr>g_TypeMeta = \<lparr>tm_Kind = '''', tm_APIVersion = ''''\<rparr>, g_ObjectMeta = zero_ObjectMeta lib,
     g_Spec = \<lparr>g_TopologyKey = '''', g_ScheduleStrategy = '''', g_DeployPlacement = None,
       g_UpdatePlacement = None, g_LabelSelector = None\<rparr>,
     g_Status = \<lparr>g_Placement = None\<rparr>\<rparr>"

definition copy_policy_slice ::
    "('om, 'lm, 'ls, 'x) apimeta \<Rightarrow> nat option \<Rightarrow> ('om, 'ls, 'x) mem \<Rightarrow> nat option \<times> ('om, 'ls, 'x) mem" where
  "copy_policy_slice lib p m = (case p of None \<Rightarrow> (None, m)
     | Some a \<Rightarrow>
         (let ps = pol_arr (cell_at m a);
              (b, m1) = alloc_cell (PolArr (replicate (length ps) (zero_policy lib))) m;
              (ps', m2) = copy_each (Policy_DeepCopyInto lib) ps m1
          in (Some b, set_cell b (PolArr ps') m2)))"

definition PolicyList_DeepCopyInto ::
    "('om, 'lm, 'ls, 'x) apimeta \<Rightarrow> 'lm go_PolicyList \<Rightarrow> ('om, 'ls, 'x) mem \<Rightarrow> 'lm go_PolicyList \<times> ('om, 'ls, 'x) mem" where
  "PolicyList_DeepCopyInto lib inp m =
     (let (lm, m1) = ListMeta_DeepCopyInto lib (g_ListMeta inp) m;
          (ps, m2) = copy_policy_slice lib (g_Items inp) m1
      in (inp\<lparr>gl_TypeMeta := gl_TypeMeta inp, g_ListMeta := lm, g_Items := ps\<rparr>, m2))"

text \<open>\<open>DeepCopy\<close> of a pointer receiver: nil for nil, else a new object filled by \<open>DeepCopyInto\<close>.\<close>

definition DeepCopy :: "('v \<Rightarrow> 'm \<Rightarrow> 'v \<times> 'm) \<Rightarrow> 'v option \<Rightarrow> 'm \<Rightarrow> 'v option \<times> 'm" where
  "DeepCopy into inp m = (case inp of
     None \<Rightarrow> (None, m)
   | Some v \<Rightarrow> (let (v', m') = into v m in (Some v', m')))"

text \<open>The \<open>DeepCopy\<close> of every type.\<close>

definition DeployPlacement_DeepCopy ::
    "go_DeployPlacement option \<Rightarrow> ('om, 'ls, 'x) mem \<Rightarrow> go_DeployPlacement option \<times> ('om, 'ls, 'x) mem" where
  "DeployPlacement_DeepCopy = DeepCopy DeployPlacement_DeepCopyInto"

definition SchedulePolicy_DeepCopy ::
    "SchedulePolicy option \<Rightarrow> ('om, 'ls, 'x) mem \<Rightarrow> SchedulePolicy option \<times> ('om, 'ls, 'x) mem" where
  "SchedulePolicy_DeepCopy = DeepCopy SchedulePolicy_DeepCopyInto"

definition UpdatePolicy_DeepCopy ::
    "go_UpdatePolicy option \<Rightarrow> ('om, 'ls, 'x) mem \<Rightarrow> go_UpdatePolicy option \<times> ('om, 'ls, 'x) mem" where
  "UpdatePolicy_DeepCopy = DeepCopy UpdatePolicy_DeepCopyInto"

definition Spec_DeepCopy ::
    "('om, 'lm, 'ls, 'x) apimeta \<Rightarrow> go_Spec option \<Rightarrow> ('om, 'ls, 'x) mem \<Rightarrow> go_Spec option \<times> ('om, 'ls, 'x) mem" where
  "Spec_DeepCopy lib = DeepCopy (Spec_DeepCopyInto lib)"

definition Status_DeepCopy ::
    "go_Status option \<Rightarrow> ('om, 'ls, 'x) mem \<Rightarrow> go_Status option \<times> ('om, 'ls, 'x) mem" where
  "Status_DeepCopy = DeepCopy Status_DeepCopyInto"

definition Policy_DeepCopy ::
    "('om, 'lm, 'ls, 'x) apimeta \<Rightarrow> 'om go_Policy option \<Rightarrow> ('om, 'ls, 'x) mem \<Rightarrow> 'om go_Policy option \<times> ('om, 'ls, 'x) mem" where
  "Policy_DeepCopy lib = DeepCopy (Policy_DeepCopyInto lib)"

definition PolicyList_DeepCopy ::
    "('om, 'lm, 'ls, 'x) apimeta \<Rightarrow> 'lm go_PolicyList option \<Rightarrow> ('om, 'ls, 'x) mem \<Rightarrow> 'lm go_PolicyList option \<times> ('om, 'ls, 'x) mem" where
  "PolicyList_DeepCopy lib = DeepCopy (PolicyList_DeepCopyInto lib)"

lemmas DeepCopy_defs = DeployPlacement_DeepCopy_def SchedulePolicy_DeepCopy_def UpdatePolicy_DeepCopy_def Spec_DeepCopy_def Status_DeepCopy_def Policy_DeepCopy_def PolicyList_DeepCopy_def DeepCopy_def

text \<open>\<open>DeepCopyObject\<close> wraps a non-nil copy in an interface and returns a nil interface otherwise.\<close>

definition Policy_DeepCopyObject ::
    "('om, 'lm, 'ls, 'x) apimeta \<Rightarrow> 'om go_Policy option \<Rightarrow> ('om, 'ls, 'x) mem \<Rightarrow> 'om go_Policy option \<times> ('om, 'ls, 'x) mem" where
  "Policy_DeepCopyObject lib inp m = (case Policy_DeepCopy lib inp m of
     (Some c, m') \<Rightarrow> (Some c, m')
   | (None, m') \<Rightarrow> (None, m'))"

definition PolicyList_DeepCopyObject ::
    "('om, 'lm, 'ls, 'x) apimeta \<Rightarrow> 'lm go_PolicyList option \<Rightarrow> ('om, 'ls, 'x) mem \<Rightarrow> 'lm go_PolicyList option \<times> ('om, 'ls, 'x) mem" where
  "PolicyList_DeepCopyObject lib inp m = (case PolicyList_DeepCopy lib inp m of
     (Some c, m') \<Rightarrow> (Some c, m')
   | (None, m') \<Rightarrow> (None, m'))"

lemma length_copy_each: "copy_each cp vs m = (vs', m') \<Longrightarrow> length vs' = length vs"
  by (induction vs arbitrary: m vs' m') (auto simp: Let_def split: prod.splits)

section \<open>The contract\<close>

text \<open>
  \<open>reach\<close> are the addresses reachable from a value, \<open>read\<close> the value with all pointers
  followed. A copy reads as the original, only uses new addresses, and leaves the old ones alone.
\<close>

locale deep_copier =
  fixes nxt :: "'m \<Rightarrow> nat" and at :: "'m \<Rightarrow> nat \<Rightarrow> 'c option"
    and reach :: "'m \<Rightarrow> 'v \<Rightarrow> nat set" and read :: "'m \<Rightarrow> 'v \<Rightarrow> 'a"
    and copy :: "'v \<Rightarrow> 'm \<Rightarrow> 'v \<times> 'm"
  assumes reads_local: "(\<And>a. a \<in> reach m v \<Longrightarrow> at m' a = at m a) \<Longrightarrow> read m' v = read m v \<and> reach m' v = reach m v"
    and grows: "copy v m = (v', m') \<Longrightarrow> nxt m \<le> nxt m'"
    and keeps: "copy v m = (v', m') \<Longrightarrow> a < nxt m \<Longrightarrow> at m' a = at m a"
    and reads: "copy v m = (v', m') \<Longrightarrow> reach m v \<subseteq> {..<nxt m} \<Longrightarrow> read m' v' = read m v"
    and fresh: "copy v m = (v', m') \<Longrightarrow> reach m v \<subseteq> {..<nxt m} \<Longrightarrow> reach m' v' \<subseteq> {nxt m..<nxt m'}"
begin

lemma original_kept:
  assumes "copy v m = (v', m')" "reach m v \<subseteq> {..<nxt m}"
  shows "read m' v = read m v" "reach m' v = reach m v"
  using reads_local [of m v m'] keeps [OF assms(1)] assms(2) by blast+

text \<open>A later change that stays within the copy's memory does not show in the original.\<close>

lemma copy_isolated:
  assumes "copy v m = (v', m')" "reach m v \<subseteq> {..<nxt m}"
    and "\<And>a. a \<notin> reach m' v' \<Longrightarrow> at m2 a = at m' a"
  shows "read m2 v = read m v"
proof -
  have "reach m v \<inter> reach m' v' = {}" using assms(2) fresh [OF assms(1,2)] by fastforce
  then have "at m2 a = at m a" if "a \<in> reach m v" for a
    using that assms(2,3) keeps [OF assms(1)] by fastforce
  then show ?thesis using reads_local by blast
qed

text \<open>A later change within the original's memory does not show in the copy.\<close>

lemma original_isolated:
  assumes "copy v m = (v', m')" "reach m v \<subseteq> {..<nxt m}"
    and "\<And>a. a \<notin> reach m v \<Longrightarrow> at m2 a = at m' a"
  shows "read m2 v' = read m v"
proof -
  have "reach m v \<inter> reach m' v' = {}" using assms(2) fresh [OF assms(1,2)] by fastforce
  then have "at m2 a = at m' a" if "a \<in> reach m' v'" for a
    using that assms(3) by blast
  then show ?thesis using reads_local reads [OF assms(1,2)] by metis
qed

text \<open>The loop over the elements of a slice meets the contract for lists.\<close>

lemma each_grows: "copy_each copy vs m = (vs', m') \<Longrightarrow> nxt m \<le> nxt m'"
proof (induction vs arbitrary: m vs' m')
  case (Cons v vs)
  obtain v1 m1 where 1: "copy v m = (v1, m1)" by (cases "copy v m")
  obtain vs2 m2 where 2: "copy_each copy vs m1 = (vs2, m2)" by (cases "copy_each copy vs m1")
  have "m' = m2" using Cons.prems 1 2 by simp
  then show ?case using Cons.IH [OF 2] grows [OF 1] by simp
qed simp

lemma each_keeps: "copy_each copy vs m = (vs', m') \<Longrightarrow> a < nxt m \<Longrightarrow> at m' a = at m a"
proof (induction vs arbitrary: m vs' m')
  case (Cons v vs)
  obtain v1 m1 where 1: "copy v m = (v1, m1)" by (cases "copy v m")
  obtain vs2 m2 where 2: "copy_each copy vs m1 = (vs2, m2)" by (cases "copy_each copy vs m1")
  have "m' = m2" using Cons.prems(1) 1 2 by simp
  then show ?case using Cons.IH [OF 2] keeps [OF 1 Cons.prems(2)] grows [OF 1] Cons.prems(2) by simp
qed simp

lemma each_copies:
  assumes "copy_each copy vs m = (vs', m')" "(\<Union>v \<in> set vs. reach m v) \<subseteq> {..<nxt m}"
  shows "map (read m') vs' = map (read m) vs \<and> (\<Union>v \<in> set vs'. reach m' v) \<subseteq> {nxt m..<nxt m'}"
  using assms
proof (induction vs arbitrary: m vs' m')
  case (Cons v vs)
  obtain v1 m1 where 1: "copy v m = (v1, m1)" by (cases "copy v m")
  obtain vs2 m2 where 2: "copy_each copy vs m1 = (vs2, m2)" by (cases "copy_each copy vs m1")
  have eq: "vs' = v1 # vs2" "m' = m2" using Cons.prems(1) 1 2 by simp_all
  have rv: "reach m v \<subseteq> {..<nxt m}" using Cons.prems(2) by simp
  note f = fresh [OF 1 rv] and r = reads [OF 1 rv]
  have rw: "reach m w \<subseteq> {..<nxt m}" if "w \<in> set vs" for w
    using Cons.prems(2) that by (auto simp only: list.set UN_insert Un_subset_iff UN_subset_iff)
  have old: "read m1 w = read m w \<and> reach m1 w = reach m w" if "w \<in> set vs" for w
  proof (rule reads_local)
    fix a
    assume "a \<in> reach m w"
    then have "a < nxt m" using rw [OF that] by blast
    then show "at m1 a = at m a" by (rule keeps [OF 1])
  qed
  have "reach m1 w \<subseteq> {..<nxt m1}" if "w \<in> set vs" for w
    using rw [OF that] old [OF that] grows [OF 1] by (simp add: subset_iff) (meson less_le_trans)
  then have "(\<Union>w \<in> set vs. reach m1 w) \<subseteq> {..<nxt m1}" by (rule UN_least)
  from Cons.IH [OF 2 this] have ih: "map (read m2) vs2 = map (read m1) vs"
    "(\<Union>w \<in> set vs2. reach m2 w) \<subseteq> {nxt m1..<nxt m2}" by simp_all
  have v1: "read m2 v1 = read m1 v1 \<and> reach m2 v1 = reach m1 v1"
  proof (rule reads_local)
    fix a
    assume "a \<in> reach m1 v1"
    then have "a < nxt m1" using f by auto
    then show "at m2 a = at m1 a" by (rule each_keeps [OF 2])
  qed
  have "map (read m1) vs = map (read m) vs" using old by simp
  then have "map (read m2) (v1 # vs2) = map (read m) (v # vs)" using ih(1) v1 r by simp
  moreover have "reach m2 v1 \<subseteq> {nxt m..<nxt m2}"
    using v1 f each_grows [OF 2] by (simp add: subset_iff) (meson less_le_trans)
  moreover have "(\<Union>w \<in> set vs2. reach m2 w) \<subseteq> {nxt m..<nxt m2}"
    using grows [OF 1] by (intro order_trans [OF ih(2)]) auto
  ultimately show ?case unfolding eq by simp
qed simp

end

end
