(* ===== verification/Deep_Copy_Laws.thy ===== *)
theory Deep_Copy_Laws
  imports Deep_Copy
begin

text \<open>
  Every generated copy function meets the contract \<open>deep_copier\<close>, those with metadata or a
  selector in them as far as the functions of apimachinery meet it (\<open>meta_ok\<close>). Four
  constructions carry the proofs: a flat array, a slice of structs (or a pointer to one), two fields
  copied one after the other, and a struct of which only some fields are copied.
\<close>

lemma alloc_cell_props:
  "alloc_cell c m = (b, m') \<Longrightarrow> b = next_cell m \<and> next_cell m' = Suc (next_cell m)
     \<and> cell_at m' = (cell_at m)(next_cell m \<mapsto> c)"
  by (auto simp: alloc_cell_def)

definition reach_ptr :: "('om, 'ls, 'x) mem \<Rightarrow> nat option \<Rightarrow> nat set" where
  "reach_ptr m p = set_option p"

definition read_ptr :: "(('om, 'ls, 'x) cell option \<Rightarrow> 'a) \<Rightarrow> ('om, 'ls, 'x) mem \<Rightarrow> nat option \<Rightarrow> 'a option" where
  "read_ptr get m p = map_option (\<lambda>a. get (cell_at m a)) p"

section \<open>Constructions\<close>

lemma flat_copier:
  fixes get :: "('om, 'ls, 'x) cell option \<Rightarrow> 'a"
  assumes mk: "\<And>x. get (Some (mk x)) = x"
    and cp: "\<And>p m. copy p m = (case p of None \<Rightarrow> (None, m)
        | Some a \<Rightarrow> (let (b, m') = alloc_cell (mk (get (cell_at m a))) m in (Some b, m')))"
  shows "deep_copier next_cell cell_at reach_ptr (read_ptr get) copy"
proof unfold_locales
  fix m m' :: "('om, 'ls, 'x) mem" and v
  show "read_ptr get m' v = read_ptr get m v \<and> reach_ptr m' v = reach_ptr m v"
    if "\<And>a. a \<in> reach_ptr m v \<Longrightarrow> cell_at m' a = cell_at m a"
    using that by (cases v) (simp_all add: reach_ptr_def read_ptr_def)
next
  fix m m' v v' a
  assume c: "copy v m = (v', m')"
  show "next_cell m \<le> next_cell m'" using c by (cases v) (auto simp: cp alloc_cell_def)
  show "cell_at m' a = cell_at m a" if "a < next_cell m"
    using c that by (cases v) (auto simp: cp alloc_cell_def)
  show "read_ptr get m' v' = read_ptr get m v" if "reach_ptr m v \<subseteq> {..<next_cell m}"
    using c mk by (cases v) (auto simp: cp alloc_cell_def read_ptr_def)
  show "reach_ptr m' v' \<subseteq> {next_cell m..<next_cell m'}" if "reach_ptr m v \<subseteq> {..<next_cell m}"
    using c by (cases v) (auto simp: cp alloc_cell_def reach_ptr_def)
qed

lemma pair_copier:
  assumes "deep_copier nxt at r1 rd1 c1" "deep_copier nxt at r2 rd2 c2"
  shows "deep_copier nxt at (\<lambda>m (v, w). r1 m v \<union> r2 m w) (\<lambda>m (v, w). (rd1 m v, rd2 m w))
    (\<lambda>(v, w) m. let (v', m1) = c1 v m; (w', m2) = c2 w m1 in ((v', w'), m2))"
    (is "deep_copier nxt at ?r ?rd ?c")
proof -
  note l1 = deep_copier.reads_local [OF assms(1)] and l2 = deep_copier.reads_local [OF assms(2)]
  note g1 = deep_copier.grows [OF assms(1)] and g2 = deep_copier.grows [OF assms(2)]
  note k1 = deep_copier.keeps [OF assms(1)] and k2 = deep_copier.keeps [OF assms(2)]
  note o1 = deep_copier.original_kept [OF assms(1)] and o2 = deep_copier.original_kept [OF assms(2)]
  show ?thesis
  proof unfold_locales
    fix m m' vw
    assume same: "\<And>a. a \<in> ?r m vw \<Longrightarrow> at m' a = at m a"
    obtain v w where vw: "vw = (v, w)" by (cases vw)
    have "rd1 m' v = rd1 m v \<and> r1 m' v = r1 m v" by (rule l1) (simp add: same vw)
    moreover have "rd2 m' w = rd2 m w \<and> r2 m' w = r2 m w" by (rule l2) (simp add: same vw)
    ultimately show "?rd m' vw = ?rd m vw \<and> ?r m' vw = ?r m vw" by (simp add: vw)
  next
    fix m m' vw vw' a
    assume c: "?c vw m = (vw', m')"
    obtain v w where vw: "vw = (v, w)" by (cases vw)
    obtain v' m1 where 1: "c1 v m = (v', m1)" by (cases "c1 v m")
    obtain w' where 2: "c2 w m1 = (w', m')" "vw' = (v', w')"
      using c 1 by (cases "c2 w m1") (simp add: vw)
    show "nxt m \<le> nxt m'" using g1 [OF 1] g2 [OF 2(1)] by simp
    show "at m' a = at m a" if "a < nxt m"
      using k1 [OF 1 that] k2 [OF 2(1)] g1 [OF 1] that by simp
    assume "?r m vw \<subseteq> {..<nxt m}"
    then have rv: "r1 m v \<subseteq> {..<nxt m}" and rw: "r2 m w \<subseteq> {..<nxt m}" by (simp_all add: vw)
    have w1: "rd2 m1 w = rd2 m w \<and> r2 m1 w = r2 m w"
    proof (rule l2)
      fix a
      assume "a \<in> r2 m w"
      then have "a < nxt m" using rw by blast
      then show "at m1 a = at m a" by (rule k1 [OF 1])
    qed
    then have rw1: "r2 m1 w \<subseteq> {..<nxt m1}" using rw g1 [OF 1] by fastforce
    note f1 = deep_copier.fresh [OF assms(1) 1 rv] and f2 = deep_copier.fresh [OF assms(2) 2(1) rw1]
    have v1: "rd1 m' v' = rd1 m1 v' \<and> r1 m' v' = r1 m1 v'"
    proof (rule l1)
      fix a
      assume "a \<in> r1 m1 v'"
      then have "a < nxt m1" using f1 by auto
      then show "at m' a = at m1 a" by (rule k2 [OF 2(1)])
    qed
    show "?rd m' vw' = ?rd m vw"
      using v1 w1 deep_copier.reads [OF assms(1) 1 rv] deep_copier.reads [OF assms(2) 2(1) rw1]
      by (simp add: vw 2(2))
    have "r1 m' v' \<subseteq> {nxt m..<nxt m'}" using v1 f1 g2 [OF 2(1)] by fastforce
    moreover have "r2 m' w' \<subseteq> {nxt m..<nxt m'}" using f2 g1 [OF 1] by fastforce
    ultimately show "?r m' vw' \<subseteq> {nxt m..<nxt m'}" by (simp add: 2(2))
  qed
qed

lemma field_copier:
  assumes c: "deep_copier nxt at r rd c"
    and gp: "\<And>w v. get (put w v) = w" "\<And>w v. rest (put w v) = rest v"
    and cp: "\<And>v m. copy v m = (let (w', m') = c (get v) m in (put w' v, m'))"
  shows "deep_copier nxt at (\<lambda>m v. r m (get v)) (\<lambda>m v. (rest v, rd m (get v))) copy"
proof unfold_locales
  fix m m' v
  assume "\<And>a. a \<in> r m (get v) \<Longrightarrow> at m' a = at m a"
  then have "rd m' (get v) = rd m (get v) \<and> r m' (get v) = r m (get v)"
    by (rule deep_copier.reads_local [OF c])
  then show "(rest v, rd m' (get v)) = (rest v, rd m (get v)) \<and> r m' (get v) = r m (get v)" by simp
next
  fix m m' v v' a
  assume "copy v m = (v', m')"
  then obtain w' where w: "c (get v) m = (w', m')" "v' = put w' v"
    by (cases "c (get v) m") (simp add: cp)
  show "nxt m \<le> nxt m'" by (rule deep_copier.grows [OF c w(1)])
  show "at m' a = at m a" if "a < nxt m" by (rule deep_copier.keeps [OF c w(1) that])
  assume s: "r m (get v) \<subseteq> {..<nxt m}"
  show "(rest v', rd m' (get v')) = (rest v, rd m (get v))"
    using deep_copier.reads [OF c w(1) s] by (simp add: w(2) gp)
  show "r m' (get v') \<subseteq> {nxt m..<nxt m'}"
    using deep_copier.fresh [OF c w(1) s] by (simp add: w(2) gp)
qed

text \<open>A slice of structs: the array is allocated first and filled by the loop.\<close>

definition reach_slice ::
    "(('om, 'ls, 'x) cell option \<Rightarrow> 'v list) \<Rightarrow> (('om, 'ls, 'x) mem \<Rightarrow> 'v \<Rightarrow> nat set)
       \<Rightarrow> ('om, 'ls, 'x) mem \<Rightarrow> nat option \<Rightarrow> nat set" where
  "reach_slice arr r m p = (case p of None \<Rightarrow> {} | Some a \<Rightarrow> insert a (\<Union>v \<in> set (arr (cell_at m a)). r m v))"

definition read_slice ::
    "(('om, 'ls, 'x) cell option \<Rightarrow> 'v list) \<Rightarrow> (('om, 'ls, 'x) mem \<Rightarrow> 'v \<Rightarrow> 'a)
       \<Rightarrow> ('om, 'ls, 'x) mem \<Rightarrow> nat option \<Rightarrow> 'a list option" where
  "read_slice arr rd m p = map_option (\<lambda>a. map (rd m) (arr (cell_at m a))) p"

lemma slice_copier:
  fixes arr :: "('om, 'ls, 'x) cell option \<Rightarrow> 'v list"
  assumes c: "deep_copier next_cell cell_at r rd c"
    and mk: "\<And>xs c. length xs = length (arr c) \<Longrightarrow> arr (Some (mk xs)) = xs"
    and cp: "\<And>p m. copy p m = (case p of None \<Rightarrow> (None, m)
        | Some a \<Rightarrow> (let vs = arr (cell_at m a); (b, m1) = alloc_cell (mk (zeros vs)) m;
              (vs', m2) = copy_each c vs m1 in (Some b, set_cell b (mk vs') m2)))"
  shows "deep_copier next_cell cell_at (reach_slice arr r) (read_slice arr rd) copy"
proof unfold_locales
  fix m m' :: "('om, 'ls, 'x) mem" and v
  assume same: "\<And>a. a \<in> reach_slice arr r m v \<Longrightarrow> cell_at m' a = cell_at m a"
  show "read_slice arr rd m' v = read_slice arr rd m v \<and> reach_slice arr r m' v = reach_slice arr r m v"
  proof (cases v)
    case (Some a)
    have a: "cell_at m' a = cell_at m a" using same [of a] by (simp add: Some reach_slice_def)
    have "rd m' w = rd m w \<and> r m' w = r m w" if "w \<in> set (arr (cell_at m a))" for w
    proof (rule deep_copier.reads_local [OF c])
      fix x
      assume "x \<in> r m w"
      then show "cell_at m' x = cell_at m x" using same that by (auto simp: Some reach_slice_def)
    qed
    then show ?thesis by (simp add: Some read_slice_def reach_slice_def a)
  qed (simp add: read_slice_def reach_slice_def)
next
  fix m m' :: "('om, 'ls, 'x) mem" and v v' x
  assume run: "copy v m = (v', m')"
  have all: "next_cell m \<le> next_cell m' \<and> (x < next_cell m \<longrightarrow> cell_at m' x = cell_at m x)
      \<and> (reach_slice arr r m v \<subseteq> {..<next_cell m} \<longrightarrow> read_slice arr rd m' v' = read_slice arr rd m v)
      \<and> (reach_slice arr r m v \<subseteq> {..<next_cell m} \<longrightarrow> reach_slice arr r m' v' \<subseteq> {next_cell m..<next_cell m'})"
  proof (cases v)
    case None
    then show ?thesis
      using run by (simp add: cp read_slice_def reach_slice_def)
  next
    case (Some a)
    define vs where "vs = arr (cell_at m a)"
    obtain b m1 where 1: "alloc_cell (mk (zeros vs)) m = (b, m1)" by (cases "alloc_cell (mk (zeros vs)) m")
    obtain vs' m2 where 2: "copy_each c vs m1 = (vs', m2)" by (cases "copy_each c vs m1")
    have eq: "v' = Some b" "m' = set_cell b (mk vs') m2"
      using run 1 2 by (simp_all add: cp Some Let_def vs_def)
    note a1 = alloc_cell_props [OF 1]
    have mk': "arr (Some (mk vs')) = vs'"
      using length_copy_each [OF 2] by (intro mk) (simp add: vs_def)
    have n': "next_cell m' = next_cell m2" "cell_at m' = (cell_at m2)(b \<mapsto> mk vs')"
      by (simp_all add: eq set_cell_def)
    have g: "next_cell m1 \<le> next_cell m2" by (rule deep_copier.each_grows [OF c 2])
    have old: "cell_at m' y = cell_at m y" if "y < next_cell m" for y
      using that a1 deep_copier.each_keeps [OF c 2, of y] by (simp add: n')
    have "read_slice arr rd m' v' = read_slice arr rd m v \<and> reach_slice arr r m' v' \<subseteq> {next_cell m..<next_cell m'}"
      if s: "reach_slice arr r m v \<subseteq> {..<next_cell m}"
    proof -
      have rv: "r m w \<subseteq> {..<next_cell m}" if "w \<in> set vs" for w
        using s that by (auto simp: Some reach_slice_def vs_def)
      have w1: "rd m1 w = rd m w \<and> r m1 w = r m w" if "w \<in> set vs" for w
      proof (rule deep_copier.reads_local [OF c])
        fix y
        assume "y \<in> r m w"
        then have "y < next_cell m" using rv [OF that] by blast
        then show "cell_at m1 y = cell_at m y" using a1 by simp
      qed
      have "r m1 w \<subseteq> {..<next_cell m1}" if "w \<in> set vs" for w
        using rv [OF that] w1 [OF that] a1 by (auto simp: subset_iff less_Suc_eq)
      then have "(\<Union>w \<in> set vs. r m1 w) \<subseteq> {..<next_cell m1}" by (rule UN_least)
      note e = deep_copier.each_copies [OF c 2 this]
      have w2: "rd m' w = rd m2 w \<and> r m' w = r m2 w" if "w \<in> set vs'" for w
      proof (rule deep_copier.reads_local [OF c])
        fix y
        assume "y \<in> r m2 w"
        then have "next_cell m1 \<le> y" using e that by fastforce
        then have "y \<noteq> b" using a1 by simp
        then show "cell_at m' y = cell_at m2 y" by (simp add: n')
      qed
      have "map (rd m') vs' = map (rd m2) vs'" using w2 by simp
      also have "\<dots> = map (rd m1) vs" using e by simp
      also have "\<dots> = map (rd m) vs" using w1 by simp
      finally have "read_slice arr rd m' v' = read_slice arr rd m v"
        by (simp add: read_slice_def eq(1) Some n' mk' vs_def [symmetric])
      moreover have "(\<Union>w \<in> set vs'. r m' w) \<subseteq> {next_cell m..<next_cell m'}"
      proof (rule UN_least)
        fix w
        assume "w \<in> set vs'"
        then have "r m' w \<subseteq> {next_cell m1..<next_cell m2}" using e w2 by blast
        then show "r m' w \<subseteq> {next_cell m..<next_cell m'}" using a1 n' by fastforce
      qed
      ultimately show ?thesis using a1 g by (simp add: reach_slice_def eq(1) n' mk')
    qed
    then show ?thesis
      using old a1 g n' by auto
  qed
  show "next_cell m \<le> next_cell m'" using all by blast
  show "x < next_cell m \<Longrightarrow> cell_at m' x = cell_at m x" using all by blast
  show "reach_slice arr r m v \<subseteq> {..<next_cell m} \<Longrightarrow> read_slice arr rd m' v' = read_slice arr rd m v"
    using all by blast
  show "reach_slice arr r m v \<subseteq> {..<next_cell m} \<Longrightarrow> reach_slice arr r m' v' \<subseteq> {next_cell m..<next_cell m'}"
    using all by blast
qed

section \<open>What the functions of apimachinery promise\<close>

text \<open>
  For the three structs of apimachinery, the addresses reachable from a value and the value with
  its maps and slices followed; \<open>meta_ok\<close> is the documented behaviour of a \<open>DeepCopyInto\<close>.
\<close>

record ('om, 'lm, 'ls, 'x, 'a, 'b, 'c) meta_view =
  reach_om :: "('om, 'ls, 'x) mem \<Rightarrow> 'om \<Rightarrow> nat set"
  read_om :: "('om, 'ls, 'x) mem \<Rightarrow> 'om \<Rightarrow> 'a"
  reach_lm :: "('om, 'ls, 'x) mem \<Rightarrow> 'lm \<Rightarrow> nat set"
  read_lm :: "('om, 'ls, 'x) mem \<Rightarrow> 'lm \<Rightarrow> 'b"
  reach_ls :: "('om, 'ls, 'x) mem \<Rightarrow> 'ls \<Rightarrow> nat set"
  read_ls :: "('om, 'ls, 'x) mem \<Rightarrow> 'ls \<Rightarrow> 'c"

definition meta_ok ::
    "('om, 'lm, 'ls, 'x) apimeta \<Rightarrow> ('om, 'lm, 'ls, 'x, 'a, 'b, 'c) meta_view \<Rightarrow> bool" where
  "meta_ok lib vw \<longleftrightarrow>
     deep_copier next_cell cell_at (reach_om vw) (read_om vw) (ObjectMeta_DeepCopyInto lib)
     \<and> deep_copier next_cell cell_at (reach_lm vw) (read_lm vw) (ListMeta_DeepCopyInto lib)
     \<and> deep_copier next_cell cell_at (reach_ls vw) (read_ls vw) (LabelSelector_DeepCopyInto lib)"

lemma meta_okD:
  assumes "meta_ok lib vw"
  shows "deep_copier next_cell cell_at (reach_om vw) (read_om vw) (ObjectMeta_DeepCopyInto lib)"
    "deep_copier next_cell cell_at (reach_lm vw) (read_lm vw) (ListMeta_DeepCopyInto lib)"
    "deep_copier next_cell cell_at (reach_ls vw) (read_ls vw) (LabelSelector_DeepCopyInto lib)"
  using assms by (simp_all add: meta_ok_def)

section \<open>The generated functions\<close>

definition reach_upd :: "('om, 'ls, 'x) mem \<Rightarrow> go_UpdatePolicy \<Rightarrow> nat set" where
  "reach_upd m v = reach_ptr m (g_UpdateSequence v)"

definition read_upd :: "('om, 'ls, 'x) mem \<Rightarrow> go_UpdatePolicy \<Rightarrow> int32 \<times> string list option" where
  "read_upd m v = (g_MaxSkew v, read_ptr str_arr m (g_UpdateSequence v))"

interpretation sched: deep_copier next_cell cell_at reach_ptr "read_ptr sched_arr" copy_sched_slice
  by (rule flat_copier [where mk = SchedArr]) (simp_all add: copy_sched_slice_def)

interpretation strs: deep_copier next_cell cell_at reach_ptr "read_ptr str_arr" copy_str_slice
  by (rule flat_copier [where mk = StrArr]) (simp_all add: copy_str_slice_def)

interpretation upd: deep_copier next_cell cell_at reach_upd read_upd UpdatePolicy_DeepCopyInto
proof -
  have "deep_copier next_cell cell_at (\<lambda>m v. reach_ptr m (g_UpdateSequence v))
      (\<lambda>m v. (g_MaxSkew v, read_ptr str_arr m (g_UpdateSequence v))) UpdatePolicy_DeepCopyInto"
    by (rule field_copier [OF strs.deep_copier_axioms, where put = "\<lambda>w v. v\<lparr>g_UpdateSequence := w\<rparr>"])
       (simp_all add: UpdatePolicy_DeepCopyInto_def)
  then show "deep_copier next_cell cell_at reach_upd read_upd UpdatePolicy_DeepCopyInto"
    by (simp add: reach_upd_def [abs_def] read_upd_def [abs_def])
qed

interpretation upds: deep_copier next_cell cell_at "reach_slice upd_arr reach_upd" "read_slice upd_arr read_upd"
  copy_upd_slice
  by (rule slice_copier [OF upd.deep_copier_axioms, where mk = UpdArr
        and zeros = "\<lambda>us. replicate (length us) \<lparr>g_MaxSkew = 0, g_UpdateSequence = None\<rparr>"])
     (simp_all add: copy_upd_slice_def Let_def)

definition reach_status :: "('om, 'ls, 'x) mem \<Rightarrow> go_Status \<Rightarrow> nat set" where
  "reach_status m v = reach_ptr m (g_Placement v)"

definition read_status where
  "read_status m v = ((), read_ptr sched_arr m (g_Placement v))"

interpretation status: deep_copier next_cell cell_at reach_status read_status Status_DeepCopyInto
proof -
  have "deep_copier next_cell cell_at (\<lambda>m v. reach_ptr m (g_Placement v))
      (\<lambda>m v. ((), read_ptr sched_arr m (g_Placement v))) Status_DeepCopyInto"
    by (rule field_copier [OF sched.deep_copier_axioms, where put = "\<lambda>w v. v\<lparr>g_Placement := w\<rparr>"])
       (simp_all add: Status_DeepCopyInto_def)
  then show "deep_copier next_cell cell_at reach_status read_status Status_DeepCopyInto"
    by (simp add: reach_status_def [abs_def] read_status_def [abs_def])
qed

interpretation deploy: deep_copier next_cell cell_at "\<lambda>m v. reach_ptr m (g_Policy v)"
  "\<lambda>m v. (WhenUnsatisfiable v, read_ptr sched_arr m (g_Policy v))" DeployPlacement_DeepCopyInto
  by (rule field_copier [OF sched.deep_copier_axioms, where put = "\<lambda>w v. v\<lparr>g_Policy := w\<rparr>"])
     (simp_all add: DeployPlacement_DeepCopyInto_def)

section \<open>The functions that copy metadata and selectors\<close>

text \<open>The selector behind a pointer is read as the one element of a slice.\<close>

abbreviation sel_arr ::
    "('om, 'lm, 'ls, 'x) apimeta \<Rightarrow> ('om, 'ls, 'x) cell option \<Rightarrow> 'ls list" where
  "sel_arr lib c \<equiv> [sel_at (zero_LabelSelector lib) c]"

lemma selector_copier:
  fixes lib :: "('om, 'lm, 'ls, 'x) apimeta"
  assumes "meta_ok lib vw"
  shows "deep_copier next_cell cell_at (reach_slice (sel_arr lib) (reach_ls vw))
    (read_slice (sel_arr lib) (read_ls vw)) (copy_selector lib)"
proof (rule slice_copier [OF meta_okD(3) [OF assms], where mk = "\<lambda>xs. SelCell (hd xs)"
      and zeros = "\<lambda>_. [zero_LabelSelector lib]"])
  fix xs :: "'ls list" and c :: "('om, 'ls, 'x) cell option"
  assume "length xs = length (sel_arr lib c)"
  then show "sel_arr lib (Some (SelCell (hd xs))) = xs" by (cases xs) simp_all
next
  fix p m
  show "copy_selector lib p m = (case p of None \<Rightarrow> (None, m)
      | Some a \<Rightarrow> (let vs = sel_arr lib (cell_at m a);
            (b, m1) = alloc_cell (SelCell (hd [zero_LabelSelector lib])) m;
            (vs', m2) = copy_each (LabelSelector_DeepCopyInto lib) vs m1
          in (Some b, set_cell b (SelCell (hd vs')) m2)))"
    by (simp add: copy_selector_def Let_def split_def split: option.split)
qed

definition spec_fields :: "go_Spec \<Rightarrow> nat option \<times> nat option \<times> nat option" where
  "spec_fields v = (g_DeployPlacement v, g_UpdatePlacement v, g_LabelSelector v)"

definition reach_spec where
  "reach_spec lib vw m v = reach_ptr m (g_DeployPlacement v)
     \<union> (reach_slice upd_arr reach_upd m (g_UpdatePlacement v)
       \<union> reach_slice (sel_arr lib) (reach_ls vw) m (g_LabelSelector v))"

definition read_spec where
  "read_spec lib vw m v = ((g_TopologyKey v, g_ScheduleStrategy v), read_ptr sched_arr m (g_DeployPlacement v),
     read_slice upd_arr read_upd m (g_UpdatePlacement v),
     read_slice (sel_arr lib) (read_ls vw) m (g_LabelSelector v))"

lemma spec_copier:
  assumes "meta_ok lib vw"
  shows "deep_copier next_cell cell_at (reach_spec lib vw) (read_spec lib vw) (Spec_DeepCopyInto lib)"
proof -
  have "deep_copier next_cell cell_at
      (\<lambda>m v. (\<lambda>(d, w). reach_ptr m d \<union> (\<lambda>(u, l). reach_slice upd_arr reach_upd m u
         \<union> reach_slice (sel_arr lib) (reach_ls vw) m l) w) (spec_fields v))
      (\<lambda>m v. ((g_TopologyKey v, g_ScheduleStrategy v),
         (\<lambda>(d, w). (read_ptr sched_arr m d, (\<lambda>(u, l). (read_slice upd_arr read_upd m u,
            read_slice (sel_arr lib) (read_ls vw) m l)) w)) (spec_fields v)))
      (Spec_DeepCopyInto lib)"
    by (rule field_copier [OF pair_copier [OF sched.deep_copier_axioms
            pair_copier [OF upds.deep_copier_axioms selector_copier [OF assms]]],
          where put = "\<lambda>(d, u, l) v. v\<lparr>g_DeployPlacement := d, g_UpdatePlacement := u, g_LabelSelector := l\<rparr>"
            and get = spec_fields and rest = "\<lambda>v. (g_TopologyKey v, g_ScheduleStrategy v)"])
       (simp_all add: spec_fields_def Spec_DeepCopyInto_def Let_def split_def)
  then show ?thesis by (simp add: reach_spec_def [abs_def] read_spec_def [abs_def] spec_fields_def)
qed

definition reach_policy where
  "reach_policy lib vw m v = reach_om vw m (g_ObjectMeta v)
     \<union> (reach_spec lib vw m (g_Spec v) \<union> reach_status m (g_Status v))"

definition read_policy where
  "read_policy lib vw m v = (g_TypeMeta v, read_om vw m (g_ObjectMeta v), read_spec lib vw m (g_Spec v),
     read_status m (g_Status v))"

lemma policy_copier:
  assumes "meta_ok lib vw"
  shows "deep_copier next_cell cell_at (reach_policy lib vw) (read_policy lib vw) (Policy_DeepCopyInto lib)"
proof -
  have "deep_copier next_cell cell_at
      (\<lambda>m v. (\<lambda>(om, w). reach_om vw m om \<union> (\<lambda>(sp, st). reach_spec lib vw m sp \<union> reach_status m st) w)
         (g_ObjectMeta v, g_Spec v, g_Status v))
      (\<lambda>m v. (g_TypeMeta v,
         (\<lambda>(om, w). (read_om vw m om, (\<lambda>(sp, st). (read_spec lib vw m sp, read_status m st)) w))
           (g_ObjectMeta v, g_Spec v, g_Status v)))
      (Policy_DeepCopyInto lib)"
    by (rule field_copier [OF pair_copier [OF meta_okD(1) [OF assms]
            pair_copier [OF spec_copier [OF assms] status.deep_copier_axioms]],
          where put = "\<lambda>(om, sp, st) v. v\<lparr>g_ObjectMeta := om, g_Spec := sp, g_Status := st\<rparr>"
            and get = "\<lambda>v. (g_ObjectMeta v, g_Spec v, g_Status v)" and rest = g_TypeMeta])
       (simp_all add: Policy_DeepCopyInto_def Let_def split_def)
  then show ?thesis by (simp add: reach_policy_def [abs_def] read_policy_def [abs_def])
qed

lemma policy_slice_copier:
  assumes "meta_ok lib vw"
  shows "deep_copier next_cell cell_at (reach_slice pol_arr (reach_policy lib vw))
    (read_slice pol_arr (read_policy lib vw)) (copy_policy_slice lib)"
  by (rule slice_copier [OF policy_copier [OF assms], where mk = PolArr
        and zeros = "\<lambda>ps. replicate (length ps) (zero_policy lib)"])
     (simp_all add: copy_policy_slice_def Let_def)

definition reach_list where
  "reach_list lib vw m v = reach_lm vw m (g_ListMeta v)
     \<union> reach_slice pol_arr (reach_policy lib vw) m (g_Items v)"

definition read_list where
  "read_list lib vw m v = (gl_TypeMeta v, read_lm vw m (g_ListMeta v),
     read_slice pol_arr (read_policy lib vw) m (g_Items v))"

lemma list_copier:
  assumes "meta_ok lib vw"
  shows "deep_copier next_cell cell_at (reach_list lib vw) (read_list lib vw) (PolicyList_DeepCopyInto lib)"
proof -
  have "deep_copier next_cell cell_at
      (\<lambda>m v. (\<lambda>(lm, p). reach_lm vw m lm \<union> reach_slice pol_arr (reach_policy lib vw) m p) (g_ListMeta v, g_Items v))
      (\<lambda>m v. (gl_TypeMeta v, (\<lambda>(lm, p). (read_lm vw m lm, read_slice pol_arr (read_policy lib vw) m p))
         (g_ListMeta v, g_Items v)))
      (PolicyList_DeepCopyInto lib)"
    by (rule field_copier [OF pair_copier [OF meta_okD(2) [OF assms] policy_slice_copier [OF assms]],
          where put = "\<lambda>(lm, p) v. v\<lparr>g_ListMeta := lm, g_Items := p\<rparr>"
            and get = "\<lambda>v. (g_ListMeta v, g_Items v)" and rest = gl_TypeMeta])
       (simp_all add: PolicyList_DeepCopyInto_def Let_def split_def)
  then show ?thesis by (simp add: reach_list_def [abs_def] read_list_def [abs_def])
qed

end
