(* ===== verification/Config_Deep_Copy.thy ===== *)
theory Config_Deep_Copy
  imports Conversion_Laws Deep_Copy_Laws
begin

text \<open>
  The generated deep copies of the plugin arguments: \<open>pkg/apis/config/zz_generated.deepcopy.go\<close>,
  whose structs hold strings by value, and \<open>pkg/apis/config/v1beta1/zz_generated.deepcopy.go\<close>,
  whose structs hold pointers to strings. The contract is \<open>deep_copier\<close> again, on the store of
  strings. A Go map is a value here, so the new map of a copy is a new value.
\<close>

section \<open>Internal arguments\<close>

definition Configuration_DeepCopyInto :: "Configuration \<Rightarrow> Configuration" where
  "Configuration_DeepCopyInto inp = inp"

definition Configuration_DeepCopy :: "Configuration option \<Rightarrow> Configuration option" where
  "Configuration_DeepCopy inp = (case inp of None \<Rightarrow> None | Some v \<Rightarrow> Some (Configuration_DeepCopyInto v))"

definition SchedulingArgs_DeepCopyInto :: "SchedulingArgs \<Rightarrow> SchedulingArgs" where
  "SchedulingArgs_DeepCopyInto inp = (case ClusterConfiguration inp of
     None \<Rightarrow> inp
   | Some m \<Rightarrow> inp\<lparr>ClusterConfiguration := Some (fold (\<lambda>(key, val) out. ginsert key val out) m gomake)\<rparr>)"

definition SchedulingArgs_DeepCopy :: "SchedulingArgs option \<Rightarrow> SchedulingArgs option" where
  "SchedulingArgs_DeepCopy inp = (case inp of None \<Rightarrow> None | Some v \<Rightarrow> Some (SchedulingArgs_DeepCopyInto v))"

definition SchedulingArgs_DeepCopyObject :: "SchedulingArgs option \<Rightarrow> SchedulingArgs option" where
  "SchedulingArgs_DeepCopyObject inp = (case SchedulingArgs_DeepCopy inp of Some c \<Rightarrow> Some c | None \<Rightarrow> None)"

lemma SchedulingArgs_DeepCopyInto_eq:
  "(\<And>m. ClusterConfiguration v = Some m \<Longrightarrow> gmap_ok m) \<Longrightarrow> SchedulingArgs_DeepCopyInto v = v"
  using fold_ginsert_append [of "[]"]
  by (cases v) (auto simp: SchedulingArgs_DeepCopyInto_def split: option.split)

section \<open>Versioned arguments\<close>

definition copy_string :: "nat option \<Rightarrow> store \<Rightarrow> nat option \<times> store" where
  "copy_string p s = (case p of None \<Rightarrow> (None, s)
     | Some a \<Rightarrow> (let (b, s') = alloc (str_at s a) s in (Some b, s')))"

definition v_Configuration_DeepCopyInto ::
    "v1beta1_Configuration \<Rightarrow> store \<Rightarrow> v1beta1_Configuration \<times> store" where
  "v_Configuration_DeepCopyInto inp s =
     (let (a, s1) = copy_string (v_Name inp) s;
          (b, s2) = copy_string (v_KubeMaster inp) s1;
          (c, s3) = copy_string (v_KubeConfig inp) s2
      in (inp\<lparr>v_Name := a, v_KubeMaster := b, v_KubeConfig := c\<rparr>, s3))"

definition v_Configuration_DeepCopy ::
    "v1beta1_Configuration option \<Rightarrow> store \<Rightarrow> v1beta1_Configuration option \<times> store" where
  "v_Configuration_DeepCopy inp s = (case inp of None \<Rightarrow> (None, s)
     | Some v \<Rightarrow> (let (v', s') = v_Configuration_DeepCopyInto v s in (Some v', s')))"

fun copy_clusters ::
    "(string, v1beta1_Configuration) gomap \<Rightarrow> (string, v1beta1_Configuration) gomap \<Rightarrow> store
       \<Rightarrow> (string, v1beta1_Configuration) gomap \<times> store" where
  "copy_clusters [] out s = (out, s)"
| "copy_clusters ((key, val) # rest) out s =
     (let (val', s') = v_Configuration_DeepCopyInto val s in copy_clusters rest (ginsert key val' out) s')"

definition v_SchedulingArgs_DeepCopyInto ::
    "v1beta1_SchedulingArgs \<Rightarrow> store \<Rightarrow> v1beta1_SchedulingArgs \<times> store" where
  "v_SchedulingArgs_DeepCopyInto inp s =
     (let (a, s1) = copy_string (v_KubeConfigPath inp) s;
          (b, s2) = copy_string (v_args_KubeMaster inp) s1
      in (case v_ClusterConfiguration inp of
            None \<Rightarrow> (inp\<lparr>v_KubeConfigPath := a, v_args_KubeMaster := b\<rparr>, s2)
          | Some m \<Rightarrow>
              (let (m', s3) = copy_clusters m gomake s2
               in (inp\<lparr>v_KubeConfigPath := a, v_args_KubeMaster := b, v_ClusterConfiguration := Some m'\<rparr>, s3))))"

definition v_SchedulingArgs_DeepCopy ::
    "v1beta1_SchedulingArgs option \<Rightarrow> store \<Rightarrow> v1beta1_SchedulingArgs option \<times> store" where
  "v_SchedulingArgs_DeepCopy inp s = (case inp of None \<Rightarrow> (None, s)
     | Some v \<Rightarrow> (let (v', s') = v_SchedulingArgs_DeepCopyInto v s in (Some v', s')))"

definition v_SchedulingArgs_DeepCopyObject ::
    "v1beta1_SchedulingArgs option \<Rightarrow> store \<Rightarrow> v1beta1_SchedulingArgs option \<times> store" where
  "v_SchedulingArgs_DeepCopyObject inp s = (case v_SchedulingArgs_DeepCopy inp s of
     (Some c, s') \<Rightarrow> (Some c, s')
   | (None, s') \<Rightarrow> (None, s'))"

section \<open>Laws\<close>

lemma str_at_same: "strs s' a = strs s a \<Longrightarrow> str_at s' a = str_at s a"
  by (simp add: str_at_def)

interpretation str: deep_copier next_str strs "\<lambda>s p. set_option p" "\<lambda>s p. map_option (str_at s) p" copy_string
proof unfold_locales
  fix s s' :: store and p
  assume same: "\<And>a. a \<in> set_option p \<Longrightarrow> strs s' a = strs s a"
  show "map_option (str_at s') p = map_option (str_at s) p \<and> set_option p = set_option p"
  proof (cases p)
    case (Some a)
    then have "str_at s' a = str_at s a" using same [of a] by (intro str_at_same) simp
    then show ?thesis by (simp add: Some)
  qed simp
next
  fix s s' p p' a
  assume c: "copy_string p s = (p', s')"
  show "next_str s \<le> next_str s'" "a < next_str s \<Longrightarrow> strs s' a = strs s a"
    using c by (cases p; auto simp: copy_string_def alloc_def)+
  show "map_option (str_at s') p' = map_option (str_at s) p"
    using c by (cases p) (auto simp: copy_string_def alloc_def str_at_def)
  show "set_option p' \<subseteq> {next_str s..<next_str s'}"
    using c by (cases p) (auto simp: copy_string_def alloc_def)
qed

definition conf_fields :: "v1beta1_Configuration \<Rightarrow> nat option \<times> nat option \<times> nat option" where
  "conf_fields v = (v_Name v, v_KubeMaster v, v_KubeConfig v)"

definition reach_conf :: "store \<Rightarrow> v1beta1_Configuration \<Rightarrow> nat set" where
  "reach_conf s v = set_option (v_Name v) \<union> (set_option (v_KubeMaster v) \<union> set_option (v_KubeConfig v))"

definition deref_conf where
  "deref_conf s v = ((), map_option (str_at s) (v_Name v), map_option (str_at s) (v_KubeMaster v),
     map_option (str_at s) (v_KubeConfig v))"

interpretation vconf: deep_copier next_str strs reach_conf deref_conf v_Configuration_DeepCopyInto
proof -
  have "deep_copier next_str strs
      (\<lambda>s v. (\<lambda>(a, w). set_option a \<union> (\<lambda>(b, c). set_option b \<union> set_option c) w) (conf_fields v))
      (\<lambda>s v. ((), (\<lambda>(a, w). (map_option (str_at s) a,
         (\<lambda>(b, c). (map_option (str_at s) b, map_option (str_at s) c)) w)) (conf_fields v)))
      v_Configuration_DeepCopyInto"
    by (rule field_copier [OF pair_copier [OF str.deep_copier_axioms
            pair_copier [OF str.deep_copier_axioms str.deep_copier_axioms]],
          where put = "\<lambda>(a, b, c) v. v\<lparr>v_Name := a, v_KubeMaster := b, v_KubeConfig := c\<rparr>"
            and get = conf_fields])
       (simp_all add: conf_fields_def v_Configuration_DeepCopyInto_def Let_def split_def)
  then show "deep_copier next_str strs reach_conf deref_conf v_Configuration_DeepCopyInto"
    by (simp add: reach_conf_def [abs_def] deref_conf_def [abs_def] conf_fields_def)
qed

text \<open>Copying the clusters of a map one by one is copying the list of their values.\<close>

lemma copy_clusters_each:
  "gmap_ok (out @ m) \<Longrightarrow> copy_clusters m out s =
     (let (vs, s') = copy_each v_Configuration_DeepCopyInto (map snd m) s
      in (out @ zip (map fst m) vs, s'))"
proof (induction m arbitrary: out s)
  case (Cons kv m)
  obtain k v where kv: "kv = (k, v)" by (cases kv)
  obtain v' s1 where 1: "v_Configuration_DeepCopyInto v s = (v', s1)"
    by (cases "v_Configuration_DeepCopyInto v s")
  have "k \<notin> dom (glookup out)"
    using Cons.prems by (auto simp: kv gmap_ok_def glookup_def [abs_def] dom_map_of_conv_image_fst)
  moreover have "gmap_ok ((out @ [(k, v')]) @ m)" using Cons.prems by (simp add: kv gmap_ok_def)
  ultimately show ?case
    using Cons.IH [of "out @ [(k, v')]" s1] 1
    by (simp add: kv ginsert_new Let_def split: prod.split)
qed simp

lemma copy_clusters_contract:
  assumes "gmap_ok m" "\<forall>v \<in> snd ` set m. reach_conf s v \<subseteq> {..<next_str s}"
    and "copy_clusters m gomake s = (m', s')"
  shows "map fst m' = map fst m" "map (deref_conf s' \<circ> snd) m' = map (deref_conf s \<circ> snd) m"
    "\<forall>v \<in> snd ` set m'. reach_conf s' v \<subseteq> {next_str s..<next_str s'}"
    "\<And>a. a < next_str s \<Longrightarrow> strs s' a = strs s a"
proof -
  obtain vs where vs: "copy_each v_Configuration_DeepCopyInto (map snd m) s = (vs, s')"
    "m' = zip (map fst m) vs"
    using assms(1,3) copy_clusters_each [of gomake m s] by (auto simp: split: prod.splits)
  have len: "length vs = length m" using length_copy_each [OF vs(1)] by simp
  have "(\<Union>v \<in> set (map snd m). reach_conf s v) \<subseteq> {..<next_str s}" using assms(2) by auto
  note c = vconf.each_copies [OF vs(1) this]
  show "map fst m' = map fst m" using len by (simp add: vs(2))
  have "map snd m' = vs" using len by (simp add: vs(2))
  then show "map (deref_conf s' \<circ> snd) m' = map (deref_conf s \<circ> snd) m"
    using c by (metis list.map_comp map_map)
  have "snd ` set m' = set vs" using \<open>map snd m' = vs\<close> by (metis list.set_map)
  then show "\<forall>v \<in> snd ` set m'. reach_conf s' v \<subseteq> {next_str s..<next_str s'}" using c by blast
  show "strs s' a = strs s a" if "a < next_str s" for a
    using vconf.each_keeps [OF vs(1) that] .
qed

end
