(* ===== verification/Copy_Properties.thy ===== *)
theory Copy_Properties
  imports Config_Deep_Copy
begin

text \<open>The property of the generated deep copies, with its witness.\<close>

text \<open>
  C38. A deep copy of a policy list is complete and separate. If the \<open>DeepCopyInto\<close> functions of
  apimachinery for object metadata, list metadata and label selectors copy completely and into new
  memory, so does the generated copy of a list: it has the same content with all slices, maps
  and pointers followed (the metadata, the policies, their placements, update sequences and
  selectors), lies entirely in new memory, and leaves the original as it was; whatever is later
  written through one of the two is invisible through the other.
\<close>

theorem deep_copy_separate:
  assumes "meta_ok lib vw"
    and "PolicyList_DeepCopyObject lib (Some v) m = (Some v', m')" "reach_list lib vw m v \<subseteq> {..<next_cell m}"
  shows "read_list lib vw m' v' = read_list lib vw m v \<and> read_list lib vw m' v = read_list lib vw m v
    \<and> reach_list lib vw m' v' \<inter> reach_list lib vw m v = {}
    \<and> (\<forall>m2. (\<forall>a. a \<notin> reach_list lib vw m' v' \<longrightarrow> cell_at m2 a = cell_at m' a)
         \<longrightarrow> read_list lib vw m2 v = read_list lib vw m v)
    \<and> (\<forall>m2. (\<forall>a. a \<notin> reach_list lib vw m v \<longrightarrow> cell_at m2 a = cell_at m' a)
         \<longrightarrow> read_list lib vw m2 v' = read_list lib vw m v)"
proof -
  note cp = list_copier [OF assms(1)]
  have c: "PolicyList_DeepCopyInto lib v m = (v', m')"
    using assms(2) by (cases "PolicyList_DeepCopyInto lib v m") (simp add: PolicyList_DeepCopyObject_def DeepCopy_defs)
  have "reach_list lib vw m' v' \<inter> reach_list lib vw m v = {}"
    using deep_copier.fresh [OF cp c assms(3)] assms(3) by fastforce
  then show ?thesis
    using deep_copier.reads [OF cp c assms(3)] deep_copier.original_kept(1) [OF cp c assms(3)]
      deep_copier.copy_isolated [OF cp c assms(3)] deep_copier.original_isolated [OF cp c assms(3)] by blast
qed

section \<open>A list with metadata\<close>

text \<open>
  Metadata with a name and a map of labels, list metadata with a resource version, selectors with
  a map of labels; the maps are \<open>Ext\<close> cells.
\<close>

record sample_ObjectMeta =
  om_Name :: string
  om_Labels :: "nat option"

type_synonym sample_memory = "(sample_ObjectMeta, nat option, (string \<times> string) list) mem"

fun label_map :: "(sample_ObjectMeta, nat option, (string \<times> string) list) cell option \<Rightarrow> (string \<times> string) list" where
  "label_map (Some (Ext xs)) = xs" | "label_map _ = []"

definition copy_label_map :: "nat option \<Rightarrow> sample_memory \<Rightarrow> nat option \<times> sample_memory" where
  "copy_label_map p m = (case p of None \<Rightarrow> (None, m)
     | Some a \<Rightarrow> (let (b, m') = alloc_cell (Ext (label_map (cell_at m a))) m in (Some b, m')))"

definition sample_meta :: "(sample_ObjectMeta, string, nat option, (string \<times> string) list) apimeta" where
  "sample_meta = \<lparr>ObjectMeta_DeepCopyInto = (\<lambda>v m. let (p, m') = copy_label_map (om_Labels v) m
       in (v\<lparr>om_Labels := p\<rparr>, m')),
     ListMeta_DeepCopyInto = Pair, LabelSelector_DeepCopyInto = copy_label_map,
     zero_ObjectMeta = \<lparr>om_Name = '''', om_Labels = None\<rparr>, zero_LabelSelector = None\<rparr>"

definition sample_view ::
    "(sample_ObjectMeta, string, nat option, (string \<times> string) list,
      string \<times> (string \<times> string) list option, string, (string \<times> string) list option) meta_view" where
  "sample_view = \<lparr>reach_om = (\<lambda>m v. reach_ptr m (om_Labels v)),
     read_om = (\<lambda>m v. (om_Name v, read_ptr label_map m (om_Labels v))),
     reach_lm = (\<lambda>m v. {}), read_lm = (\<lambda>m v. v),
     reach_ls = reach_ptr, read_ls = read_ptr label_map\<rparr>"

lemma sample_meta_ok: "meta_ok sample_meta sample_view"
proof -
  have maps: "deep_copier next_cell cell_at reach_ptr (read_ptr label_map) copy_label_map"
    by (rule flat_copier [where mk = Ext]) (simp_all add: copy_label_map_def)
  moreover have "deep_copier next_cell cell_at (\<lambda>m v. reach_ptr m (om_Labels v))
      (\<lambda>m v. (om_Name v, read_ptr label_map m (om_Labels v))) (ObjectMeta_DeepCopyInto sample_meta)"
    by (rule field_copier [OF maps, where put = "\<lambda>p v. v\<lparr>om_Labels := p\<rparr>"]) (simp_all add: sample_meta_def)
  moreover have "deep_copier (next_cell :: sample_memory \<Rightarrow> nat) cell_at (\<lambda>m v. {}) (\<lambda>m v. v) Pair"
    by unfold_locales simp_all
  ultimately show ?thesis by (simp add: meta_ok_def sample_view_def sample_meta_def)
qed

text \<open>
  A list of one policy: the labels of its metadata are in cell 0, its placement in cell 1, its
  selector in cell 2 with the labels in cell 3; the items are in cell 4.
\<close>

definition sample_mem :: sample_memory where
  "sample_mem = \<lparr>next_cell = 5, cell_at = [0 \<mapsto> Ext [(''team'', ''web'')],
     1 \<mapsto> SchedArr [\<lparr>Name = ''a'', Replicas = 2\<rparr>], 2 \<mapsto> SelCell (Some 3), 3 \<mapsto> Ext [(''app'', ''web'')],
     4 \<mapsto> PolArr [(zero_policy sample_meta)\<lparr>g_ObjectMeta := \<lparr>om_Name = ''web'', om_Labels = Some 0\<rparr>,
       g_Spec := \<lparr>g_TopologyKey = ''zone'', g_ScheduleStrategy = ''Fill'', g_DeployPlacement = Some 1,
         g_UpdatePlacement = None, g_LabelSelector = Some 2\<rparr>\<rparr>]]\<rparr>"

definition sample_list :: "string go_PolicyList" where
  "sample_list = \<lparr>gl_TypeMeta = \<lparr>tm_Kind = ''TopologySchedulingPolicyList'', tm_APIVersion = ''v1alpha1''\<rparr>,
     g_ListMeta = ''7'', g_Items = Some 4\<rparr>"

lemma sample_list_reach: "reach_list sample_meta sample_view sample_mem sample_list = {0, 1, 2, 3, 4}"
  by (auto simp: reach_list_def reach_slice_def sample_list_def sample_mem_def reach_policy_def
      reach_spec_def reach_status_def reach_ptr_def zero_policy_def sample_view_def sample_meta_def)

theorem deep_copy_separate_witness:
  "\<exists>v' m'. PolicyList_DeepCopyObject sample_meta (Some sample_list) sample_mem = (Some v', m')
    \<and> read_list sample_meta sample_view m' v' = read_list sample_meta sample_view sample_mem sample_list
    \<and> reach_list sample_meta sample_view m' v' \<inter> {0, 1, 2, 3, 4} = {}"
proof -
  obtain v' m' where run: "PolicyList_DeepCopyObject sample_meta (Some sample_list) sample_mem = (Some v', m')"
    by (cases "PolicyList_DeepCopyInto sample_meta sample_list sample_mem")
       (simp add: PolicyList_DeepCopyObject_def DeepCopy_defs)
  have "reach_list sample_meta sample_view sample_mem sample_list \<subseteq> {..<next_cell sample_mem}"
    unfolding sample_list_reach by (simp add: sample_mem_def)
  from deep_copy_separate [OF sample_meta_ok run this] run show ?thesis unfolding sample_list_reach by blast
qed

end
