(* ===== verification/Parallelism.thy ===== *)
theory Parallelism
  imports Main
begin

text \<open>
  \<open>pkg/util/parallelism.go\<close>: the chunk size that \<open>Until\<close> hands to \<open>workqueue.ParallelizeUntil\<close>.
  The work queue belongs to client-go; a call of it is what it is given. (The scheduler plugin
  calls \<open>ParallelizeUntil\<close> itself, with 32 workers and pieces of one.)
\<close>

text \<open>
  \<open>int(math.Sqrt(float64(n)))\<close>: \<open>math.Sqrt\<close> rounds correctly, so that for the piece counts below
  2 to the 52 the conversion yields the integer square root.
\<close>

definition int_Sqrt :: "nat \<Rightarrow> nat" where
  "int_Sqrt n = length (takeWhile (\<lambda>m. m * m \<le> n) [1..<Suc n])"

definition parallelism :: nat where "parallelism = 16"

definition chunkSizeFor :: "nat \<Rightarrow> nat" where
  "chunkSizeFor n =
     (let s = int_Sqrt n; r = n div parallelism + 1
      in if r < s then r else if s < 1 then 1 else s)"

text \<open>What \<open>ParallelizeUntil\<close> is called with: workers, pieces and chunk size.\<close>

definition Until :: "nat \<Rightarrow> nat \<times> nat \<times> nat" where
  "Until pieces = (parallelism, pieces, chunkSizeFor pieces)"

lemma takeWhile_squares:
  "set (takeWhile (\<lambda>m. m * m \<le> n) [1..<Suc n]) = {m. 1 \<le> m \<and> m * m \<le> (n :: nat)}"
proof -
  have "takeWhile (\<lambda>m. m * m \<le> n) [1..<Suc n] = filter (\<lambda>m. m * m \<le> n) [1..<Suc n]"
  proof (rule takeWhile_eq_filter)
    fix x
    assume x: "x \<in> set (dropWhile (\<lambda>m. m * m \<le> n) [1..<Suc n])"
    let ?ys = "dropWhile (\<lambda>m. m * m \<le> n) [1..<Suc n]"
    have ne: "?ys \<noteq> []" using x by (metis empty_iff empty_set)
    have "\<not> hd ?ys * hd ?ys \<le> n" by (rule hd_dropWhile [OF ne])
    moreover have "sorted ?ys" by (rule sorted_dropWhile) (rule sorted_upt)
    then have "hd ?ys \<le> x" using x ne by (metis list.exhaust_sel set_ConsD sorted_simps(2) order_refl)
    ultimately show "\<not> x * x \<le> n" by (meson le_trans mult_le_mono)
  qed
  moreover have le: "m \<le> n" if "1 \<le> m" "m * m \<le> n" for m
    using mult_le_mono1 [OF that(1), of m] that(2) by linarith
  have "set (filter (\<lambda>m. m * m \<le> n) [1..<Suc n]) = {m. 1 \<le> m \<and> m * m \<le> n}"
  proof (rule set_eqI)
    fix m
    have "m \<in> set [1..<Suc n] \<longleftrightarrow> 1 \<le> m \<and> m \<le> n" by (simp only: set_upt atLeastLessThan_iff less_Suc_eq_le)
    then show "m \<in> set (filter (\<lambda>m. m * m \<le> n) [1..<Suc n]) \<longleftrightarrow> m \<in> {m. 1 \<le> m \<and> m * m \<le> n}"
      using le [of m] by (simp only: set_filter mem_Collect_eq) blast
  qed
  ultimately show ?thesis by (simp only:)
qed

lemma int_Sqrt_spec: "int_Sqrt n * int_Sqrt n \<le> n" "n < Suc (int_Sqrt n) * Suc (int_Sqrt n)"
proof -
  let ?A = "{m. 1 \<le> m \<and> m * m \<le> n}"
  have dist: "distinct (takeWhile (\<lambda>m. m * m \<le> n) [1..<Suc n])"
    by (rule distinct_takeWhile) simp
  have card: "int_Sqrt n = card ?A"
    unfolding int_Sqrt_def distinct_card [OF dist, symmetric] takeWhile_squares ..
  have down: "x \<in> ?A" if "y \<in> ?A" "1 \<le> x" "x \<le> y" for x y
    using that mult_le_mono [of x y x y] by auto
  have fin: "finite ?A" unfolding takeWhile_squares [symmetric] by (rule finite_set)
  have A: "?A = {1..card ?A}"
  proof (cases "?A = {}")
    case False
    define k where "k = Max ?A"
    have k: "k \<in> ?A" using Max_in [OF fin False] by (simp add: k_def)
    have "?A = {1..k}"
    proof
      show "?A \<subseteq> {1..k}" using Max_ge [OF fin] by (auto simp: k_def)
      show "{1..k} \<subseteq> ?A" using down [OF k] by (simp add: subset_iff)
    qed
    then show ?thesis by simp
  next
    case True
    then show ?thesis by (simp only: True card.empty) simp
  qed
  show "int_Sqrt n * int_Sqrt n \<le> n"
  proof (cases "card ?A = 0")
    case False
    then have "card ?A \<in> {1..card ?A}" by simp
    then show ?thesis using A card by (metis (mono_tags, lifting) mem_Collect_eq)
  qed (simp add: card)
  have "Suc (card ?A) \<notin> {1..card ?A}" by simp
  then have "Suc (card ?A) \<notin> ?A" using A by metis
  then show "n < Suc (int_Sqrt n) * Suc (int_Sqrt n)" by (simp add: card)
qed

text \<open>A chunk is never empty, and sixteen workers get a chunk each before one gets two.\<close>

lemma chunkSizeFor_bounds: "1 \<le> chunkSizeFor n" "chunkSizeFor n \<le> n div 16 + 1"
  by (auto simp: chunkSizeFor_def Let_def parallelism_def)

end
