(* ===== verification/Rebalance.thy ===== *)
theory Rebalance
  imports Recount Descheduler_Evictions
begin

text \<open>
  The scheduler and the descheduler on one cluster. The scheduler sees the nodes with their pods
  (\<open>node_info\<close>), the descheduler a list of pods from the API server and the node objects.
  \<open>cluster_ok\<close> and \<open>listed\<close> say that both views are of the same cluster; then the numbers that
  the two components work on agree (\<open>zone_pods_count\<close>). The component lemmas are the effect of
  the evictions on the numbers (\<open>evictions_cut\<close>) and that the scheduler can always fill up a
  cluster in which no value is above its replicas (\<open>fill_up\<close>).
\<close>

section \<open>One cluster, two views\<close>

definition pods_of :: "node_info \<Rightarrow> pod list" where
  "pods_of n = concat (map (\<lambda>x. case x of None \<Rightarrow> [] | Some p \<Rightarrow> [p]) (Pods n))"

definition node_objects :: "node_info list \<Rightarrow> node list" where
  "node_objects nodes = map (\<lambda>n. the (Node n)) nodes"

definition names_its_pods :: "node_info \<Rightarrow> bool" where
  "names_its_pods n \<longleftrightarrow> (case Node n of None \<Rightarrow> False
     | Some nd \<Rightarrow> (\<forall>p \<in> set (pods_of n). NodeName p = node_Name nd))"

definition cluster_ok :: "node_info list \<Rightarrow> bool" where
  "cluster_ok nodes \<longleftrightarrow> (\<forall>n \<in> set nodes. names_its_pods n)
     \<and> distinct (map node_Name (node_objects nodes))"

definition matching :: "selector \<Rightarrow> string \<Rightarrow> pod \<Rightarrow> bool" where
  "matching sel ns p \<longleftrightarrow> pod_Namespace p = ns \<and> sel (pod_Labels p)"

definition listed :: "selector \<Rightarrow> string \<Rightarrow> node_info list \<Rightarrow> pod list \<Rightarrow> bool" where
  "listed sel ns nodes items \<longleftrightarrow>
     mset (filter (\<lambda>p. NodeName p \<in> node_Name ` set (node_objects nodes)) items)
       = mset (filter (matching sel ns) (concat (map pods_of nodes)))"

lemma countPods_pods_of:
  "countPodsMatchSelector (Pods n) sel ns
     = int (length (filter (\<lambda>p. DeletionTimestamp p = None \<and> matching sel ns p) (pods_of n)))"
proof -
  have "length (filter (counted sel ns) ps) = length (filter (\<lambda>p. DeletionTimestamp p = None \<and> matching sel ns p)
      (concat (map (\<lambda>x. case x of None \<Rightarrow> [] | Some p \<Rightarrow> [p]) ps)))" for ps
    by (induction ps) (auto simp: counted_def matching_def split: option.split)
  then show ?thesis by (simp add: countPodsMatchSelector_eq pods_of_def)
qed

lemma node_map_of_cluster:
  assumes "cluster_ok nodes" "n \<in> set nodes" "Node n = Some nd"
  shows "glookup (build_nodeMap (node_objects nodes)) (node_Name nd) = Some nd"
proof -
  have "nd \<in> set (node_objects nodes)" using assms(2,3) by (force simp: node_objects_def)
  then show ?thesis
    using assms(1) gm.fold_insert_distinct [of node_Name "node_objects nodes" "\<lambda>nd. nd" "node_Name nd" nd]
    by (auto simp: build_nodeMap_def cluster_ok_def)
qed

lemma placed_on_node:
  assumes "cluster_ok nodes" "n \<in> set nodes" "p \<in> set (pods_of n)"
  shows "placed key (build_nodeMap (node_objects nodes)) v p \<longleftrightarrow>
    DeletionTimestamp p = None \<and> zone_of key n = v"
proof -
  obtain nd where nd: "Node n = Some nd" "NodeName p = node_Name nd"
    using assms by (auto simp: cluster_ok_def names_its_pods_def split: option.splits)
  then show ?thesis using node_map_of_cluster [OF assms(1,2) nd(1)] by (simp add: placed_iff zone_of_def)
qed

lemma zone_pods_count:
  assumes "cluster_ok nodes" "listed sel ns nodes items"
  shows "int (length (zone_pods key (build_nodeMap (node_objects nodes)) items v)) = zone_count key sel ns nodes v"
proof -
  let ?nm = "build_nodeMap (node_objects nodes)"
  let ?named = "\<lambda>p. NodeName p \<in> node_Name ` set (node_objects nodes)"
  have named: "?named p" if "placed key ?nm v p" for p
    using that unfolding placed_iff by (metis build_nodeMap_lookup imageI)
  have "zone_pods key ?nm items v = filter (placed key ?nm v) (filter ?named items)"
    using named by (auto simp: zone_pods_def filter_filter intro!: filter_cong)
  then have "mset (zone_pods key ?nm items v)
      = filter_mset (placed key ?nm v) (mset (filter ?named items))" by (simp only: mset_filter)
  also have "\<dots> = mset (filter (placed key ?nm v) (filter (matching sel ns) (concat (map pods_of nodes))))"
    using assms(2) by (simp only: listed_def mset_filter)
  finally have "length (zone_pods key ?nm items v)
      = length (filter (placed key ?nm v) (filter (matching sel ns) (concat (map pods_of nodes))))"
    by (rule mset_eq_length)
  moreover have "int (length (filter (placed key ?nm v) (filter (matching sel ns) (concat (map pods_of L)))))
      = zone_count key sel ns L v" if "set L \<subseteq> set nodes" for L
    using that
  proof (induction L)
    case (Cons n L)
    have "filter (placed key ?nm v) (filter (matching sel ns) (pods_of n))
        = (if zone_of key n = v then filter (\<lambda>p. DeletionTimestamp p = None \<and> matching sel ns p) (pods_of n) else [])"
      using placed_on_node [OF assms(1), of n] Cons.prems by (auto simp: filter_filter intro!: filter_cong)
    then show ?case using Cons by (simp add: countPods_pods_of)
  qed simp
  ultimately show ?thesis by simp
qed

section \<open>The evicted pods are gone\<close>

definition drop_evicted :: "eviction list \<Rightarrow> node_info list \<Rightarrow> node_info list" where
  "drop_evicted ev nodes = map (\<lambda>n. n\<lparr>Pods := filter (\<lambda>x. x \<notin> Some ` ev_pod ` set ev) (Pods n)\<rparr>) nodes"

lemma pods_of_drop:
  "pods_of (n\<lparr>Pods := filter (\<lambda>x. x \<notin> Some ` S) (Pods n)\<rparr>) = filter (\<lambda>p. p \<notin> S) (pods_of n)"
proof -
  have "concat (map (\<lambda>x. case x of None \<Rightarrow> [] | Some p \<Rightarrow> [p]) (filter (\<lambda>x. x \<notin> Some ` S) ps))
      = filter (\<lambda>p. p \<notin> S) (concat (map (\<lambda>x. case x of None \<Rightarrow> [] | Some p \<Rightarrow> [p]) ps))" for ps
    by (induction ps) (auto split: option.split)
  then show ?thesis by (simp add: pods_of_def)
qed

lemma node_objects_drop [simp]: "node_objects (drop_evicted ev nodes) = node_objects nodes"
  by (simp add: node_objects_def drop_evicted_def)

lemma map_Node_drop [simp]: "map Node (drop_evicted ev nodes) = map Node nodes"
  by (simp add: drop_evicted_def)

lemma cluster_ok_drop: "cluster_ok nodes \<Longrightarrow> cluster_ok (drop_evicted ev nodes)"
  unfolding cluster_ok_def node_objects_drop
  by (auto simp: drop_evicted_def names_its_pods_def pods_of_drop split: option.splits)

lemma listed_drop:
  assumes "listed sel ns nodes items"
  shows "listed sel ns (drop_evicted ev nodes) (filter (\<lambda>p. p \<notin> ev_pod ` set ev) items)"
proof -
  let ?gone = "\<lambda>p. p \<notin> ev_pod ` set ev"
  have "concat (map pods_of (drop_evicted ev nodes)) = filter ?gone (concat (map pods_of nodes))"
    by (simp add: drop_evicted_def filter_concat comp_def pods_of_drop)
  moreover have "filter_mset ?gone (mset (filter (\<lambda>p. NodeName p \<in> node_Name ` set (node_objects nodes)) items))
      = filter_mset ?gone (mset (filter (matching sel ns) (concat (map pods_of nodes))))"
    using assms by (simp only: listed_def)
  ultimately show ?thesis
    by (simp add: listed_def filter_filter_mset conj_commute)
qed


section \<open>The numbers after the evictions\<close>

lemma want_desired: "want (CovertPolicy (DeployPlacement (Spec tsp))) v = desired tsp v"
  by (simp add: want_def desired_of_def desired_def split: option.split)

lemma desired_nonneg:
  assumes "\<forall>q \<in> set (DeployPlacement (Spec tsp)). 0 \<le> sint (Replicas q)"
  shows "0 \<le> desired tsp v"
  using want_nonneg [OF assms] by (simp add: want_desired)

lemma short_of_counts:
  assumes "cluster_ok nodes" "listed sel ns nodes items"
  shows "short_of (CovertPolicy (DeployPlacement (Spec tsp))) (TopologyKey (Spec tsp))
      (build_nodeMap (node_objects nodes)) items
    \<longleftrightarrow> (\<exists>v. 0 < zone_count (TopologyKey (Spec tsp)) sel ns nodes v
        \<and> zone_count (TopologyKey (Spec tsp)) sel ns nodes v < desired tsp v)"
  unfolding short_of_def want_desired zone_pods_count [OF assms, symmetric] by simp

text \<open>
  The numbers after evictions that, among the pods listed for a policy, took those of the calls
  made for it; pods of other policies may have gone as well.
\<close>

lemma counts_after_calls:
  assumes env: "desched_ok env"
    and pol: "\<forall>q \<in> set (DeployPlacement (Spec tsp)). 0 \<le> sint (Replicas q)"
    and items: "distinct items"
    and views: "cluster_ok nodes" "listed sel ns nodes items"
    and ev: "\<forall>p \<in> set items. p \<in> ev_pod ` set ev
      \<longleftrightarrow> p \<in> ev_pod ` set (policy_calls env (build_nodeMap (node_objects nodes)) tsp items)"
  shows "zone_count (TopologyKey (Spec tsp)) sel ns (drop_evicted ev nodes) v =
    (if \<exists>w. 0 < zone_count (TopologyKey (Spec tsp)) sel ns nodes w
          \<and> zone_count (TopologyKey (Spec tsp)) sel ns nodes w < desired tsp w
     then min (zone_count (TopologyKey (Spec tsp)) sel ns nodes v) (desired tsp v)
     else zone_count (TopologyKey (Spec tsp)) sel ns nodes v)"
proof -
  let ?nm = "build_nodeMap (node_objects nodes)" and ?key = "TopologyKey (Spec tsp)"
  let ?calls = "policy_calls env ?nm tsp items"
  let ?left = "filter (\<lambda>p. p \<notin> ev_pod ` set ?calls) items"
  note nonneg = want_nonneg [OF pol]
  have left: "filter (\<lambda>p. p \<notin> ev_pod ` set ev) items = ?left"
    using ev by (intro filter_cong refl) blast
  have after: "zone_count ?key sel ns (drop_evicted ev nodes) v = int (length (zone_pods ?key ?nm ?left v))"
    using zone_pods_count [OF cluster_ok_drop [OF views(1), of ev] listed_drop [OF views(2), of ev], of ?key v]
    by (simp add: left)
  have before: "zone_count ?key sel ns nodes v = int (length (zone_pods ?key ?nm items v))"
    using zone_pods_count [OF views] by simp
  show ?thesis
  proof (cases "short_of (CovertPolicy (DeployPlacement (Spec tsp))) ?key ?nm items")
    case True
    then show ?thesis
      using left_after_calls [OF env items spec [OF nonneg, of v] True] short_of_counts [OF views]
      by (simp add: after before want_desired)
  next
    case False
    then have "?calls = []" by (simp add: policy_calls_def Let_def)
    then have "zone_count ?key sel ns (drop_evicted ev nodes) v = zone_count ?key sel ns nodes v"
      using after before by simp
    moreover have "\<not> (\<exists>w. 0 < zone_count ?key sel ns nodes w \<and> zone_count ?key sel ns nodes w < desired tsp w)"
      using False unfolding short_of_counts [OF views] .
    ultimately show ?thesis by (simp only: if_False)
  qed
qed

text \<open>
  The state of the cluster after the strategy has worked on one policy and the evicted pods have
  disappeared.
\<close>

lemma evictions_cut:
  assumes env: "desched_ok env" and inp: "desched_inputs env tsp tr items"
    and pol: "\<forall>q \<in> set (DeployPlacement (Spec tsp)). 0 \<le> sint (Replicas q)"
    and items: "int (length items) < 2 ^ 31" "distinct items"
    and views: "cluster_ok nodes" "listed sel ns nodes items"
  shows "\<exists>ev. process_policy env (build_nodeMap (node_objects nodes)) tsp tr = (tr @ ev, None)
    \<and> (\<forall>v. zone_count (TopologyKey (Spec tsp)) sel ns (drop_evicted ev nodes) v =
         (if \<exists>w. 0 < zone_count (TopologyKey (Spec tsp)) sel ns nodes w
              \<and> zone_count (TopologyKey (Spec tsp)) sel ns nodes w < desired tsp w
          then min (zone_count (TopologyKey (Spec tsp)) sel ns nodes v) (desired tsp v)
          else zone_count (TopologyKey (Spec tsp)) sel ns nodes v))"
  using process_policy_calls [OF env inp want_nonneg [OF pol] items(1)]
    counts_after_calls [OF env pol items(2) views] by blast

lemma cluster_ok_live: "cluster_ok nodes \<Longrightarrow> nodes_live nodes"
  by (auto simp: cluster_ok_def nodes_live_def names_its_pods_def split: option.splits)

section \<open>Filling up\<close>

lemma some_value_open:
  assumes "pods_total sel ns nodes < policy_total tsp"
  obtains v where "zone_count (TopologyKey (Spec tsp)) sel ns nodes v < desired tsp v"
proof (rule ccontr)
  assume "\<not> thesis"
  then have "desired tsp v \<le> zone_count (TopologyKey (Spec tsp)) sel ns nodes v" for v
    using that by (meson not_le)
  moreover obtain Z where "finite Z" "pods_total sel ns nodes = sum (zone_count (TopologyKey (Spec tsp)) sel ns nodes) Z"
    "policy_total tsp = sum (desired tsp) Z"
    using totals [of undefined sel ns nodes tsp] by blast
  ultimately have "policy_total tsp \<le> pods_total sel ns nodes" by (simp add: sum_mono)
  then show False using assms by simp
qed

lemma open_value_step:
  assumes "governed idx tsp ns p" "sel (pod_Labels p)"
    and "LabelSelectorAsSelector fw (spec_LabelSelector (Spec tsp)) = Inr sel"
    and "cycle_state_ok fw" "pieces_ok fw" "nodes_live nodes"
    and "pods_total sel ns nodes < 2 ^ 31"
    and "i < length nodes" "admits fw p (TopologyKey (Spec tsp)) v (nodes ! i)"
    and "glookup (CovertPolicy (DeployPlacement (Spec tsp))) v = Some q"
    and "zone_count (TopologyKey (Spec tsp)) sel ns nodes v < sint q"
  shows "sched_step fw idx tsp sel ns nodes (bind_pod nodes i p)"
proof -
  let ?ts = "plugin_at idx nodes"
  obtain nd where nd: "Node (nodes ! i) = Some nd" "PodMatchesNodeSelectorAndAffinityTerms fw p nd"
    "mget (node_Labels nd) (TopologyKey (Spec tsp)) = Some v"
    using assms(9) by (auto simp: admits_def)
  have ns: "pod_Namespace p = ns" using assms(1) by (simp add: governed_def)
  have inp: "inputs_of fw ?ts p tsp nodes sel"
    using assms(1,3) by (auto simp: inputs_of_def plugin_at_def governed_def)
  have small: "\<forall>v. zone_count (TopologyKey (Spec tsp)) sel (pod_Namespace p) nodes v < 2 ^ 31"
    using zone_count_le_total assms(7) unfolding ns by (meson le_less_trans)
  fix cs
  obtain st h' cs' where st: "PreFilter fw ?ts cs p empty_heap = Ret (h', cs', None)"
    "getPreFilterState fw cs' = Inr (Some st)" "computed fw p (TopologyKey (Spec tsp)) sel nodes h' st"
    "SchedulePolicyMap (Constraint st) = CovertPolicy (DeployPlacement (Spec tsp))"
    using PreFilter_computed [OF inp assms(6,5) heap_ok_empty assms(4), of cs] .
  obtain r where r: "Filter fw ?ts h' cs' p (nodes ! i) = Ret r"
    "is_success r \<longleftrightarrow> filter_accepts fw p tsp sel nodes nd"
    using Filter_computed [OF st(3,4) inp st(2) small nd(1)] by blast
  have "is_success r"
    using r(2) assms(2,10,11) nd(3) by (auto simp: filter_accepts_def Let_def ns)
  then show ?thesis
    using sched_step.schedule [OF assms(1) heap_ok_empty st(1) assms(8) nd(1,2) r(1)] by blast
qed

lemma sched_run_prepend:
  "sched_run fw idx tsp sel ns nodes' nodes'' \<Longrightarrow> sched_step fw idx tsp sel ns nodes nodes'
     \<Longrightarrow> sched_run fw idx tsp sel ns nodes nodes''"
  by (induction rule: sched_run.induct) (blast intro: sched_run.intros)+

definition bind_all :: "(nat \<times> pod) list \<Rightarrow> node_info list \<Rightarrow> node_info list" where
  "bind_all xs nodes = fold (\<lambda>(i, p) ns. bind_pod ns i p) xs nodes"

definition replacement ::
    "'cs framework \<Rightarrow> indexer \<Rightarrow> TopologySchedulingPolicy \<Rightarrow> selector \<Rightarrow> string \<Rightarrow> node_info list \<Rightarrow> pod \<Rightarrow> bool" where
  "replacement fw idx tsp sel ns nodes p \<longleftrightarrow> governed idx tsp ns p \<and> sel (pod_Labels p)
     \<and> (\<forall>q \<in> set (DeployPlacement (Spec tsp)). tracked fw p (TopologyKey (Spec tsp)) nodes (Name q))"

lemma replacement_bind [simp]:
  "replacement fw idx tsp sel ns (bind_pod nodes i q) p = replacement fw idx tsp sel ns nodes p"
  by (simp add: replacement_def)

lemma replacement_drop [simp]:
  "replacement fw idx tsp sel ns (drop_evicted ev nodes) p = replacement fw idx tsp sel ns nodes p"
  by (simp add: replacement_def tracked_nodes)

lemma fill_up:
  assumes sel: "LabelSelectorAsSelector fw (spec_LabelSelector (Spec tsp)) = Inr sel"
    and env: "cycle_state_ok fw" "pieces_ok fw"
    and pol: "\<forall>v. 0 \<le> desired tsp v" "policy_total tsp < 2 ^ 31"
    and "nodes_live nodes" "\<forall>v. zone_count (TopologyKey (Spec tsp)) sel ns nodes v \<le> desired tsp v"
    and "pods_total sel ns nodes + int (length ps) = policy_total tsp"
    and "\<forall>p \<in> set ps. replacement fw idx tsp sel ns nodes p"
  shows "\<exists>is. length is = length ps \<and> sched_run fw idx tsp sel ns nodes (bind_all (zip is ps) nodes)
    \<and> (\<forall>v. zone_count (TopologyKey (Spec tsp)) sel ns (bind_all (zip is ps) nodes) v = desired tsp v)"
  using assms(6-)
proof (induction ps arbitrary: nodes)
  case Nil
  have "quota_inv tsp sel ns nodes" using Nil.prems(2) by (simp add: quota_inv_def)
  from quota_exact(2) [OF this] pol(1) Nil.prems(3) show ?case
    by (auto simp: bind_all_def intro: sched_run.start)
next
  case (Cons p ps)
  let ?key = "TopologyKey (Spec tsp)"
  have total: "pods_total sel ns nodes < policy_total tsp" using Cons.prems(3) by simp
  obtain v where v: "zone_count ?key sel ns nodes v < desired tsp v"
    using some_value_open [OF total] .
  then have "0 < desired tsp v" using zone_count_nonneg [of ?key sel ns nodes v] by linarith
  then obtain q where q: "glookup (CovertPolicy (DeployPlacement (Spec tsp))) v = Some q" "desired tsp v = sint q"
    by (auto simp: desired_def split: option.splits)
  have p: "governed idx tsp ns p" "sel (pod_Labels p)"
    "\<forall>q \<in> set (DeployPlacement (Spec tsp)). tracked fw p ?key nodes (Name q)"
    using Cons.prems(4) by (auto simp: replacement_def)
  have "v \<in> Name ` set (DeployPlacement (Spec tsp))" using q(1) dom_CovertPolicy by blast
  then have "tracked fw p ?key nodes v" using p(3) by blast
  then obtain i where i: "i < length nodes" "admits fw p ?key v (nodes ! i)"
    unfolding tracked_def by (metis in_set_conv_nth)
  let ?nodes' = "bind_pod nodes i p"
  have small: "pods_total sel ns nodes < 2 ^ 31" using total pol(2) by linarith
  have step: "sched_step fw idx tsp sel ns nodes ?nodes'"
    using open_value_step [OF p(1,2) sel env Cons.prems(1) small i q(1)] v q(2) by simp
  have cnt: "counted sel ns (Some p)" using p(1,2) by (auto simp: counted_def governed_def)
  note z = zone_count_bind [OF i(1), of ?key sel ns p] admits_zone [OF i(2)]
  have "\<forall>w. zone_count ?key sel ns ?nodes' w \<le> desired tsp w"
    using Cons.prems(2) v by (auto simp: z)
  moreover have "pods_total sel ns ?nodes' + int (length ps) = policy_total tsp"
    using Cons.prems(3) cnt by (simp add: pods_total_bind [OF i(1)])
  ultimately obtain "is" where r: "length is = length ps"
    "sched_run fw idx tsp sel ns ?nodes' (bind_all (zip is ps) ?nodes')"
    "\<forall>v. zone_count ?key sel ns (bind_all (zip is ps) ?nodes') v = desired tsp v"
    using Cons.IH [of ?nodes'] Cons.prems(1,4) by auto
  have "bind_all (zip (i # is) (p # ps)) nodes = bind_all (zip is ps) ?nodes'" by (simp add: bind_all_def)
  then show ?case
    using r sched_run_prepend [OF r(2) step] by (intro exI [of _ "i # is"]) simp
qed

section \<open>From evictions to the exact placement\<close>

text \<open>
  In a cluster without surplus every run of the scheduler up to the policy's total is exact, and
  replacements for the missing pods can be placed.
\<close>

definition exact_from ::
    "'cs framework \<Rightarrow> indexer \<Rightarrow> TopologySchedulingPolicy \<Rightarrow> selector \<Rightarrow> string \<Rightarrow> node_info list \<Rightarrow> bool" where
  "exact_from fw idx tsp sel ns nodes \<longleftrightarrow>
     (\<forall>nodes'. sched_run fw idx tsp sel ns nodes nodes' \<and> pods_total sel ns nodes' = policy_total tsp
        \<longrightarrow> (\<forall>v. zone_count (TopologyKey (Spec tsp)) sel ns nodes' v = desired tsp v))
     \<and> (\<forall>ps. pods_total sel ns nodes + int (length ps) = policy_total tsp
          \<and> (\<forall>p \<in> set ps. replacement fw idx tsp sel ns nodes p)
        \<longrightarrow> (\<exists>is. length is = length ps \<and> sched_run fw idx tsp sel ns nodes (bind_all (zip is ps) nodes)
              \<and> (\<forall>v. zone_count (TopologyKey (Spec tsp)) sel ns (bind_all (zip is ps) nodes) v = desired tsp v)))"

lemma exact_fromI:
  assumes sel: "LabelSelectorAsSelector fw (spec_LabelSelector (Spec tsp)) = Inr sel"
    and env: "cycle_state_ok fw" "pieces_ok fw"
    and pol: "\<forall>q \<in> set (DeployPlacement (Spec tsp)). 0 \<le> sint (Replicas q)" "policy_total tsp < 2 ^ 31"
    and "nodes_live nodes" and le: "\<forall>v. zone_count (TopologyKey (Spec tsp)) sel ns nodes v \<le> desired tsp v"
  shows "exact_from fw idx tsp sel ns nodes"
  unfolding exact_from_def
proof (intro conjI allI impI; elim conjE)
  note nonneg = desired_nonneg [OF pol(1)]
  fix nodes' v
  assume run: "sched_run fw idx tsp sel ns nodes nodes'" "pods_total sel ns nodes' = policy_total tsp"
  have "quota_inv tsp sel ns nodes'"
    using sched_run_quota [OF run(1) sel env] run(2) pol(2) le by (simp add: quota_inv_def)
  then show "zone_count (TopologyKey (Spec tsp)) sel ns nodes' v = desired tsp v"
    using quota_exact(2) [OF _ nonneg] run(2) by simp
next
  fix ps
  assume "pods_total sel ns nodes + int (length ps) = policy_total tsp"
    "\<forall>p \<in> set ps. replacement fw idx tsp sel ns nodes p"
  then show "\<exists>is. length is = length ps \<and> sched_run fw idx tsp sel ns nodes (bind_all (zip is ps) nodes)
      \<and> (\<forall>v. zone_count (TopologyKey (Spec tsp)) sel ns (bind_all (zip is ps) nodes) v = desired tsp v)"
    using fill_up [OF sel env _ pol(2) assms(6) le] desired_nonneg [OF pol(1)] by blast
qed

end
