(* ===== verification/Scheme_Registration.thy ===== *)
theory Scheme_Registration
  imports Config_Args
begin

text \<open>
  The registration of types and generated functions with the schemes of apimachinery:
  \<open>pkg/apis/scheduling/v1alpha1/register.go\<close>, \<open>pkg/apis/config/register.go\<close>,
  \<open>pkg/apis/config/v1beta1/register.go\<close>, \<open>zz_generated.conversion.go\<close> (\<open>RegisterConversions\<close>),
  \<open>zz_generated.defaults.go\<close>, \<open>pkg/apis/config/scheme/scheme.go\<close>, and the two \<open>register.go\<close> of the
  generated clientsets.

  A \<open>runtime.Scheme\<close> is not part of the repository. It is seen here as the list of calls made on it;
  the environment answers a call with nil, with an error or with a panic. A \<open>runtime.SchemeBuilder\<close>
  holds functions on schemes; its two methods are parameters, and \<open>builder_ok\<close> states what is
  documented of them.
\<close>

section \<open>Types and calls\<close>

record GroupVersion =
  gv_Group :: string
  gv_Version :: string

datatype go_type =
    TopologySchedulingPolicy_type
  | TopologySchedulingPolicyList_type
  | Configuration_type
  | SchedulingArgs_type
  | v1beta1_Configuration_type
  | v1beta1_SchedulingArgs_type
  | Other_type string

text \<open>
  The \<open>interface{}\<close> arguments of a conversion function hold pointers. A source is what the pointer
  leads to (for internal structs the cells of their strings, as in \<open>Config_Args\<close>), of a destination
  only the dynamic type matters, and \<open>written\<close> is what the call stores there.
\<close>

datatype source =
    From_Configuration conf_cells
  | From_SchedulingArgs nat nat "(string, Configuration) gomap option"
  | From_v1beta1_Configuration v1beta1_Configuration
  | From_v1beta1_SchedulingArgs v1beta1_SchedulingArgs

fun type_of_source :: "source \<Rightarrow> go_type" where
  "type_of_source (From_Configuration c) = Configuration_type"
| "type_of_source (From_SchedulingArgs p m cs) = SchedulingArgs_type"
| "type_of_source (From_v1beta1_Configuration c) = v1beta1_Configuration_type"
| "type_of_source (From_v1beta1_SchedulingArgs a) = v1beta1_SchedulingArgs_type"

datatype written =
    To_Configuration Configuration
  | To_SchedulingArgs SchedulingArgs
  | To_v1beta1_Configuration v1beta1_Configuration
  | To_v1beta1_SchedulingArgs v1beta1_SchedulingArgs

fun type_of_written :: "written \<Rightarrow> go_type" where
  "type_of_written (To_Configuration c) = Configuration_type"
| "type_of_written (To_SchedulingArgs a) = SchedulingArgs_type"
| "type_of_written (To_v1beta1_Configuration c) = v1beta1_Configuration_type"
| "type_of_written (To_v1beta1_SchedulingArgs a) = v1beta1_SchedulingArgs_type"

type_synonym conversion_fn = "conversions \<Rightarrow> source \<Rightarrow> go_type \<Rightarrow> store \<Rightarrow> (go_error + written \<times> store) go"

datatype scheme_call =
    AddKnownTypes GroupVersion "go_type list"
  | AddToGroupVersion GroupVersion
  | AddGeneratedConversionFunc go_type go_type conversion_fn

type_synonym scheme = "scheme_call list"
type_synonym scheme_fn = "scheme \<Rightarrow> (scheme \<times> go_error option) go"

record scheme_env =
  answer :: "scheme \<Rightarrow> scheme_call \<Rightarrow> go_error option go"
  builder_AddToScheme :: "scheme_fn list \<Rightarrow> scheme_fn"
  builder_Register :: "scheme_fn list \<Rightarrow> scheme_fn \<Rightarrow> scheme_fn list"
  APIVersionInternal :: string

definition call :: "scheme_env \<Rightarrow> scheme_call \<Rightarrow> scheme_fn" where
  "call env c s = go_bind (answer env s c) (\<lambda>err. Ret (s @ [c], err))"

text \<open>A call without a result: \<open>AddKnownTypes\<close> and \<open>AddToGroupVersion\<close> return nothing, or panic.\<close>

definition call_void :: "scheme_env \<Rightarrow> scheme_call \<Rightarrow> scheme \<Rightarrow> scheme go" where
  "call_void env c s = go_bind (answer env s c) (\<lambda>_. Ret (s @ [c]))"

section \<open>v1alpha1\<close>

definition GroupName :: string where "GroupName = ''scheduling.sigs.k8s.io''"

definition SchemeGroupVersion :: GroupVersion where
  "SchemeGroupVersion = \<lparr>gv_Group = GroupName, gv_Version = ''v1alpha1''\<rparr>"

text \<open>A \<open>GroupKind\<close> or \<open>GroupResource\<close> is the pair of its two strings.\<close>

definition Kind :: "string \<Rightarrow> string \<times> string" where
  "Kind kind = (gv_Group SchemeGroupVersion, kind)"

definition Resource :: "string \<Rightarrow> string \<times> string" where
  "Resource resource = (gv_Group SchemeGroupVersion, resource)"

definition addKnownTypes :: "scheme_env \<Rightarrow> scheme_fn" where
  "addKnownTypes env s =
     go_bind (call_void env (AddKnownTypes SchemeGroupVersion
        [TopologySchedulingPolicy_type, TopologySchedulingPolicyList_type]) s)
     (\<lambda>s1. go_bind (call_void env (AddToGroupVersion SchemeGroupVersion) s1)
     (\<lambda>s2. Ret (s2, None)))"

definition v1alpha1_AddToScheme :: "scheme_env \<Rightarrow> scheme_fn" where
  "v1alpha1_AddToScheme env = builder_AddToScheme env [addKnownTypes env]"

section \<open>The generated clientsets\<close>

text \<open>\<open>utilruntime.Must\<close> panics with a non-nil error.\<close>

definition Must :: "(scheme \<times> go_error option) go \<Rightarrow> scheme go" where
  "Must r = go_bind r (\<lambda>(s, err). case err of None \<Rightarrow> Ret s | Some e \<Rightarrow> Panic (PanicError e))"

definition clientset_AddToScheme :: "scheme_env \<Rightarrow> scheme_fn" where
  "clientset_AddToScheme env = builder_AddToScheme env [v1alpha1_AddToScheme env]"

definition clientset_init :: "scheme_env \<Rightarrow> scheme \<Rightarrow> scheme go" where
  "clientset_init env s =
     go_bind (call_void env (AddToGroupVersion \<lparr>gv_Group = '''', gv_Version = ''v1''\<rparr>) s)
     (\<lambda>s1. Must (clientset_AddToScheme env s1))"

text \<open>The fake clientset has a scheme of its own and registers the same.\<close>

definition fake_AddToScheme :: "scheme_env \<Rightarrow> scheme_fn" where
  "fake_AddToScheme env = builder_AddToScheme env [v1alpha1_AddToScheme env]"

definition fake_init :: "scheme_env \<Rightarrow> scheme \<Rightarrow> scheme go" where
  "fake_init env s =
     go_bind (call_void env (AddToGroupVersion \<lparr>gv_Group = '''', gv_Version = ''v1''\<rparr>) s)
     (\<lambda>s1. Must (fake_AddToScheme env s1))"

section \<open>The plugin arguments\<close>

definition config_GroupName :: string where "config_GroupName = ''kubescheduler.config.k8s.io''"

definition config_SchemeGroupVersion :: "scheme_env \<Rightarrow> GroupVersion" where
  "config_SchemeGroupVersion env = \<lparr>gv_Group = config_GroupName, gv_Version = APIVersionInternal env\<rparr>"

definition config_addKnownTypes :: "scheme_env \<Rightarrow> scheme_fn" where
  "config_addKnownTypes env s =
     go_bind (call_void env (AddKnownTypes (config_SchemeGroupVersion env) [SchedulingArgs_type]) s)
     (\<lambda>s1. Ret (s1, None))"

text \<open>\<open>init\<close> of \<open>pkg/apis/config\<close>: the in-tree builder of the scheduler gets one more function.\<close>

definition config_init :: "scheme_env \<Rightarrow> scheme_fn list \<Rightarrow> scheme_fn list" where
  "config_init env localSchemeBuilder = builder_Register env localSchemeBuilder (config_addKnownTypes env)"

definition v1beta1_GroupName :: string where "v1beta1_GroupName = ''kubescheduler.config.k8s.io''"

definition v1beta1_SchemeGroupVersion :: GroupVersion where
  "v1beta1_SchemeGroupVersion = \<lparr>gv_Group = v1beta1_GroupName, gv_Version = ''v1beta1''\<rparr>"

definition v1beta1_addKnownTypes :: "scheme_env \<Rightarrow> scheme_fn" where
  "v1beta1_addKnownTypes env s =
     go_bind (call_void env (AddKnownTypes v1beta1_SchemeGroupVersion [v1beta1_SchedulingArgs_type]) s)
     (\<lambda>s1. Ret (s1, None))"

definition RegisterDefaults :: scheme_fn where
  "RegisterDefaults s = Ret (s, None)"

text \<open>
  The four functions that \<open>RegisterConversions\<close> registers: each asserts the dynamic types of its
  arguments and calls a generated conversion.
\<close>

definition conv_Configuration_in :: conversion_fn where
  "conv_Configuration_in cv a b s = (case a of
     From_v1beta1_Configuration c \<Rightarrow>
       if b = Configuration_type
       then Ret (case Convert_v1beta1_Configuration cv s c of Inl e \<Rightarrow> Inl e | Inr v \<Rightarrow> Inr (To_Configuration v, s))
       else Panic TypeAssertion
   | _ \<Rightarrow> Panic TypeAssertion)"

definition conv_Configuration_out :: conversion_fn where
  "conv_Configuration_out cv a b s = (case a of
     From_Configuration c \<Rightarrow>
       if b = v1beta1_Configuration_type
       then Ret (case Convert_config_Configuration cv c s of Inl e \<Rightarrow> Inl e
         | Inr (v, s') \<Rightarrow> Inr (To_v1beta1_Configuration v, s'))
       else Panic TypeAssertion
   | _ \<Rightarrow> Panic TypeAssertion)"

definition conv_SchedulingArgs_in :: conversion_fn where
  "conv_SchedulingArgs_in cv a b s = (case a of
     From_v1beta1_SchedulingArgs v \<Rightarrow>
       if b = SchedulingArgs_type
       then Ret (case Convert_v1beta1_SchedulingArgs cv s v of Inl e \<Rightarrow> Inl e | Inr w \<Rightarrow> Inr (To_SchedulingArgs w, s))
       else Panic TypeAssertion
   | _ \<Rightarrow> Panic TypeAssertion)"

definition conv_SchedulingArgs_out :: conversion_fn where
  "conv_SchedulingArgs_out cv a b s = (case a of
     From_SchedulingArgs pathCell masterCell clusters \<Rightarrow>
       if b = v1beta1_SchedulingArgs_type
       then Ret (case Convert_config_SchedulingArgs cv pathCell masterCell clusters s of Inl e \<Rightarrow> Inl e
         | Inr (v, s') \<Rightarrow> Inr (To_v1beta1_SchedulingArgs v, s'))
       else Panic TypeAssertion
   | _ \<Rightarrow> Panic TypeAssertion)"

definition RegisterConversions :: "scheme_env \<Rightarrow> scheme_fn" where
  "RegisterConversions env s =
     go_bind (call env (AddGeneratedConversionFunc v1beta1_Configuration_type Configuration_type conv_Configuration_in) s)
     (\<lambda>(s1, err). case err of Some e \<Rightarrow> Ret (s1, Some e) | None \<Rightarrow>
     go_bind (call env (AddGeneratedConversionFunc Configuration_type v1beta1_Configuration_type conv_Configuration_out) s1)
     (\<lambda>(s2, err). case err of Some e \<Rightarrow> Ret (s2, Some e) | None \<Rightarrow>
     go_bind (call env (AddGeneratedConversionFunc v1beta1_SchedulingArgs_type SchedulingArgs_type conv_SchedulingArgs_in) s2)
     (\<lambda>(s3, err). case err of Some e \<Rightarrow> Ret (s3, Some e) | None \<Rightarrow>
     go_bind (call env (AddGeneratedConversionFunc SchedulingArgs_type v1beta1_SchedulingArgs_type conv_SchedulingArgs_out) s3)
     (\<lambda>(s4, err). case err of Some e \<Rightarrow> Ret (s4, Some e) | None \<Rightarrow> Ret (s4, None)))))"

text \<open>
  The \<open>init\<close> functions of \<open>pkg/apis/config/v1beta1\<close>, in the order of the files: \<open>register.go\<close>, then
  \<open>zz_generated.conversion.go\<close>.
\<close>

definition v1beta1_init :: "scheme_env \<Rightarrow> scheme_fn list \<Rightarrow> scheme_fn list" where
  "v1beta1_init env localSchemeBuilder =
     builder_Register env
       (builder_Register env
         (builder_Register env localSchemeBuilder (v1beta1_addKnownTypes env))
         RegisterDefaults)
       (RegisterConversions env)"

definition conversion_init :: "scheme_env \<Rightarrow> scheme_fn list \<Rightarrow> scheme_fn list" where
  "conversion_init env localSchemeBuilder = builder_Register env localSchemeBuilder (RegisterConversions env)"

text \<open>
  \<open>AddToScheme\<close> of the two packages is the method of a pointer to the builder, so it runs what has
  been registered by then.
\<close>

definition scheme_AddToScheme :: "scheme_env \<Rightarrow> scheme_fn list \<Rightarrow> scheme_fn list \<Rightarrow> scheme \<Rightarrow> scheme go" where
  "scheme_AddToScheme env config_builder v1beta1_builder s =
     go_bind (Must (builder_AddToScheme env config_builder s))
     (\<lambda>s1. Must (builder_AddToScheme env v1beta1_builder s1))"

text \<open>
  The initialisation of the program: the packages \<open>config\<close> and \<open>v1beta1\<close> before \<open>scheme\<close>, which
  imports them. \<open>intree\<close> and \<open>intree_v1beta1\<close> are the functions Kubernetes itself put into the two builders.
\<close>

definition scheme_init :: "scheme_env \<Rightarrow> scheme_fn list \<Rightarrow> scheme_fn list \<Rightarrow> scheme \<Rightarrow> scheme go" where
  "scheme_init env intree intree_v1beta1 s =
     scheme_AddToScheme env (config_init env intree) (conversion_init env (v1beta1_init env intree_v1beta1)) s"

end
