(* ===== verification/Scheme_Properties.thy ===== *)
theory Scheme_Properties
  imports Scheme_Registration
begin

text \<open>
  What the initialisation of the program leaves in the schemes: the exact list of calls, and the
  property that the registered conversion functions are typed.
\<close>

section \<open>Builders\<close>

text \<open>
  Documented of \<open>SchemeBuilder\<close>: \<open>Register\<close> adds a function to the list, \<open>AddToScheme\<close> applies all
  of them to the scheme and stops at the first error.
\<close>

definition builder_ok :: "scheme_env \<Rightarrow> bool" where
  "builder_ok env \<longleftrightarrow>
     (\<forall>s. builder_AddToScheme env [] s = Ret (s, None))
     \<and> (\<forall>f fs s. builder_AddToScheme env (f # fs) s = go_bind (f s) (\<lambda>(s', err). case err of
          Some e \<Rightarrow> Ret (s', Some e) | None \<Rightarrow> builder_AddToScheme env fs s'))
     \<and> (\<forall>b f. builder_Register env b f = b @ [f])"

lemma builder_append:
  assumes "builder_ok env"
  shows "builder_AddToScheme env (fs @ gs) s = go_bind (builder_AddToScheme env fs s) (\<lambda>(s', err). case err of
      Some e \<Rightarrow> Ret (s', Some e) | None \<Rightarrow> builder_AddToScheme env gs s')"
proof (induction fs arbitrary: s)
  case (Cons f fs)
  then show ?case
    using assms by (cases "f s") (auto simp: builder_ok_def split: option.split)
qed (use assms in \<open>simp add: builder_ok_def\<close>)

lemma Must_Ret_iff: "Must r = Ret s \<longleftrightarrow> r = Ret (s, None)"
  by (cases r) (auto simp: Must_def split: option.splits)

lemma call_Ret_iff: "call env c s = Ret (s', err) \<longleftrightarrow> answer env s c = Ret err \<and> s' = s @ [c]"
  by (auto simp: call_def go_bind_Ret_iff)

lemma call_void_Ret: "call_void env c s = Ret s' \<Longrightarrow> s' = s @ [c]"
  by (auto simp: call_void_def go_bind_Ret_iff)

section \<open>The calls of the initialisation\<close>

fun own :: "go_type \<Rightarrow> bool" where
  "own (Other_type n) = False"
| "own _ = True"

text \<open>The functions of Kubernetes do not register conversions between the types of this repository.\<close>

fun foreign_call :: "scheme_call \<Rightarrow> bool" where
  "foreign_call (AddGeneratedConversionFunc a b f) = (\<not> own a \<or> \<not> own b)"
| "foreign_call _ = True"

definition foreign_fn :: "scheme_fn \<Rightarrow> bool" where
  "foreign_fn f \<longleftrightarrow> (\<forall>s s' err. f s = Ret (s', err) \<longrightarrow> (\<exists>cs. s' = s @ cs \<and> list_all foreign_call cs))"

definition own_conversions :: "scheme_call list" where
  "own_conversions =
     [AddGeneratedConversionFunc v1beta1_Configuration_type Configuration_type conv_Configuration_in,
      AddGeneratedConversionFunc Configuration_type v1beta1_Configuration_type conv_Configuration_out,
      AddGeneratedConversionFunc v1beta1_SchedulingArgs_type SchedulingArgs_type conv_SchedulingArgs_in,
      AddGeneratedConversionFunc SchedulingArgs_type v1beta1_SchedulingArgs_type conv_SchedulingArgs_out]"

lemma builder_foreign:
  assumes "builder_ok env" "\<forall>f \<in> set fs. foreign_fn f"
    and "builder_AddToScheme env fs s = Ret (s', None)"
  shows "\<exists>cs. s' = s @ cs \<and> list_all foreign_call cs"
  using assms(2,3)
proof (induction fs arbitrary: s)
  case Nil
  then show ?case using assms(1) by (simp add: builder_ok_def)
next
  case (Cons f fs)
  obtain s1 where s1: "f s = Ret (s1, None)" "builder_AddToScheme env fs s1 = Ret (s', None)"
    using Cons.prems(2) assms(1) by (auto simp: builder_ok_def go_bind_Ret_iff split: option.splits)
  obtain cs where "s1 = s @ cs" "list_all foreign_call cs"
    using Cons.prems(1) s1(1) by (auto simp: foreign_fn_def)
  moreover obtain ds where "s' = s1 @ ds" "list_all foreign_call ds"
    using Cons.IH [OF _ s1(2)] Cons.prems(1) by auto
  ultimately show ?case by (intro exI [of _ "cs @ ds"]) simp
qed

lemma RegisterConversions_Ret:
  "RegisterConversions env s = Ret (s', None) \<Longrightarrow> s' = s @ own_conversions"
  by (auto simp: RegisterConversions_def go_bind_Ret_iff call_Ret_iff own_conversions_def split: option.splits)

lemma config_builder:
  assumes "builder_ok env" "builder_AddToScheme env (config_init env fs) s = Ret (s', None)"
  obtains s1 where "builder_AddToScheme env fs s = Ret (s1, None)"
    "s' = s1 @ [AddKnownTypes (config_SchemeGroupVersion env) [SchedulingArgs_type]]"
proof -
  have "config_init env fs = fs @ [config_addKnownTypes env]"
    using assms(1) by (simp add: config_init_def builder_ok_def)
  then show ?thesis
    using assms that
    by (auto simp: builder_append [OF assms(1)] builder_ok_def go_bind_Ret_iff config_addKnownTypes_def
        dest: call_void_Ret split: option.splits)
qed

lemma v1beta1_builder:
  assumes "builder_ok env" "builder_AddToScheme env (conversion_init env (v1beta1_init env fs)) s = Ret (s', None)"
  obtains s1 where "builder_AddToScheme env fs s = Ret (s1, None)"
    "s' = s1 @ [AddKnownTypes v1beta1_SchemeGroupVersion [v1beta1_SchedulingArgs_type]] @ own_conversions @ own_conversions"
proof -
  have "conversion_init env (v1beta1_init env fs)
      = fs @ [v1beta1_addKnownTypes env, RegisterDefaults, RegisterConversions env, RegisterConversions env]"
    using assms(1) by (simp add: conversion_init_def v1beta1_init_def builder_ok_def)
  then show ?thesis
    using assms that
    by (auto simp: builder_append [OF assms(1)] builder_ok_def go_bind_Ret_iff v1beta1_addKnownTypes_def
        RegisterDefaults_def dest!: call_void_Ret RegisterConversions_Ret split: option.splits)
qed

text \<open>
  The calls: the functions of Kubernetes, the two kinds, and the four conversions twice, as both
  \<open>init\<close> functions of \<open>v1beta1\<close> register \<open>RegisterConversions\<close>.
\<close>

lemma scheme_init_calls:
  assumes "builder_ok env" "\<forall>f \<in> set intree \<union> set intree_v1beta1. foreign_fn f"
    and "scheme_init env intree intree_v1beta1 s = Ret s'"
  obtains cs ds where "list_all foreign_call (cs @ ds)"
    "s' = s @ cs @ [AddKnownTypes (config_SchemeGroupVersion env) [SchedulingArgs_type]] @ ds
       @ [AddKnownTypes v1beta1_SchemeGroupVersion [v1beta1_SchedulingArgs_type]] @ own_conversions @ own_conversions"
proof -
  obtain t where t: "builder_AddToScheme env (config_init env intree) s = Ret (t, None)"
    "builder_AddToScheme env (conversion_init env (v1beta1_init env intree_v1beta1)) t = Ret (s', None)"
    using assms(3) by (auto simp: scheme_init_def scheme_AddToScheme_def go_bind_Ret_iff Must_Ret_iff)
  obtain t1 where t1: "builder_AddToScheme env intree s = Ret (t1, None)"
    "t = t1 @ [AddKnownTypes (config_SchemeGroupVersion env) [SchedulingArgs_type]]"
    by (rule config_builder [OF assms(1) t(1)])
  obtain t2 where t2: "builder_AddToScheme env intree_v1beta1 t = Ret (t2, None)"
    "s' = t2 @ [AddKnownTypes v1beta1_SchemeGroupVersion [v1beta1_SchedulingArgs_type]] @ own_conversions @ own_conversions"
    by (rule v1beta1_builder [OF assms(1) t(2)])
  obtain cs where "t1 = s @ cs" "list_all foreign_call cs"
    using builder_foreign [OF assms(1) _ t1(1)] assms(2) by auto
  moreover obtain ds where "t2 = t @ ds" "list_all foreign_call ds"
    using builder_foreign [OF assms(1) _ t2(1)] assms(2) by auto
  ultimately show ?thesis using that t1(2) t2(2) by simp
qed

text \<open>When every call is accepted the initialisation returns.\<close>

definition returns :: "scheme_fn \<Rightarrow> bool" where
  "returns f \<longleftrightarrow> (\<forall>s. \<exists>s'. f s = Ret (s', None))"

lemma builder_returns:
  assumes "builder_ok env" "\<forall>f \<in> set fs. returns f"
  shows "returns (builder_AddToScheme env fs)"
  using assms(2)
proof (induction fs)
  case (Cons f fs)
  then have "returns f" "returns (builder_AddToScheme env fs)" by auto
  moreover have "builder_AddToScheme env (f # fs) s = go_bind (f s) (\<lambda>(s', err). case err of
          Some e \<Rightarrow> Ret (s', Some e) | None \<Rightarrow> builder_AddToScheme env fs s')" for s
    using assms(1) by (simp add: builder_ok_def)
  ultimately show ?case unfolding returns_def by (metis case_prod_conv go_bind.simps(1) option.case(1))
qed (use assms(1) in \<open>simp add: returns_def builder_ok_def\<close>)

lemma own_fns_return:
  assumes "\<forall>s c. answer env s c = Ret None"
  shows "returns (config_addKnownTypes env)" "returns (v1beta1_addKnownTypes env)"
    "returns RegisterDefaults" "returns (RegisterConversions env)"
  using assms by (simp_all add: returns_def config_addKnownTypes_def v1beta1_addKnownTypes_def call_void_def
      RegisterDefaults_def RegisterConversions_def call_def)

lemma scheme_init_returns:
  assumes "builder_ok env" "\<forall>s c. answer env s c = Ret None"
    and "\<forall>f \<in> set intree \<union> set intree_v1beta1. returns f"
  shows "\<exists>s'. scheme_init env intree intree_v1beta1 s = Ret s'"
proof -
  have "returns (builder_AddToScheme env (config_init env intree))"
    "returns (builder_AddToScheme env (conversion_init env (v1beta1_init env intree_v1beta1)))"
    by (rule builder_returns [OF assms(1)];
        use assms(1,3) own_fns_return [OF assms(2)] in
          \<open>auto simp: config_init_def conversion_init_def v1beta1_init_def builder_ok_def\<close>)+
  then show ?thesis
    unfolding scheme_init_def scheme_AddToScheme_def returns_def by (metis Must_Ret_iff go_bind.simps(1))
qed

section \<open>Typed conversions\<close>

text \<open>A conversion function registered for two types accepts them and writes a value of the second.\<close>

definition typed_conversion :: "go_type \<Rightarrow> go_type \<Rightarrow> conversion_fn \<Rightarrow> bool" where
  "typed_conversion src dst f \<longleftrightarrow> (\<forall>cv a st. type_of_source a = src \<longrightarrow>
     (\<exists>r. f cv a dst st = Ret r \<and> (\<forall>v st'. r = Inr (v, st') \<longrightarrow> type_of_written v = dst)))"

lemma own_conversions_typed:
  "AddGeneratedConversionFunc src dst f \<in> set own_conversions \<Longrightarrow> typed_conversion src dst f"
proof -
  have "typed_conversion v1beta1_Configuration_type Configuration_type conv_Configuration_in"
    "typed_conversion Configuration_type v1beta1_Configuration_type conv_Configuration_out"
    "typed_conversion v1beta1_SchedulingArgs_type SchedulingArgs_type conv_SchedulingArgs_in"
    "typed_conversion SchedulingArgs_type v1beta1_SchedulingArgs_type conv_SchedulingArgs_out"
    by (auto simp: typed_conversion_def conv_Configuration_in_def conv_Configuration_out_def
        conv_SchedulingArgs_in_def conv_SchedulingArgs_out_def split: source.split sum.split)
  then show "AddGeneratedConversionFunc src dst f \<in> set own_conversions \<Longrightarrow> typed_conversion src dst f"
    by (auto simp: own_conversions_def)
qed

text \<open>
  C19. The registered conversions are typed. When the initialisation of the schemes returns, both
  versions of the plugin arguments are known kinds, every conversion function that is registered
  between two types of the repository accepts pointers of exactly these types (its type
  assertions do not panic) and writes a value of the destination type, and there is one in both
  directions for the arguments and for the cluster configurations.
\<close>

theorem registered_conversions_typed:
  assumes "builder_ok env" "\<forall>f \<in> set intree \<union> set intree_v1beta1. foreign_fn f"
    and "list_all foreign_call s" "scheme_init env intree intree_v1beta1 s = Ret s'"
  shows "(\<forall>src dst f. AddGeneratedConversionFunc src dst f \<in> set s' \<longrightarrow> own src \<longrightarrow> own dst \<longrightarrow>
        (\<forall>cv a st. type_of_source a = src \<longrightarrow>
           (\<exists>r. f cv a dst st = Ret r \<and> (\<forall>v st'. r = Inr (v, st') \<longrightarrow> type_of_written v = dst))))
    \<and> (\<forall>src dst. (src, dst) \<in> {(v1beta1_Configuration_type, Configuration_type), (Configuration_type, v1beta1_Configuration_type),
          (v1beta1_SchedulingArgs_type, SchedulingArgs_type), (SchedulingArgs_type, v1beta1_SchedulingArgs_type)}
        \<longrightarrow> (\<exists>f. AddGeneratedConversionFunc src dst f \<in> set s'))
    \<and> AddKnownTypes (config_SchemeGroupVersion env) [SchedulingArgs_type] \<in> set s'
    \<and> AddKnownTypes v1beta1_SchemeGroupVersion [v1beta1_SchedulingArgs_type] \<in> set s'"
proof -
  obtain cs ds where cs: "list_all foreign_call (cs @ ds)"
    "s' = s @ cs @ [AddKnownTypes (config_SchemeGroupVersion env) [SchedulingArgs_type]] @ ds
       @ [AddKnownTypes v1beta1_SchemeGroupVersion [v1beta1_SchedulingArgs_type]] @ own_conversions @ own_conversions"
    by (rule scheme_init_calls [OF assms(1,2,4)])
  have "typed_conversion src dst f"
    if "AddGeneratedConversionFunc src dst f \<in> set s'" "own src" "own dst" for src dst f
  proof (rule own_conversions_typed, rule ccontr)
    assume "AddGeneratedConversionFunc src dst f \<notin> set own_conversions"
    then have "foreign_call (AddGeneratedConversionFunc src dst f)"
      using that(1) cs assms(3) by (auto simp: list_all_iff simp del: foreign_call.simps)
    then show False using that(2,3) by simp
  qed
  then have "\<forall>src dst f. AddGeneratedConversionFunc src dst f \<in> set s' \<longrightarrow> own src \<longrightarrow> own dst \<longrightarrow>
        (\<forall>cv a st. type_of_source a = src \<longrightarrow>
           (\<exists>r. f cv a dst st = Ret r \<and> (\<forall>v st'. r = Inr (v, st') \<longrightarrow> type_of_written v = dst)))"
    by (simp add: typed_conversion_def)
  moreover have "set own_conversions \<subseteq> set s'" using cs(2) by auto
  ultimately show ?thesis using cs(2) by (simp add: own_conversions_def) blast
qed

fun doc_AddToScheme :: "scheme_fn list \<Rightarrow> scheme_fn" where
  "doc_AddToScheme [] s = Ret (s, None)"
| "doc_AddToScheme (f # fs) s = (case f s of
     Panic p \<Rightarrow> Panic p
   | Ret (s', Some e) \<Rightarrow> Ret (s', Some e)
   | Ret (s', None) \<Rightarrow> doc_AddToScheme fs s')"

definition doc_env :: scheme_env where
  "doc_env = \<lparr>answer = (\<lambda>s c. Ret None), builder_AddToScheme = doc_AddToScheme,
     builder_Register = (\<lambda>b f. b @ [f]), APIVersionInternal = ''__internal''\<rparr>"

definition doc_intree :: "scheme_fn list" where
  "doc_intree = [\<lambda>s. Ret (s @ [AddKnownTypes \<lparr>gv_Group = config_GroupName, gv_Version = ''v1beta1''\<rparr>
     [Other_type ''KubeSchedulerConfiguration'']], None)]"

theorem registered_conversions_typed_witness:
  "\<exists>s' f. scheme_init doc_env doc_intree doc_intree [] = Ret s'
    \<and> AddGeneratedConversionFunc v1beta1_SchedulingArgs_type SchedulingArgs_type f \<in> set s'"
proof -
  have ok: "builder_ok doc_env"
    by (auto simp: builder_ok_def doc_env_def split: go.split option.split)
  have fo: "\<forall>f \<in> set doc_intree \<union> set doc_intree. foreign_fn f"
    by (simp add: doc_intree_def foreign_fn_def)
  have "\<forall>f \<in> set doc_intree \<union> set doc_intree. returns f"
    by (simp add: doc_intree_def returns_def)
  moreover have "\<forall>s c. answer doc_env s c = Ret None" by (simp add: doc_env_def)
  ultimately obtain s' where s': "scheme_init doc_env doc_intree doc_intree [] = Ret s'"
    using scheme_init_returns [OF ok] by blast
  have "list_all foreign_call []" by simp
  note r = registered_conversions_typed [OF ok fo this s', THEN conjunct2, THEN conjunct1]
  obtain f where "AddGeneratedConversionFunc v1beta1_SchedulingArgs_type SchedulingArgs_type f \<in> set s'"
    using spec [OF spec [OF r, of v1beta1_SchedulingArgs_type], of SchedulingArgs_type] by auto
  with s' show ?thesis by blast
qed

end
