(* ===== verification/Fake_Client.thy ===== *)
theory Fake_Client
  imports Policy_Lister
begin

text \<open>
  The generated fake client for tests
  (\<open>.../typed/scheduling/v1alpha1/fake/fake_topologyschedulingpolicy.go\<close>). \<open>testing.Fake\<close> of
  client-go is the parameter \<open>invokes\<close>: it answers an action with an object or nil and an error
  or nil; a nil object is \<open>None\<close>. The answer to a list action is a list of policies.
\<close>

datatype 'o action =
    GetAction string string
  | ListAction string 'o
  | WatchAction string 'o
  | CreateAction string TopologySchedulingPolicy
  | UpdateAction string TopologySchedulingPolicy
  | UpdateSubresourceAction string string TopologySchedulingPolicy
  | DeleteAction string string
  | DeleteCollectionAction string 'o
  | PatchSubresourceAction string string string string "string list"

type_synonym 'a answer = "'a option \<times> go_error option"

record ('o, 'w) fake =
  invokes :: "'o action \<Rightarrow> TopologySchedulingPolicy answer"
  invokes_list :: "'o action \<Rightarrow> TopologySchedulingPolicy list answer"
  invokes_watch :: "'o action \<Rightarrow> go_error + 'w"
  ExtractLabels :: "'o \<Rightarrow> selector option"

record ('o, 'w) FakeTopologySchedulingPolicies =
  Fake :: "('o, 'w) fake"
  fake_ns :: string

text \<open>The common ending: nil and the error for a nil object, else the object and the error.\<close>

definition as_policy :: "TopologySchedulingPolicy answer \<Rightarrow> TopologySchedulingPolicy answer" where
  "as_policy r = (case r of (None, err) \<Rightarrow> (None, err) | (Some obj, err) \<Rightarrow> (Some obj, err))"

definition fake_Get :: "('o, 'w) FakeTopologySchedulingPolicies \<Rightarrow> string \<Rightarrow> TopologySchedulingPolicy answer" where
  "fake_Get c name = as_policy (invokes (Fake c) (GetAction (fake_ns c) name))"

definition fake_List ::
    "('o, 'w) FakeTopologySchedulingPolicies \<Rightarrow> 'o \<Rightarrow> TopologySchedulingPolicy list answer" where
  "fake_List c opts =
     (case invokes_list (Fake c) (ListAction (fake_ns c) opts) of
        (None, err) \<Rightarrow> (None, err)
      | (Some items, err) \<Rightarrow>
          (let label = (case ExtractLabels (Fake c) opts of None \<Rightarrow> Everything | Some l \<Rightarrow> l)
           in (Some (fold (\<lambda>item acc. if label (tsp_Labels item) then acc @ [item] else acc) items []), err)))"

definition fake_Watch :: "('o, 'w) FakeTopologySchedulingPolicies \<Rightarrow> 'o \<Rightarrow> go_error + 'w" where
  "fake_Watch c opts = invokes_watch (Fake c) (WatchAction (fake_ns c) opts)"

definition fake_Create ::
    "('o, 'w) FakeTopologySchedulingPolicies \<Rightarrow> TopologySchedulingPolicy \<Rightarrow> TopologySchedulingPolicy answer" where
  "fake_Create c tsp = as_policy (invokes (Fake c) (CreateAction (fake_ns c) tsp))"

definition fake_Update ::
    "('o, 'w) FakeTopologySchedulingPolicies \<Rightarrow> TopologySchedulingPolicy \<Rightarrow> TopologySchedulingPolicy answer" where
  "fake_Update c tsp = as_policy (invokes (Fake c) (UpdateAction (fake_ns c) tsp))"

definition fake_UpdateStatus ::
    "('o, 'w) FakeTopologySchedulingPolicies \<Rightarrow> TopologySchedulingPolicy \<Rightarrow> TopologySchedulingPolicy answer" where
  "fake_UpdateStatus c tsp = as_policy (invokes (Fake c) (UpdateSubresourceAction ''status'' (fake_ns c) tsp))"

definition fake_Delete :: "('o, 'w) FakeTopologySchedulingPolicies \<Rightarrow> string \<Rightarrow> go_error option" where
  "fake_Delete c name = snd (invokes (Fake c) (DeleteAction (fake_ns c) name))"

definition fake_DeleteCollection :: "('o, 'w) FakeTopologySchedulingPolicies \<Rightarrow> 'o \<Rightarrow> go_error option" where
  "fake_DeleteCollection c listOpts = snd (invokes_list (Fake c) (DeleteCollectionAction (fake_ns c) listOpts))"

definition fake_Patch ::
    "('o, 'w) FakeTopologySchedulingPolicies \<Rightarrow> string \<Rightarrow> string \<Rightarrow> string \<Rightarrow> string list \<Rightarrow> TopologySchedulingPolicy answer" where
  "fake_Patch c name pt data subresources =
     as_policy (invokes (Fake c) (PatchSubresourceAction (fake_ns c) name pt data subresources))"

section \<open>Laws\<close>

lemma fold_keep: "fold (\<lambda>x acc. if P x then acc @ [x] else acc) xs acc = acc @ filter P xs"
  by (induction xs arbitrary: acc) simp_all

text \<open>The fake answers a list request with those tracked policies whose labels match, in order.\<close>

lemma fake_List_filters:
  assumes "invokes_list (Fake c) (ListAction (fake_ns c) opts) = (Some items, err)"
  shows "fake_List c opts = (Some (filter (\<lambda>p. case ExtractLabels (Fake c) opts of None \<Rightarrow> True | Some l \<Rightarrow> l (tsp_Labels p)) items), err)"
  using assms by (simp add: fake_List_def Let_def fold_keep Everything_def split: option.split)

end
