(* ===== verification/Fake_Clientset.thy ===== *)
theory Fake_Clientset
  imports Fake_Client Informers
begin

text \<open>
  The generated fake clientset (\<open>pkg/generated/clientset/versioned/fake/clientset_generated.go\<close>) and
  the fake group client (\<open>.../typed/scheduling/v1alpha1/fake/fake_scheduling_client.go\<close>). The
  object tracker of client-go is a parameter; its state is the type \<open>'t\<close>, an object is \<open>'b\<close>. So is
  the way \<open>testing.Fake\<close> answers an action from its two chains of reactors (\<open>answers\<close>).
\<close>

section \<open>The clientset\<close>

datatype reaction = ObjectReaction

type_synonym ('t, 'w) watch_reaction = "'t \<Rightarrow> gvr \<Rightarrow> string \<Rightarrow> bool \<times> 'w option \<times> go_error option"

record ('t, 'w) fake_clientset =
  tracker :: 't
  reaction_chain :: "(string \<times> string \<times> reaction) list"
  watch_chain :: "(string \<times> ('t, 'w) watch_reaction) list"
  has_discovery :: bool

record ('t, 'b, 'o, 'w) tracker_ops =
  NewObjectTracker :: 't
  tracker_Add :: "'b \<Rightarrow> 't \<Rightarrow> 't \<times> go_error option"
  tracker_Watch :: "'t \<Rightarrow> gvr \<Rightarrow> string \<Rightarrow> go_error + 'w"
  answers :: "('t, 'w) fake_clientset \<Rightarrow> ('o, 'w) fake"

text \<open>The loop over the given objects: the first error is a panic.\<close>

fun add_objects :: "('t, 'b, 'o, 'w) tracker_ops \<Rightarrow> 'b list \<Rightarrow> 't \<Rightarrow> 't go" where
  "add_objects ops [] o' = Ret o'"
| "add_objects ops (obj # objects) o' = (case tracker_Add ops obj o' of
     (o'', Some err) \<Rightarrow> Panic (PanicError err)
   | (o'', None) \<Rightarrow> add_objects ops objects o'')"

text \<open>The watch reactor: an error of the tracker counts as not handled, and is dropped.\<close>

definition watch_reactor :: "('t, 'b, 'o, 'w) tracker_ops \<Rightarrow> ('t, 'w) watch_reaction" where
  "watch_reactor ops o' gvr ns = (case tracker_Watch ops o' gvr ns of
     Inl err \<Rightarrow> (False, None, Some err)
   | Inr w \<Rightarrow> (True, Some w, None))"

definition NewSimpleClientset :: "('t, 'b, 'o, 'w) tracker_ops \<Rightarrow> 'b list \<Rightarrow> ('t, 'w) fake_clientset go" where
  "NewSimpleClientset ops objects =
     go_bind (add_objects ops objects (NewObjectTracker ops))
     (\<lambda>o'. let cs = \<lparr>tracker = o', reaction_chain = [], watch_chain = [], has_discovery = False\<rparr>;
               cs = cs\<lparr>has_discovery := True\<rparr>;
               cs = cs\<lparr>reaction_chain := reaction_chain cs @ [(''*'', ''*'', ObjectReaction)]\<rparr>;
               cs = cs\<lparr>watch_chain := watch_chain cs @ [(''*'', watch_reactor ops)]\<rparr>
           in Ret cs)"

text \<open>\<open>Discovery\<close> returns the pointer set by the constructor, nil in a clientset made without it.\<close>

definition fake_Discovery :: "('t, 'w) fake_clientset \<Rightarrow> unit option" where
  "fake_Discovery c = (if has_discovery c then Some () else None)"

definition Tracker :: "('t, 'w) fake_clientset \<Rightarrow> 't" where
  "Tracker c = tracker c"

section \<open>The group client\<close>

record ('o, 'w) FakeSchedulingV1alpha1 =
  sv_Fake :: "('o, 'w) fake"

definition fake_SchedulingV1alpha1 ::
    "('t, 'b, 'o, 'w) tracker_ops \<Rightarrow> ('t, 'w) fake_clientset \<Rightarrow> ('o, 'w) FakeSchedulingV1alpha1" where
  "fake_SchedulingV1alpha1 ops c = \<lparr>sv_Fake = answers ops c\<rparr>"

definition fake_TopologySchedulingPolicies ::
    "('o, 'w) FakeSchedulingV1alpha1 \<Rightarrow> string \<Rightarrow> ('o, 'w) FakeTopologySchedulingPolicies" where
  "fake_TopologySchedulingPolicies c ns = \<lparr>Fake = sv_Fake c, fake_ns = ns\<rparr>"

text \<open>
  \<open>RESTClient\<close> wraps a nil \<open>*rest.RESTClient\<close> in an interface: the interface is not nil (the outer
  \<open>Some\<close>), the pointer in it is.
\<close>

definition fake_RESTClient :: "('o, 'w) FakeSchedulingV1alpha1 \<Rightarrow> 'r option option" where
  "fake_RESTClient c = (let ret = None in Some ret)"

section \<open>Laws\<close>

text \<open>The constructor panics with the error of the first object that the tracker refuses.\<close>

lemma add_objects_append:
  "add_objects ops (xs @ ys) o' = go_bind (add_objects ops xs o') (add_objects ops ys)"
  by (induction xs arbitrary: o') (auto split: prod.split option.split)

lemma add_objects_refused:
  assumes "add_objects ops xs o' = Ret o1" "tracker_Add ops obj o1 = (o2, Some err)"
  shows "add_objects ops (xs @ obj # ys) o' = Panic (PanicError err)"
  using assms by (simp add: add_objects_append)

lemma add_objects_panic:
  assumes "add_objects ops objects o' = Panic p"
  obtains xs obj ys o1 o2 err where "objects = xs @ obj # ys" "add_objects ops xs o' = Ret o1"
    "tracker_Add ops obj o1 = (o2, Some err)" "p = PanicError err"
proof -
  have "\<exists>xs obj ys o1 o2 err. objects = xs @ obj # ys \<and> add_objects ops xs o' = Ret o1
      \<and> tracker_Add ops obj o1 = (o2, Some err) \<and> p = PanicError err"
    using assms
  proof (induction objects arbitrary: o')
    case (Cons obj objects)
    obtain o1 e where a: "tracker_Add ops obj o' = (o1, e)" by (cases "tracker_Add ops obj o'")
    show ?case
    proof (cases e)
      case None
      then obtain xs x ys u v err where "objects = xs @ x # ys" "add_objects ops xs o1 = Ret u"
        "tracker_Add ops x u = (v, Some err)" "p = PanicError err"
        using Cons.IH [of o1] Cons.prems a by auto
      then show ?thesis using a None by (intro exI [of _ "obj # xs"] exI conjI) auto
    next
      case (Some err)
      then show ?thesis
        using Cons.prems a by (intro exI [of _ "[]"] exI conjI) auto
    qed
  qed simp
  then show ?thesis using that by blast
qed

text \<open>
  A fake clientset is made exactly when the tracker takes all objects; a watch on it answers like
  the tracker, except that an error means "not handled".
\<close>

lemma NewSimpleClientset_Ret:
  "NewSimpleClientset ops objects = Ret cs \<longleftrightarrow>
     (\<exists>o'. add_objects ops objects (NewObjectTracker ops) = Ret o'
        \<and> cs = \<lparr>tracker = o', reaction_chain = [(''*'', ''*'', ObjectReaction)],
                watch_chain = [(''*'', watch_reactor ops)], has_discovery = True\<rparr>)"
  by (auto simp: NewSimpleClientset_def go_bind_Ret_iff Let_def)

lemma watch_reactor_handled:
  "fst (watch_reactor ops o' r ns) \<longleftrightarrow> (\<exists>w. tracker_Watch ops o' r ns = Inr w)"
  by (auto simp: watch_reactor_def split: sum.split)

end
