(* ===== verification/Descheduler_Command.thy ===== *)
theory Descheduler_Command
  imports Descheduler_Run
begin

text \<open>
  The descheduler's command line: \<open>NewDeschedulerServer\<close> and \<open>Validate\<close> of
  \<open>cmd/descheduler/app/options/options.go\<close>, \<open>NewDeschedulerCommand\<close> and \<open>Run\<close> of
  \<open>cmd/descheduler/app/server.go\<close>. The scheme of sigs.k8s.io/descheduler, the validation of the
  log options and the parsing of flags are parameters.
\<close>

section \<open>options.go\<close>

text \<open>The fields of \<open>componentconfig.DeschedulerConfiguration\<close> that the program reads, and the log format.\<close>

record DeschedulerConfiguration =
  dc_KubeconfigFile :: string
  dc_PolicyConfigFile :: string
  dc_DryRun :: bool
  dc_NodeSelector :: string
  dc_MaxNoOfPodsToEvictPerNode :: int
  dc_EvictLocalStoragePods :: bool
  dc_DeschedulingInterval :: int64
  dc_Logging_Format :: string

text \<open>A versioned configuration is opaque (\<open>'v\<close>), \<open>zero\<close> is the empty one.\<close>

record 'v options_env =
  zero_versioned :: 'v
  de_scheme_Default :: "'v \<Rightarrow> 'v"
  de_scheme_Convert :: "'v \<Rightarrow> go_error + DeschedulerConfiguration"
  Logs_Validate :: "string \<Rightarrow> go_error list"
  NewAggregate :: "go_error list \<Rightarrow> go_error option"

definition newDefaultComponentConfig :: "'v options_env \<Rightarrow> go_error + DeschedulerConfiguration" where
  "newDefaultComponentConfig oe = (case de_scheme_Convert oe (de_scheme_Default oe (zero_versioned oe)) of
     Inl err \<Rightarrow> Inl err | Inr cfg \<Rightarrow> Inr cfg)"

text \<open>A server and the format of its log options; its clients are still nil.\<close>

definition server_of :: "DeschedulerConfiguration \<Rightarrow> DeschedulerServer" where
  "server_of cfg = \<lparr>KubeconfigFile = dc_KubeconfigFile cfg, PolicyConfigFile = dc_PolicyConfigFile cfg,
     DryRun = dc_DryRun cfg, rs_NodeSelector = dc_NodeSelector cfg,
     MaxNoOfPodsToEvictPerNode = dc_MaxNoOfPodsToEvictPerNode cfg,
     EvictLocalStoragePods = dc_EvictLocalStoragePods cfg, DeschedulingInterval = dc_DeschedulingInterval cfg,
     Client = None, TopologySchedulingClient = None\<rparr>"

definition NewDeschedulerServer :: "'v options_env \<Rightarrow> go_error + DeschedulerConfiguration" where
  "NewDeschedulerServer oe = (case newDefaultComponentConfig oe of Inl err \<Rightarrow> Inl err | Inr cfg \<Rightarrow> Inr cfg)"

definition Validate :: "'v options_env \<Rightarrow> string \<Rightarrow> go_error option" where
  "Validate oe log_format = (let errs = [] @ Logs_Validate oe log_format in NewAggregate oe errs)"

text \<open>
  \<open>AddFlags\<close>: the flags with the fields they set. A nil receiver is dereferenced at the first
  flag, whose default is read from it.
\<close>

datatype flag_value = StringFlag string | DurationFlag int64 | BoolFlag bool | IntFlag int

definition flag_defaults :: "DeschedulerConfiguration \<Rightarrow> (string \<times> flag_value) list" where
  "flag_defaults rs =
     [(''logging-format'', StringFlag (dc_Logging_Format rs)),
      (''descheduling-interval'', DurationFlag (dc_DeschedulingInterval rs)),
      (''kubeconfig'', StringFlag (dc_KubeconfigFile rs)),
      (''policy-config-file'', StringFlag (dc_PolicyConfigFile rs)),
      (''dry-run'', BoolFlag (dc_DryRun rs)),
      (''node-selector'', StringFlag (dc_NodeSelector rs)),
      (''max-pods-to-evict-per-node'', IntFlag (dc_MaxNoOfPodsToEvictPerNode rs)),
      (''evict-local-storage-pods'', BoolFlag (dc_EvictLocalStoragePods rs))]"

definition AddFlags :: "DeschedulerConfiguration option \<Rightarrow> (string \<times> flag_value) list go" where
  "AddFlags rs = (case rs of None \<Rightarrow> Panic NilDeref | Some s \<Rightarrow> Ret (flag_defaults s))"

section \<open>server.go\<close>

text \<open>
  The command: the server it holds and the flags it understands. An error of
  \<open>NewDeschedulerServer\<close> is logged and the nil server is used all the same.
\<close>

definition NewDeschedulerCommand ::
    "'v options_env \<Rightarrow> (DeschedulerConfiguration \<times> (string \<times> flag_value) list) go" where
  "NewDeschedulerCommand oe =
     (let s = (case NewDeschedulerServer oe of Inl err \<Rightarrow> None | Inr cfg \<Rightarrow> Some cfg)
      in go_bind (AddFlags s) (\<lambda>flags. case s of None \<Rightarrow> Panic NilDeref | Some cfg \<Rightarrow> Ret (cfg, flags)))"

definition server_Run :: "run_env \<Rightarrow> DeschedulerServer \<Rightarrow> run_world \<Rightarrow> (run_world \<times> run_result) option" where
  "server_Run env rs w = Run env rs w"

text \<open>
  The \<open>Run\<close> function of the command, with the server after the flags are parsed: errors of the
  validation and of the run are logged (the list), the command itself has no result.
\<close>

definition command_Run ::
    "run_env \<Rightarrow> 'v options_env \<Rightarrow> DeschedulerConfiguration \<Rightarrow> run_world
       \<Rightarrow> (run_world \<times> go_error list \<times> go_panic option) option" where
  "command_Run env oe cfg w =
     (let invalid = (case Validate oe (dc_Logging_Format cfg) of None \<Rightarrow> [] | Some err \<Rightarrow> [err])
      in (case server_Run env (server_of cfg) w of
            None \<Rightarrow> None
          | Some (w', Returned None) \<Rightarrow> Some (w', invalid, None)
          | Some (w', Returned (Some err)) \<Rightarrow> Some (w', invalid @ [err], None)
          | Some (w', Panicked p) \<Rightarrow> Some (w', invalid, Some p)))"

section \<open>Laws\<close>

text \<open>The constructor of the command panics exactly when the default configuration fails to convert.\<close>

lemma NewDeschedulerCommand_panics_iff:
  "NewDeschedulerCommand oe = Panic p \<longleftrightarrow> p = NilDeref \<and> (\<exists>err. newDefaultComponentConfig oe = Inl err)"
  by (auto simp: NewDeschedulerCommand_def AddFlags_def NewDeschedulerServer_def Let_def split: sum.splits)

text \<open>A run ends like \<open>Run\<close>; its error is only visible in the log.\<close>

lemma command_Run_world:
  "map_option fst (command_Run env oe cfg w) = map_option fst (Run env (server_of cfg) w)"
  by (auto simp: command_Run_def server_Run_def Let_def split: option.splits run_result.splits prod.splits)

end
