(* ===== verification/Entry_Points.thy ===== *)
theory Entry_Points
  imports Plugin_New Multi_Cluster Descheduler_Command
begin

text \<open>
  The two programs: \<open>cmd/scheduler/main.go\<close> and \<open>cmd/descheduler/descheduler.go\<close>. Their effects are
  recorded as a list of events. A deferred call runs when \<open>main\<close> returns; \<open>os.Exit\<close> ends the process
  without running it.
\<close>

datatype plugin_factory = TopologyScheduling_New | MultiSchedulingPlugin_New

datatype main_event =
    RandSeed int64
  | NewSchedulerCommand "(string \<times> plugin_factory) list"
  | AddCommand string
  | InitLogs
  | Execute
  | Println go_error
  | FlushLogs
  | Exit int

definition mc_PluginName :: string where
  "mc_PluginName = ''MultiClusterScheduling''"

text \<open>The tail that both programs share: run the command with \<open>FlushLogs\<close> deferred.\<close>

definition scheduler_main :: "int64 \<Rightarrow> go_error option \<Rightarrow> main_event list" where
  "scheduler_main now executed =
     [RandSeed now,
      NewSchedulerCommand [(PluginName, TopologyScheduling_New), (mc_PluginName, MultiSchedulingPlugin_New)],
      InitLogs, Execute]
     @ (case executed of Some err \<Rightarrow> [Exit 1] | None \<Rightarrow> [FlushLogs])"

definition descheduler_main :: "'v options_env \<Rightarrow> go_error option \<Rightarrow> main_event list go" where
  "descheduler_main oe executed =
     go_bind (NewDeschedulerCommand oe)
     (\<lambda>_. Ret ([AddCommand ''version'', InitLogs, Execute]
        @ (case executed of Some err \<Rightarrow> [Println err, Exit 1] | None \<Rightarrow> [FlushLogs])))"

text \<open>A failing command loses the buffered log: \<open>FlushLogs\<close> only happens on success.\<close>

lemma scheduler_flushes_iff: "FlushLogs \<in> set (scheduler_main now executed) \<longleftrightarrow> executed = None"
  by (simp add: scheduler_main_def split: option.split)

lemma descheduler_flushes_iff:
  "descheduler_main oe executed = Ret es \<Longrightarrow> FlushLogs \<in> set es \<longleftrightarrow> executed = None"
  by (auto simp: descheduler_main_def go_bind_Ret_iff split: option.splits)

lemma descheduler_main_panics_iff:
  "descheduler_main oe executed = Panic p \<longleftrightarrow> p = NilDeref \<and> (\<exists>err. newDefaultComponentConfig oe = Inl err)"
  by (cases "NewDeschedulerCommand oe")
     (auto simp: descheduler_main_def NewDeschedulerCommand_panics_iff [symmetric])

text \<open>
  A plugin finds its arguments under its own name. The scheduler decodes arguments into a registered
  type only for the kind "name of the plugin, then Args"; \<open>SchedulingArgs\<close>, the kind that
  \<open>pkg/apis/config\<close> registers, is that of neither plugin.
\<close>

lemma registered_kind_of_no_plugin:
  "name \<in> {PluginName, mc_PluginName} \<Longrightarrow> name @ ''Args'' \<noteq> ''SchedulingArgs''"
  by (auto simp: PluginName_def mc_PluginName_def)

end
