(* ===== verification/Spec2Isabelle.thy ===== *)
theory Spec2Isabelle
  imports Plugin_Properties Process_Properties Multi_Cluster_Properties Config_Properties Copy_Properties
    Parallelism Rebalance Scheme_Properties Fake_Clientset Entry_Points
begin

text \<open>
  A verification development for super-scheduling, a set of Kubernetes components that place the
  pods of a workload over topology values (zones, say) in prescribed numbers. A custom resource
  TopologySchedulingPolicy names a node label (the topology key) and, for values of the label,
  the number of pods each should hold.

  \<^bold>\<open>The program.\<close>
  \<^item> The scheduler plugin TopologyScheduling counts, in PreFilter, the matching pods of every
    topology value; Filter lets a node pass while its value is short or when all values are full;
    Score prefers values; Reserve, Unreserve, AddPod and RemovePod keep the counts up to date.
  \<^item> The descheduler strategy evicts surplus pods of values while others are short, so that the
    scheduler places them anew. The descheduler process runs it, with eight strategies of
    another project, in a loop.
  \<^item> The multi-cluster plugin treats a virtual node as a cluster and asks that cluster's own
    scheduler whether the pod fits.
  \<^item> Generated code gives them access to the policies: clientset, informers, lister, deep copies,
    conversions of the plugin arguments, registration with the schemes.

  \<^bold>\<open>Theories and sources\<close> (paths under \<open>src/\<close>).
  \<^item> \<open>Prelude\<close>: Go's errors, panics, 32-bit cells, maps with an iteration order (locale \<open>go_map\<close>).
  \<^item> \<open>Api_Types\<close>: \<open>pkg/apis/scheduling/v1alpha1/types.go\<close>, \<open>pkg/common/constraint.go\<close>, and the
    fields of pods and nodes that the program reads. \<open>Util\<close>: \<open>pkg/util/utils.go\<close>.
    \<open>Parallelism\<close>: \<open>pkg/util/parallelism.go\<close>.
  \<^item> \<open>PreFilter_State\<close>, \<open>Topology_Scheduling\<close>, \<open>Plugin_New\<close>:
    \<open>pkg/topologyscheduling/topology_scheduling.go\<close>. A \<open>PreFilterState\<close> holds addresses of counters
    in a \<open>heap\<close>, as the code holds pointers, so that \<open>Clone\<close> and the atomic additions mean what
    they mean there. \<open>Float64\<close> is the arithmetic of \<open>score\<close>, \<open>Durations\<close> that of
    \<open>time.Duration.Seconds\<close>.
  \<^item> \<open>Descheduler_Strategy\<close>: \<open>pkg/descheduler/strategies/topologyscheduling.go\<close>; the effect is the
    list of \<open>EvictPod\<close> calls. \<open>Descheduler_Run\<close>: \<open>pkg/descheduler/descheduler.go\<close>.
    \<open>Descheduler_Command\<close>: \<open>cmd/descheduler/app/server.go\<close> and \<open>options.go\<close>. \<open>Version\<close>:
    \<open>cmd/descheduler/app/version.go\<close>. \<open>Entry_Points\<close>: \<open>cmd/scheduler/main.go\<close> and
    \<open>cmd/descheduler/descheduler.go\<close>.
  \<^item> \<open>Multi_Cluster\<close>: \<open>pkg/multicluster\<close>.
  \<^item> \<open>Clients\<close>, \<open>Fake_Client\<close>, \<open>Fake_Clientset\<close>, \<open>Informers\<close>, \<open>Policy_Lister\<close>: \<open>pkg/generated\<close>.
    \<open>Scheme_Registration\<close>: the files \<open>register.go\<close> of the API packages and clientsets,
    \<open>pkg/apis/config/scheme/scheme.go\<close> and \<open>RegisterConversions\<close>. \<open>Deep_Copy\<close>,
    \<open>Config_Deep_Copy\<close>: the three \<open>zz_generated.deepcopy.go\<close>. \<open>Config_Args\<close>:
    \<open>pkg/apis/config/types.go\<close>, \<open>v1beta1/types.go\<close> and \<open>v1beta1/zz_generated.conversion.go\<close>.

  \<^bold>\<open>Lemmas and properties.\<close>
  \<^item> \<open>PreFilter_Counts\<close>, \<open>Plugin_Laws\<close>: what PreFilter counts for every order of the parallel
    pieces, and the arithmetic criterion of Filter. \<open>Scheduling_Cycle\<close>: the scheduler as a step
    relation and the quota invariant, on which this theory's first properties rest. \<open>Recount\<close>:
    incremental updates agree with counting again, also where Score reads the policy anew and it has
    changed since PreFilter counted. \<open>Topology_Score\<close>: ranges and accuracy of scores.
    Properties in \<open>Plugin_Properties\<close>, and below those that span PreFilter, Filter and binding.
  \<^item> \<open>Rebalance\<close>: scheduler and descheduler on one cluster, seen as nodes with pods by the one and
    as a pod list by the other; the properties on their composition are below.
  \<^item> \<open>Descheduler_Laws\<close> (locale \<open>go_sorter\<close>, interpreted on Go's insertion sort),
    \<open>Descheduler_Evictions\<close> (the calls of the strategy as a function of the pod list),
    \<open>Descheduler_Loop\<close> (locale \<open>wait_loop\<close>, a total-correctness rule for \<open>wait.Until\<close>),
    \<open>Descheduler_Settles\<close> (a whole run of the process with this strategy alone: its first iteration
    makes the calls that the policies ask for, the later ones none).
    Properties in \<open>Descheduler_Properties\<close> and \<open>Process_Properties\<close>.
  \<^item> \<open>Scheme_Properties\<close>: the calls that the initialisation makes, and that the registered conversion
    functions are typed. \<open>Informer_Laws\<close> (the factory as a state machine), \<open>Conversion_Laws\<close>,
    \<open>Deep_Copy_Laws\<close> (locale \<open>deep_copier\<close>, built up from flat cells, pairs, fields and slices;
    the copies of metadata and selectors are parameters that meet it by \<open>meta_ok\<close>). Properties in
    \<open>Process_Properties\<close>, \<open>Config_Properties\<close>, \<open>Copy_Properties\<close>; \<open>Multi_Cluster_Properties\<close> composes
    \<open>New\<close>, the schedulers it starts and Filter.
  \<^item> \<open>Samples\<close> and the ends of the property theories hold the concrete inputs of the witnesses.

  \<^bold>\<open>Parameters.\<close> Kubernetes, client-go, apimachinery and the sigs.k8s.io descheduler are not part
  of the repository. What the code calls there is a field of a record (\<open>framework\<close>, \<open>indexer\<close>,
  \<open>desched_env\<close>, \<open>run_env\<close>, \<open>new_env\<close>, \<open>mc_env\<close>, \<open>rest_env\<close>, \<open>conversions\<close>, \<open>apimeta\<close>, \<open>scheme_env\<close>,
  \<open>tracker_ops\<close>), and what the code relies on is a named predicate over it (\<open>cycle_state_ok\<close>,
  \<open>pieces_ok\<close>, \<open>desched_ok\<close>, \<open>api_lists\<close>, \<open>run_ok\<close>, \<open>settles_on\<close>, \<open>steady\<close>, \<open>wait_loop\<close>,
  \<open>reads_pointers\<close> and \<open>shares_pointers\<close> (the string conversions as apimachinery v0.20.5 of \<open>go.mod\<close> has
  them), \<open>meta_ok\<close>, \<open>builder_ok\<close>); every property with such a hypothesis has a witness on computable
  instances. Iteration orders of Go maps are lists, and results are proved for every order.

  \<^bold>\<open>Bounds, loops, panics.\<close> Counters are 32-bit words and wrap; theorems about numbers state the
  bound (fewer than 2 to the 31 pods). All loops of the code are structural recursions except
  \<open>wait.Until\<close>, which may run forever: it is an option-valued parameter whose laws do not say that
  it returns, and \<open>descheduler_returns\<close> proves when it does. Panics (nil dereference, index out of
  range, closing a closed channel, failed type assertion, \<open>panic(err)\<close>) are values, and appear in the conclusions.

  \<^bold>\<open>Not modelled.\<close> Interface and documentation files, build files and scripts hold no logic of
  the program; logging is left out. Codecs made
  from a scheme are values of apimachinery. \<open>api_lists\<close> is an API server that carries every eviction
  out; what the evictor of the other project withholds (a dry run, the limit per node) is outside
  the properties that assume it. The map of clusters in the plugin arguments is a value, so nothing
  is claimed about a deep copy of it being separate. The node informer and the pod lister are never read
  by the modelled code itself. Leader election clients are built by \<open>createClients\<close> and dropped
  by \<open>Config\<close>, as in the code. The pods that \<open>rebalance\<close> places anew are created by the workload
  controllers of Kubernetes; the property takes them as given.
\<close>

section \<open>Runs of the scheduler\<close>

text \<open>
  C1. Exact placement. Start from a cluster in which no topology value holds more matching
  pods than the policy asks for, and let the scheduler run: any interleaving of governed pods
  that PreFilter and Filter let through and of pods that the policy does not count. As long as
  the matching pods are not more than the replicas of the policy in total, no value ever holds
  more than its replicas; and when they are exactly as many, every value holds exactly its
  replicas.
\<close>

theorem exact_placement:
  assumes "sched_run fw idx tsp sel ns nodes nodes'"
    and "LabelSelectorAsSelector fw (spec_LabelSelector (Spec tsp)) = Inr sel"
    and "cycle_state_ok fw" "pieces_ok fw"
    and "\<forall>q \<in> set (DeployPlacement (Spec tsp)). 0 \<le> sint (Replicas q)"
    and "\<forall>v. zone_count (TopologyKey (Spec tsp)) sel ns nodes v \<le> desired tsp v"
    and "pods_total sel ns nodes' \<le> policy_total tsp" "pods_total sel ns nodes' < 2 ^ 31"
  shows "zone_count (TopologyKey (Spec tsp)) sel ns nodes' v \<le> desired tsp v
    \<and> (pods_total sel ns nodes' = policy_total tsp
        \<longrightarrow> zone_count (TopologyKey (Spec tsp)) sel ns nodes' v = desired tsp v)"
proof -
  have inv: "quota_inv tsp sel ns nodes'"
    using sched_run_quota [OF assms(1-4,8)] assms(6) by (simp add: quota_inv_def)
  have "0 \<le> desired tsp w" for w
    using assms(5) by (auto simp: desired_def split: option.split dest: CovertPolicy_range)
  then show ?thesis using quota_exact [OF inv _ assms(7)] by blast
qed

theorem exact_placement_witness:
  "zone_count ''zone'' sample_sel ''prod'' sample_nodes3 ''a'' = desired sample_tsp ''a''"
proof -
  have "\<forall>v. zone_count (TopologyKey (Spec sample_tsp)) sample_sel ''prod'' sample_nodes v \<le> desired sample_tsp v"
  proof
    fix v
    have "0 \<le> desired sample_tsp v"
      using sample_desired_nonneg by (auto simp: desired_def split: option.split dest: CovertPolicy_range)
    then show "zone_count (TopologyKey (Spec sample_tsp)) sample_sel ''prod'' sample_nodes v \<le> desired sample_tsp v"
      by (simp add: sample_start_empty)
  qed
  from exact_placement [OF sample_run sample_sel_ok(1) sample_fw_ok(1,2) _ this, of "''a''"]
  show ?thesis using sample_desired_nonneg sample_zone_counts(3,4) by simp
qed

text \<open>
  C7. The quota invariant of a step, without assumptions on how many pods there are: a step of
  the scheduler keeps "no value is above its replicas, or every value of the policy has
  reached them". So a value is only overfilled when all of them are full.
\<close>

theorem step_keeps_quota:
  assumes "sched_step fw idx tsp sel ns nodes nodes'"
    and "LabelSelectorAsSelector fw (spec_LabelSelector (Spec tsp)) = Inr sel"
    and "cycle_state_ok fw" "pieces_ok fw"
    and "pods_total sel ns nodes < 2 ^ 31"
    and "(\<forall>v. zone_count (TopologyKey (Spec tsp)) sel ns nodes v \<le> desired tsp v)
     \<or> (\<forall>v r. glookup (CovertPolicy (DeployPlacement (Spec tsp))) v = Some r
          \<longrightarrow> sint r \<le> zone_count (TopologyKey (Spec tsp)) sel ns nodes v)"
  shows "(\<forall>v. zone_count (TopologyKey (Spec tsp)) sel ns nodes' v \<le> desired tsp v)
     \<or> (\<forall>v r. glookup (CovertPolicy (DeployPlacement (Spec tsp))) v = Some r
          \<longrightarrow> sint r \<le> zone_count (TopologyKey (Spec tsp)) sel ns nodes' v)"
  using sched_step_quota [OF assms(1-5)] assms(6) unfolding quota_inv_def by blast

theorem step_keeps_quota_witness:
  "(\<forall>v. zone_count ''zone'' sample_sel ''prod'' sample_nodes1 v \<le> desired sample_tsp v)
     \<or> (\<forall>v r. glookup (CovertPolicy (DeployPlacement (Spec sample_tsp))) v = Some r
          \<longrightarrow> sint r \<le> zone_count ''zone'' sample_sel ''prod'' sample_nodes1 v)"
proof -
  have "0 \<le> desired sample_tsp v" for v
    using sample_desired_nonneg by (auto simp: desired_def split: option.split dest: CovertPolicy_range)
  moreover have "pods_total sample_sel ''prod'' sample_nodes = 0" by code_simp
  ultimately show ?thesis
    using step_keeps_quota [OF sample_step1 sample_sel_ok(1) sample_fw_ok(1,2)]
    by (simp add: sample_start_empty)
qed

text \<open>
  C11. Progress. A governed pod that the policy's selector matches can be scheduled on every
  node that its own selector and affinity admit, as long as the node's topology value is in
  the policy and below its replicas: PreFilter and Filter let it through.
\<close>

theorem open_value_schedulable:
  assumes "governed idx tsp ns p" "sel (pod_Labels p)"
    and "LabelSelectorAsSelector fw (spec_LabelSelector (Spec tsp)) = Inr sel"
    and "cycle_state_ok fw" "pieces_ok fw" "nodes_live nodes"
    and "pods_total sel ns nodes < 2 ^ 31"
    and "i < length nodes" "admits fw p (TopologyKey (Spec tsp)) v (nodes ! i)"
    and "glookup (CovertPolicy (DeployPlacement (Spec tsp))) v = Some q"
    and "zone_count (TopologyKey (Spec tsp)) sel ns nodes v < sint q"
  shows "sched_step fw idx tsp sel ns nodes (bind_pod nodes i p)"
  using assms by (rule open_value_step)

theorem open_value_schedulable_witness:
  "sched_step sample_fw sample_idx sample_tsp sample_sel ''prod'' sample_nodes
     (bind_pod sample_nodes 1 (sample_pod ''x''))"
proof (rule open_value_schedulable [OF sample_pod_governed _ sample_sel_ok(1), where v = "''b''" and q = 1])
  show "sample_sel (pod_Labels (sample_pod ''x''))"
    using sample_pod_counted [of "''x''"] by (simp add: counted_def)
  show "admits sample_fw (sample_pod ''x'') (TopologyKey (Spec sample_tsp)) ''b'' (sample_nodes ! 1)"
    by (simp add: admits_def sample_nodes_def sample_node_def mget_def glookup_def)
  show "glookup (CovertPolicy (DeployPlacement (Spec sample_tsp))) ''b'' = Some 1" by code_simp
  show "pods_total sample_sel ''prod'' sample_nodes < 2 ^ 31" by code_simp
qed (simp_all add: sample_start_empty)

section \<open>The scheduler and the descheduler together\<close>

text \<open>A cluster with one pod too many in zone a, and the policy that wants three in zone b.\<close>

definition skewed_get :: indexer where
  "skewed_get = sample_idx\<lparr>GetByKey := (\<lambda>k. Inr (if k = ''prod/web'' then Some skewed_tsp else None))\<rparr>"

definition skewed_cluster :: "node_info list" where
  "skewed_cluster =
     [\<lparr>Node = Some (sample_node ''n1'' ''a''), Pods = [Some (pod_on ''p1'' ''n1'' PodRunning), Some (pod_on ''p3'' ''n1'' PodFailed)]\<rparr>,
      \<lparr>Node = Some (sample_node ''n2'' ''b''), Pods = [Some (pod_on ''p2'' ''n2'' PodRunning)]\<rparr>]"

lemma skewed_cluster_facts:
  "cluster_ok skewed_cluster" "node_objects skewed_cluster = cluster_nodes"
  "listed sample_sel ''prod'' skewed_cluster cluster_pods"
  "zone_count ''zone'' sample_sel ''prod'' skewed_cluster ''b'' = 1" "desired skewed_tsp ''b'' = 3"
  "policy_total skewed_tsp = 4"
proof -
  have "filter (\<lambda>p. NodeName p \<in> node_Name ` set (node_objects skewed_cluster)) cluster_pods = cluster_pods"
    "filter (matching sample_sel ''prod'') (concat (map pods_of skewed_cluster))
      = [pod_on ''p1'' ''n1'' PodRunning, pod_on ''p3'' ''n1'' PodFailed, pod_on ''p2'' ''n2'' PodRunning]"
    by code_simp+
  then show "listed sample_sel ''prod'' skewed_cluster cluster_pods"
    by (simp add: listed_def cluster_pods_def)
qed code_simp+

lemma skewed_replacement: "replacement sample_fw skewed_get skewed_tsp sample_sel ''prod'' skewed_cluster (sample_pod name)"
proof -
  have "governed skewed_get skewed_tsp ''prod'' (sample_pod name)"
    by (simp add: governed_def sample_pod_def mget_def glookup_def get_policy_Inr_iff skewed_get_def
      TopologySchedulingLabelKey_def)
  moreover have "sample_sel (pod_Labels (sample_pod name))"
    using sample_pod_counted [of name] by (simp add: counted_def)
  moreover have "tracked sample_fw (sample_pod name) ''zone'' skewed_cluster ''a''"
    "tracked sample_fw (sample_pod name) ''zone'' skewed_cluster ''b''"
    by (simp_all add: tracked_def admits_def skewed_cluster_def sample_node_def mget_def glookup_def)
  ultimately show ?thesis by (simp add: replacement_def skewed_tsp_def)
qed

lemma skewed_distinct: "int (length cluster_pods) < 2 ^ 31" "distinct cluster_pods"
  by (simp_all add: cluster_pods_def pod_on_def sample_pod_def)

lemma skewed_sel: "LabelSelectorAsSelector sample_fw (spec_LabelSelector (Spec skewed_tsp)) = Inr sample_sel"
  using sample_sel_ok(1) by (simp add: skewed_tsp_def)

text \<open>
  C5. The evictions as the scheduler counts them. The descheduler works on the pod list of the API
  server and the node objects, the scheduler on nodes with their pods. When both show the same
  cluster and the evicted pods disappear, the numbers that the scheduler sees are these: if some
  topology value with pods is below its replicas, every value is cut to its replicas, and
  otherwise nothing changes.
\<close>

theorem evictions_cut_surplus:
  assumes "desched_ok env" "desched_inputs env tsp tr items"
    and "\<forall>q \<in> set (DeployPlacement (Spec tsp)). 0 \<le> sint (Replicas q)"
    and "int (length items) < 2 ^ 31" "distinct items"
    and "cluster_ok nodes" "listed sel ns nodes items"
  shows "\<exists>ev. process_policy env (build_nodeMap (node_objects nodes)) tsp tr = (tr @ ev, None)
    \<and> (let cnt = zone_count (TopologyKey (Spec tsp)) sel ns nodes;
           cnt' = zone_count (TopologyKey (Spec tsp)) sel ns (drop_evicted ev nodes)
       in \<forall>v. cnt' v = (if \<exists>w. 0 < cnt w \<and> cnt w < desired tsp w
            then min (cnt v) (desired tsp v) else cnt v))"
  unfolding Let_def by (rule evictions_cut [OF assms])

theorem evictions_cut_surplus_witness:
  "\<exists>ev. process_policy (small_env cluster_pods) (build_nodeMap (node_objects skewed_cluster)) skewed_tsp [] = (ev, None)
    \<and> (\<forall>v. zone_count ''zone'' sample_sel ''prod'' (drop_evicted ev skewed_cluster) v
          = min (zone_count ''zone'' sample_sel ''prod'' skewed_cluster v) (desired skewed_tsp v))"
proof -
  have "\<exists>w. 0 < zone_count ''zone'' sample_sel ''prod'' skewed_cluster w
      \<and> zone_count ''zone'' sample_sel ''prod'' skewed_cluster w < desired skewed_tsp w"
    by (intro exI [of _ "''b''"]) (simp add: skewed_cluster_facts)
  then show ?thesis
    using evictions_cut_surplus [OF small_env_ok cluster_inputs skewed_nonneg skewed_distinct skewed_cluster_facts(1,3)]
    by (simp add: Let_def)
qed

text \<open>
  C3. Recovery. If some topology value with pods is below its replicas, then once the strategy has
  run and the evicted pods are gone, every run of the scheduler that brings the matching pods
  to the policy's total ends with exactly the replicas of the policy on every value, however
  skewed the cluster was; and replacement pods that are admitted on some node of every value of
  the policy can be placed one after the other without getting stuck.
\<close>

theorem rebalance:
  assumes "desched_ok env" "desched_inputs env tsp tr items"
    and "\<forall>q \<in> set (DeployPlacement (Spec tsp)). 0 \<le> sint (Replicas q)"
    and "int (length items) < 2 ^ 31" "distinct items"
    and "cluster_ok nodes" "listed sel ns nodes items"
    and "LabelSelectorAsSelector fw (spec_LabelSelector (Spec tsp)) = Inr sel"
    and "cycle_state_ok fw" "pieces_ok fw" "policy_total tsp < 2 ^ 31"
    and "0 < zone_count (TopologyKey (Spec tsp)) sel ns nodes w"
    and "zone_count (TopologyKey (Spec tsp)) sel ns nodes w < desired tsp w"
  shows "\<exists>ev. process_policy env (build_nodeMap (node_objects nodes)) tsp tr = (tr @ ev, None)
    \<and> (\<forall>nodes'. sched_run fw idx tsp sel ns (drop_evicted ev nodes) nodes'
          \<and> pods_total sel ns nodes' = policy_total tsp
        \<longrightarrow> (\<forall>v. zone_count (TopologyKey (Spec tsp)) sel ns nodes' v = desired tsp v))
    \<and> (\<forall>ps. pods_total sel ns (drop_evicted ev nodes) + int (length ps) = policy_total tsp
          \<and> (\<forall>p \<in> set ps. replacement fw idx tsp sel ns nodes p)
        \<longrightarrow> (\<exists>is. length is = length ps
              \<and> sched_run fw idx tsp sel ns (drop_evicted ev nodes) (bind_all (zip is ps) (drop_evicted ev nodes))
              \<and> (\<forall>v. zone_count (TopologyKey (Spec tsp)) sel ns (bind_all (zip is ps) (drop_evicted ev nodes)) v
                    = desired tsp v)))"
proof -
  obtain ev where ev: "process_policy env (build_nodeMap (node_objects nodes)) tsp tr = (tr @ ev, None)"
    "\<forall>v. zone_count (TopologyKey (Spec tsp)) sel ns (drop_evicted ev nodes) v =
       (if \<exists>w. 0 < zone_count (TopologyKey (Spec tsp)) sel ns nodes w
            \<and> zone_count (TopologyKey (Spec tsp)) sel ns nodes w < desired tsp w
        then min (zone_count (TopologyKey (Spec tsp)) sel ns nodes v) (desired tsp v)
        else zone_count (TopologyKey (Spec tsp)) sel ns nodes v)"
    using evictions_cut [OF assms(1-7)] by blast
  let ?nodes = "drop_evicted ev nodes"
  have le: "\<forall>v. zone_count (TopologyKey (Spec tsp)) sel ns ?nodes v \<le> desired tsp v"
    using ev(2) assms(12,13) by (simp add: exI [of _ w])
  have "exact_from fw idx tsp sel ns ?nodes"
    by (rule exact_fromI [OF assms(8-10,3,11) cluster_ok_live [OF cluster_ok_drop [OF assms(6)]] le])
  then show ?thesis using ev(1) unfolding exact_from_def by auto
qed

theorem rebalance_witness:
  "\<exists>ev is. process_policy (small_env cluster_pods) (build_nodeMap (node_objects skewed_cluster)) skewed_tsp [] = (ev, None)
    \<and> (\<forall>v. zone_count ''zone'' sample_sel ''prod''
          (bind_all (zip is [sample_pod ''r1'', sample_pod ''r2'']) (drop_evicted ev skewed_cluster)) v = desired skewed_tsp v)"
proof -
  let ?nm = "build_nodeMap (node_objects skewed_cluster)"
  let ?ev = "[evict ?nm (pod_on ''p3'' ''n1'' PodFailed)]"
  have run: "process_policy (small_env cluster_pods) ?nm skewed_tsp [] = (?ev, None)"
    "pods_total sample_sel ''prod'' (drop_evicted ?ev skewed_cluster) = 2"
    by code_simp+
  have "0 < zone_count (TopologyKey (Spec skewed_tsp)) sample_sel ''prod'' skewed_cluster ''b''"
    "zone_count (TopologyKey (Spec skewed_tsp)) sample_sel ''prod'' skewed_cluster ''b'' < desired skewed_tsp ''b''"
    "policy_total skewed_tsp < 2 ^ 31"
    by (simp_all add: skewed_cluster_facts)
  from rebalance [OF small_env_ok cluster_inputs skewed_nonneg skewed_distinct skewed_cluster_facts(1,3) skewed_sel
      sample_fw_ok(1,2) this(3,1,2), of skewed_get] run(1)
  have "\<forall>ps. pods_total sample_sel ''prod'' (drop_evicted ?ev skewed_cluster) + int (length ps) = policy_total skewed_tsp
      \<and> (\<forall>p \<in> set ps. replacement sample_fw skewed_get skewed_tsp sample_sel ''prod'' skewed_cluster p)
    \<longrightarrow> (\<exists>is. length is = length ps
          \<and> sched_run sample_fw skewed_get skewed_tsp sample_sel ''prod'' (drop_evicted ?ev skewed_cluster)
              (bind_all (zip is ps) (drop_evicted ?ev skewed_cluster))
          \<and> (\<forall>v. zone_count (TopologyKey (Spec skewed_tsp)) sample_sel ''prod''
                (bind_all (zip is ps) (drop_evicted ?ev skewed_cluster)) v = desired skewed_tsp v))"
    by auto
  from spec [OF this, of "[sample_pod ''r1'', sample_pod ''r2'']"] show ?thesis
    using run skewed_cluster_facts(6) skewed_replacement by auto
qed

text \<open>
  C2. Recovery by the processes. The descheduler process is started with the topology strategy as
  the only one enabled, on a cluster that nobody else changes. It returns; and for every policy,
  once all pods evicted during its run are gone, the numbers are these: if some topology value
  with pods was below its replicas, every value is cut to its replicas, and then every run of the
  scheduler up to the policy's total is exact and replacement pods can be placed without getting
  stuck; otherwise the numbers are as before the run.
\<close>

theorem descheduler_then_scheduler:
  assumes "settles_on env rs w n (node_objects nodes) base tsps" "tsp \<in> set tsps"
    and "cluster_ok nodes" "listed sel ns nodes (items_of (strategy_env env 0) base tsp)"
    and "LabelSelectorAsSelector fw (spec_LabelSelector (Spec tsp)) = Inr sel"
    and "cycle_state_ok fw" "pieces_ok fw" "policy_total tsp < 2 ^ 31"
  shows "\<exists>w'. Run env rs w = Some (w', Returned None)
    \<and> (let cnt = zone_count (TopologyKey (Spec tsp)) sel ns nodes;
           nodes' = drop_evicted (run_evictions w') nodes;
           cnt' = zone_count (TopologyKey (Spec tsp)) sel ns nodes'
       in if \<exists>z. 0 < cnt z \<and> cnt z < desired tsp z
          then (\<forall>v. cnt' v = min (cnt v) (desired tsp v)) \<and> exact_from fw idx tsp sel ns nodes'
          else cnt' = cnt)"
proof -
  let ?nodes = "node_objects nodes" and ?key = "TopologyKey (Spec tsp)"
  have st: "steady env (run_GetIndexer env (length (made (policy_informers w)))) base tsps"
    using assms(1) by (simp add: settles_on_def)
  note it = steady_iteration [where k = "iterations w", OF st] and pols = steady_policies [where k = "iterations w", OF st]
  obtain w' where w': "Run env rs w = Some (w', Returned None)"
    "run_evictions w' = all_calls (strategy_env env (iterations w)) ?nodes base tsps"
    using Run_settles [OF assms(1)] by blast
  have nonneg: "\<forall>q \<in> set (DeployPlacement (Spec tsp)). 0 \<le> sint (Replicas q)"
    using it(4) [OF assms(2)] by (simp add: policy_ok_def)
  have "\<forall>p \<in> set (items_of (strategy_env env (iterations w)) base tsp). p \<in> ev_pod ` set (run_evictions w')
    \<longleftrightarrow> p \<in> ev_pod ` set (policy_calls (strategy_env env (iterations w)) (build_nodeMap ?nodes) tsp
        (items_of (strategy_env env (iterations w)) base tsp))"
    unfolding w'(2) using all_calls_of_policy [OF it(1) assms(2) _ pols(3)] by blast
  note cut = counts_after_calls [OF it(1) nonneg pols(2) [OF assms(2)] assms(3) assms(4) [folded it(5)] this]
  let ?short = "\<exists>z. 0 < zone_count ?key sel ns nodes z \<and> zone_count ?key sel ns nodes z < desired tsp z"
  let ?after = "zone_count ?key sel ns (drop_evicted (run_evictions w') nodes)"
  have "(\<forall>v. ?after v = min (zone_count ?key sel ns nodes v) (desired tsp v))
      \<and> exact_from fw idx tsp sel ns (drop_evicted (run_evictions w') nodes)" if ?short
  proof
    show cut': "\<forall>v. ?after v = min (zone_count ?key sel ns nodes v) (desired tsp v)"
      unfolding cut if_P [OF that] by simp
    show "exact_from fw idx tsp sel ns (drop_evicted (run_evictions w') nodes)"
      by (rule exact_fromI [OF assms(5-7) nonneg assms(8) cluster_ok_live [OF cluster_ok_drop [OF assms(3)]]])
         (simp add: cut')
  qed
  moreover have "?after = zone_count ?key sel ns nodes" if "\<not> ?short"
    unfolding fun_eq_iff cut if_not_P [OF that] by simp
  ultimately show ?thesis using w'(1) unfolding Let_def if_bool_eq_conj by blast
qed

theorem descheduler_then_scheduler_witness:
  "\<exists>w'. Run sample_run_env sample_server sample_world = Some (w', Returned None)
    \<and> (\<forall>v. zone_count ''zone'' sample_sel ''prod'' (drop_evicted (run_evictions w') skewed_cluster) v
        = min (zone_count ''zone'' sample_sel ''prod'' skewed_cluster v) (desired skewed_tsp v))
    \<and> exact_from sample_fw skewed_get skewed_tsp sample_sel ''prod'' (drop_evicted (run_evictions w') skewed_cluster)"
proof -
  have short: "\<exists>z. 0 < zone_count ''zone'' sample_sel ''prod'' skewed_cluster z
      \<and> zone_count ''zone'' sample_sel ''prod'' skewed_cluster z < desired skewed_tsp z"
    by (intro exI [of _ "''b''"]) (simp add: skewed_cluster_facts)
  have items: "items_of (strategy_env sample_run_env 0) (\<lambda>_ _. cluster_pods) skewed_tsp = cluster_pods"
    by (simp add: items_of_def)
  have "policy_total skewed_tsp < 2 ^ 31" by (simp add: skewed_cluster_facts)
  from descheduler_then_scheduler [OF sample_settles [folded skewed_cluster_facts(2)] _ skewed_cluster_facts(1) _
      skewed_sel sample_fw_ok(1,2) this, of "''prod''" skewed_get]
  show ?thesis
    using skewed_cluster_facts(3) short by (simp add: items Let_def)
qed

end
